(* ===== verification/Go_Prelude.thy ===== *)
theory Go_Prelude
  imports Complex_Main "HOL-Library.AList" "HOL-Library.Sublist" "HOL-Library.Word"
    "HOL-Library.Char_ord" "HOL-Library.List_Lexorder"
begin

text \<open>
  The Go values the agent computes with, shared by every component:
  64-bit integers with their wrap-around, instants and durations, byte strings with the functions
  of package strings the agent calls, maps as association lists with distinct keys.
  A Go string is a sequence of bytes, so it is the type \<^typ>\<open>string\<close> (a list of
  8-bit characters) and \<^const>\<open>length\<close> is Go's \<^verbatim>\<open>len\<close>.
\<close>

section \<open>Collections of facts\<close>

named_theorems go_string_simps \<open>rewriting of the string functions\<close>
named_theorems frame_simps \<open>what an operation leaves unchanged\<close>

section \<open>Integers, instants, durations\<close>

text \<open>
  Go's int, int64 and time.Duration are 64-bit two's complement numbers; a value is an
  \<^typ>\<open>int\<close> in the range \<open>int64\<close>, and arithmetic that may leave the range is
  wrapped by \<open>wrap64\<close>. An instant counts nanoseconds from the zero instant of
  time.Time (January 1 of year 1, UTC).
\<close>

type_synonym time = int
type_synonym duration = int

definition int64 :: "int \<Rightarrow> bool" where
  "int64 x \<longleftrightarrow> - (2 ^ 63) \<le> x \<and> x < 2 ^ 63"

definition wrap64 :: "int \<Rightarrow> int" where
  "wrap64 x = (x + 2 ^ 63) mod 2 ^ 64 - 2 ^ 63"

abbreviation Millisecond :: duration where "Millisecond \<equiv> 1000000"
abbreviation Second :: duration where "Second \<equiv> 1000000000"
abbreviation Minute :: duration where "Minute \<equiv> 60000000000"
abbreviation Hour :: duration where "Hour \<equiv> 3600000000000"

text \<open>time.Time.Sub saturates at the bounds of Duration.\<close>

definition time_Sub :: "time \<Rightarrow> time \<Rightarrow> duration" where
  "time_Sub t u = max (- (2 ^ 63)) (min (2 ^ 63 - 1) (t - u))"

definition time_IsZero :: "time \<Rightarrow> bool" where
  "time_IsZero t \<longleftrightarrow> t = 0"

text \<open>Division of durations truncates towards zero.\<close>

definition quot :: "int \<Rightarrow> int \<Rightarrow> int" where
  "quot a b = sgn a * sgn b * (\<bar>a\<bar> div \<bar>b\<bar>)"

text \<open>
  encoding/json refuses an instant outside the years 0 to 9999: these are the two bounds in
  nanoseconds from the zero instant.
\<close>

definition json_time_ok :: "time \<Rightarrow> bool" where
  "json_time_ok t \<longleftrightarrow> - 31622400 * Second \<le> t \<and> t < 315537897600 * Second"

lemma wrap64_id [simp]: "int64 x \<Longrightarrow> wrap64 x = x"
  by (simp add: int64_def wrap64_def)

lemma wrap64_range [simp]: "int64 (wrap64 x)"
proof -
  have "0 \<le> (x + 2 ^ 63) mod 2 ^ 64" and "(x + 2 ^ 63) mod 2 ^ 64 < 2 ^ 64"
    by simp_all
  then show ?thesis by (simp add: int64_def wrap64_def)
qed

lemma wrap64_word: "wrap64 x = sint (word_of_int x :: 64 word)"
  by (simp add: wrap64_def sint_sbintrunc' signed_take_bit_eq_take_bit_shift take_bit_eq_mod)

lemma time_Sub_small [simp]:
  "- (2 ^ 63) \<le> t - u \<Longrightarrow> t - u < 2 ^ 63 \<Longrightarrow> time_Sub t u = t - u"
  by (simp add: time_Sub_def)

lemma time_Sub_gt_iff: "int64 d \<Longrightarrow> d < 2 ^ 63 - 1 \<Longrightarrow> time_Sub t u > d \<longleftrightarrow> t - u > d"
  by (auto simp: time_Sub_def int64_def)

lemma time_Sub_self [simp]: "time_Sub t t = 0"
  by (simp add: time_Sub_def)

section \<open>Decimal numbers\<close>

fun digit_char :: "nat \<Rightarrow> char" where
  "digit_char n = char_of (48 + n)"

fun show_nat :: "nat \<Rightarrow> string" where
  "show_nat n = (if n < 10 then [digit_char n] else show_nat (n div 10) @ [digit_char (n mod 10)])"

declare show_nat.simps [simp del]

text \<open>The verb \<^verbatim>\<open>%d\<close> of package fmt on an int.\<close>

definition show_int :: "int \<Rightarrow> string" where
  "show_int i = (if i < 0 then CHR ''-'' # show_nat (nat (- i)) else show_nat (nat i))"

definition is_digit :: "char \<Rightarrow> bool" where
  "is_digit c \<longleftrightarrow> CHR ''0'' \<le> c \<and> c \<le> CHR ''9''"

definition digit_val :: "char \<Rightarrow> nat" where
  "digit_val c = of_char c - 48"

fun read_nat :: "nat \<Rightarrow> string \<Rightarrow> nat option" where
  "read_nat acc [] = Some acc"
| "read_nat acc (c # cs) = (if is_digit c then read_nat (10 * acc + digit_val c) cs else None)"

text \<open>strconv.ParseInt in base 10 at 64 bits, on the number literals JSON allows.\<close>

definition ParseInt :: "string \<Rightarrow> int option" where
  "ParseInt s =
     (let (neg, ds) = (case s of [] \<Rightarrow> (False, []) | c # cs \<Rightarrow> if c = CHR ''-'' then (True, cs) else (False, s))
      in if ds = [] then None
         else case read_nat 0 ds of
             None \<Rightarrow> None
           | Some n \<Rightarrow> (let i = (if neg then - int n else int n) in if int64 i then Some i else None))"

lemma digit_char_digit: "n < 10 \<Longrightarrow> is_digit (digit_char n) \<and> digit_val (digit_char n) = n"
  by (simp add: is_digit_def digit_val_def less_eq_char_def)

lemma read_nat_append:
  "read_nat acc (xs @ ys) = (case read_nat acc xs of None \<Rightarrow> None | Some a \<Rightarrow> read_nat a ys)"
  by (induction acc xs rule: read_nat.induct) auto

lemma read_nat_show_nat: "read_nat 0 (show_nat n) = Some n"
proof (induction n rule: show_nat.induct)
  case (1 n)
  show ?case
  proof (cases "n < 10")
    case True
    then show ?thesis
      using digit_char_digit [of n] by (simp add: show_nat.simps [of n] del: digit_char.simps)
  next
    case False
    have "n mod 10 < 10" by simp
    then show ?thesis
      using False 1 digit_char_digit [of "n mod 10"]
      by (simp add: show_nat.simps [of n] read_nat_append del: digit_char.simps)
  qed
qed

lemma show_nat_digits: "c \<in> set (show_nat n) \<Longrightarrow> is_digit c"
proof (induction n rule: show_nat.induct)
  case (1 n)
  have "n mod 10 < 10" by simp
  with 1 show ?case
    using digit_char_digit [of n] digit_char_digit [of "n mod 10"]
    by (auto simp: show_nat.simps [of n] simp del: digit_char.simps split: if_splits)
qed

lemma show_nat_not_Nil [simp]: "show_nat n \<noteq> []"
  by (subst show_nat.simps) simp

lemma ParseInt_show_int: "int64 i \<Longrightarrow> ParseInt (show_int i) = Some i"
proof (cases "i < 0")
  case True
  assume "int64 i"
  with True show ?thesis
    by (simp add: ParseInt_def show_int_def read_nat_show_nat)
next
  case False
  assume i: "int64 i"
  obtain c cs where s: "show_nat (nat i) = c # cs"
    by (meson neq_Nil_conv show_nat_not_Nil)
  then have "is_digit c" using show_nat_digits [of c "nat i"] by simp
  then have "c \<noteq> CHR ''-''" by (auto simp: is_digit_def less_eq_char_def)
  with False i s read_nat_show_nat [of "nat i"] show ?thesis
    by (simp add: ParseInt_def show_int_def)
qed

section \<open>Package strings\<close>

abbreviation newline :: char where "newline \<equiv> CHR 0x0A"

definition is_ascii :: "char \<Rightarrow> bool" where
  "is_ascii c \<longleftrightarrow> (of_char c :: nat) < 128"

definition lower_byte :: "char \<Rightarrow> char" where
  "lower_byte c = (if CHR ''A'' \<le> c \<and> c \<le> CHR ''Z'' then char_of ((of_char c :: nat) + 32) else c)"

definition upper_byte :: "char \<Rightarrow> char" where
  "upper_byte c = (if CHR ''a'' \<le> c \<and> c \<le> CHR ''z'' then char_of ((of_char c :: nat) - 32) else c)"

text \<open>
  strings.ToLower and strings.ToUpper: an ASCII byte is mapped by itself, since no encoded rune
  contains an ASCII byte but the rune that is that byte; a maximal run of other bytes is decoded and
  mapped rune by rune with the Unicode tables, which is the parameter \<open>uni\<close>.
\<close>

function map_case :: "(char \<Rightarrow> char) \<Rightarrow> (string \<Rightarrow> string) \<Rightarrow> string \<Rightarrow> string" where
  "map_case f uni [] = []"
| "map_case f uni (c # cs) =
     (if is_ascii c then f c # map_case f uni cs
      else uni (c # takeWhile (Not \<circ> is_ascii) cs) @ map_case f uni (dropWhile (Not \<circ> is_ascii) cs))"
  by pat_completeness auto
termination
  by (relation "measure (\<lambda>(f, uni, s). length s)")
     (auto simp: less_Suc_eq_le length_dropWhile_le)

definition ToLower :: "(string \<Rightarrow> string) \<Rightarrow> string \<Rightarrow> string" where
  "ToLower uni s = map_case lower_byte uni s"

definition ToUpper :: "(string \<Rightarrow> string) \<Rightarrow> string \<Rightarrow> string" where
  "ToUpper uni s = map_case upper_byte uni s"

fun Contains :: "string \<Rightarrow> string \<Rightarrow> bool" where
  "Contains [] w = (w = [])"
| "Contains (c # cs) w = (prefix w (c # cs) \<or> Contains cs w)"

definition ContainsAny :: "string \<Rightarrow> string \<Rightarrow> bool" where
  "ContainsAny s chars = list_ex (\<lambda>c. c \<in> set chars) s"

abbreviation HasPrefix :: "string \<Rightarrow> string \<Rightarrow> bool" where
  "HasPrefix s p \<equiv> prefix p s"

abbreviation HasSuffix :: "string \<Rightarrow> string \<Rightarrow> bool" where
  "HasSuffix s p \<equiv> suffix p s"

definition TrimSuffix :: "string \<Rightarrow> string \<Rightarrow> string" where
  "TrimSuffix s p = (if suffix p s then take (length s - length p) s else s)"

text \<open>strings.Trim with a cut set of ASCII bytes.\<close>

definition Trim :: "string \<Rightarrow> string \<Rightarrow> string" where
  "Trim s cutset = rev (dropWhile (\<lambda>c. c \<in> set cutset) (rev (dropWhile (\<lambda>c. c \<in> set cutset) s)))"

text \<open>
  strings.TrimSpace cuts the runes for which unicode.IsSpace holds: these are their encodings.
\<close>

definition space_seqs :: "string list" where
  "space_seqs =
     [[CHR 0x20], [CHR 0x09], [CHR 0x0A], [CHR 0x0B], [CHR 0x0C], [CHR 0x0D],
      [CHR 0xC2, CHR 0x85], [CHR 0xC2, CHR 0xA0], [CHR 0xE1, CHR 0x9A, CHR 0x80],
      [CHR 0xE2, CHR 0x80, CHR 0x80], [CHR 0xE2, CHR 0x80, CHR 0x81], [CHR 0xE2, CHR 0x80, CHR 0x82],
      [CHR 0xE2, CHR 0x80, CHR 0x83], [CHR 0xE2, CHR 0x80, CHR 0x84], [CHR 0xE2, CHR 0x80, CHR 0x85],
      [CHR 0xE2, CHR 0x80, CHR 0x86], [CHR 0xE2, CHR 0x80, CHR 0x87], [CHR 0xE2, CHR 0x80, CHR 0x88],
      [CHR 0xE2, CHR 0x80, CHR 0x89], [CHR 0xE2, CHR 0x80, CHR 0x8A], [CHR 0xE2, CHR 0x80, CHR 0xA8],
      [CHR 0xE2, CHR 0x80, CHR 0xA9], [CHR 0xE2, CHR 0x80, CHR 0xAF], [CHR 0xE2, CHR 0x81, CHR 0x9F],
      [CHR 0xE3, CHR 0x80, CHR 0x80]]"

lemma drop_prefix_shorter: "q \<noteq> [] \<Longrightarrow> prefix q s \<Longrightarrow> length s - length q < length s"
  by (auto simp: prefix_def)

function trim_seqs :: "string list \<Rightarrow> string \<Rightarrow> string" where
  "trim_seqs qs s =
     (case find (\<lambda>q. q \<noteq> [] \<and> prefix q s) qs of
        None \<Rightarrow> s
      | Some q \<Rightarrow> trim_seqs qs (drop (length q) s))"
  by pat_completeness auto
termination
  by (relation "measure (\<lambda>(qs, s). length s)")
     (auto simp: find_Some_iff intro: drop_prefix_shorter)

declare trim_seqs.simps [simp del]

definition TrimSpace :: "string \<Rightarrow> string" where
  "TrimSpace s = rev (trim_seqs (map rev space_seqs) (rev (trim_seqs space_seqs s)))"

text \<open>strings.SplitAfter at the newline: every piece keeps its newline, the last may be empty.\<close>

fun SplitAfter :: "string \<Rightarrow> string list" where
  "SplitAfter [] = [[]]"
| "SplitAfter (c # cs) =
     (if c = newline then [c] # SplitAfter cs
      else case SplitAfter cs of l # ls \<Rightarrow> (c # l) # ls | [] \<Rightarrow> [[c]])"

lemma Contains_iff_sublist: "Contains s w \<longleftrightarrow> sublist w s"
  by (induction s) (auto simp: sublist_Cons_right)

lemma Contains_append: "Contains s w \<Longrightarrow> Contains (p @ s @ q) w"
  unfolding Contains_iff_sublist sublist_def by (metis append_assoc)

lemma ContainsAny_iff: "ContainsAny s chars \<longleftrightarrow> set s \<inter> set chars \<noteq> {}"
  by (auto simp: ContainsAny_def list_ex_iff)

lemma map_case_append_ascii:
  "list_all is_ascii a \<Longrightarrow> map_case f uni (a @ s) = map f a @ map_case f uni s"
  by (induction a) auto

lemma map_case_ascii [go_string_simps]: "list_all is_ascii a \<Longrightarrow> map_case f uni a = map f a"
  using map_case_append_ascii [of a f uni "[]"] by simp

lemma map_case_split:
  assumes "a = [] \<or> is_ascii (hd a)"
  shows "map_case f uni (p @ a) = map_case f uni p @ map_case f uni a"
proof (induction f uni p rule: map_case.induct)
  case (1 f uni)
  then show ?case by simp
next
  case (2 f uni c cs)
  have drop: "dropWhile (Not \<circ> is_ascii) (cs @ a) = dropWhile (Not \<circ> is_ascii) cs @ a"
    using assms by (cases a) (auto simp: dropWhile_append)
  have take: "takeWhile (Not \<circ> is_ascii) (cs @ a) = takeWhile (Not \<circ> is_ascii) cs"
    using assms by (cases a) (auto simp: takeWhile_tail)
  show ?case using 2 by (simp add: drop take)
qed

text \<open>
  Case mapping does not hide an ASCII word: wherever a word stands in a text, its case-mapped form
  stands in the case-mapped text, whatever bytes surround it.
\<close>

lemma ToLower_Contains:
  assumes "Contains s v" and "list_all is_ascii v"
  shows "Contains (ToLower uni s) (map lower_byte v)"
proof -
  obtain p q where s: "s = p @ v @ q"
    using assms(1) by (auto simp: Contains_iff_sublist sublist_def)
  show ?thesis
  proof (cases v)
    case Nil
    then show ?thesis by (simp add: Contains_iff_sublist)
  next
    case (Cons c cs)
    then have "map_case lower_byte uni s =
        map_case lower_byte uni p @ map lower_byte v @ map_case lower_byte uni q"
      using assms(2) s by (simp add: map_case_split map_case_append_ascii)
    then show ?thesis
      by (auto simp: ToLower_def Contains_iff_sublist sublist_def)
  qed
qed

lemma SplitAfter_not_Nil [simp]: "SplitAfter s \<noteq> []"
  by (cases s) (auto split: list.splits)

lemma concat_SplitAfter [simp]: "concat (SplitAfter s) = s"
  by (induction s) (auto split: list.splits)

text \<open>
  The shape of a text split after its newlines, and that such pieces, joined, split again the same.
\<close>

fun lines_ok :: "string list \<Rightarrow> bool" where
  "lines_ok [] = False"
| "lines_ok [l] = (newline \<notin> set l)"
| "lines_ok (l # m # ls) = (newline \<notin> set (butlast l) \<and> suffix [newline] l \<and> lines_ok (m # ls))"

lemma lines_ok_Cons:
  "ls \<noteq> [] \<Longrightarrow> lines_ok (l # ls) = (newline \<notin> set (butlast l) \<and> suffix [newline] l \<and> lines_ok ls)"
  by (cases ls) auto

lemma lines_ok_SplitAfter [simp]: "lines_ok (SplitAfter s)"
proof (induction s)
  case Nil
  then show ?case by simp
next
  case (Cons c cs)
  obtain l ls where ls: "SplitAfter cs = l # ls"
    by (meson neq_Nil_conv SplitAfter_not_Nil)
  show ?case
  proof (cases "c = newline")
    case True
    with Cons ls show ?thesis by (simp add: lines_ok_Cons)
  next
    case False
    with Cons ls show ?thesis
      by (cases "ls = []") (auto simp: lines_ok_Cons suffix_def butlast_append)
  qed
qed

lemma SplitAfter_line: "newline \<notin> set b \<Longrightarrow> SplitAfter (b @ newline # rest) = (b @ [newline]) # SplitAfter rest"
  by (induction b) auto

lemma SplitAfter_last: "newline \<notin> set b \<Longrightarrow> SplitAfter b = [b]"
  by (induction b) auto

lemma SplitAfter_concat: "lines_ok ls \<Longrightarrow> SplitAfter (concat ls) = ls"
proof (induction ls rule: lines_ok.induct)
  case (3 l m ls)
  then obtain b where l: "l = b @ [newline]"
    by (auto simp: suffix_def)
  with 3 show ?case by (simp add: SplitAfter_line)
qed (simp_all add: SplitAfter_last)

lemma set_space_seqs_not_Nil [simp]: "q \<in> set space_seqs \<Longrightarrow> q \<noteq> []"
  by (auto simp: space_seqs_def)

section \<open>Maps\<close>

text \<open>
  A Go map is an association list with distinct keys, in the order in which the runtime happens to
  range over it. Lookup is \<^const>\<open>map_of\<close>, assignment \<^const>\<open>AList.update\<close>,
  deletion \<^const>\<open>AList.delete\<close>.
\<close>

type_synonym ('k, 'v) gomap = "('k \<times> 'v) list"

abbreviation wf_map :: "('k, 'v) gomap \<Rightarrow> bool" where
  "wf_map m \<equiv> distinct (map fst m)"

abbreviation map_put :: "'k \<Rightarrow> 'v \<Rightarrow> ('k, 'v) gomap \<Rightarrow> ('k, 'v) gomap" where
  "map_put \<equiv> AList.update"

abbreviation map_del :: "'k \<Rightarrow> ('k, 'v) gomap \<Rightarrow> ('k, 'v) gomap" where
  "map_del \<equiv> AList.delete"

lemma map_of_put [simp]: "map_of (map_put k v m) = (map_of m)(k \<mapsto> v)"
  by (rule update_conv')

lemma map_of_del [simp]: "map_of (map_del k m) = (map_of m)(k := None)"
  by (rule delete_conv')

lemma wf_map_put [simp]: "wf_map m \<Longrightarrow> wf_map (map_put k v m)"
  by (rule distinct_update)

lemma wf_map_del [simp]: "wf_map m \<Longrightarrow> wf_map (map_del k m)"
  by (rule distinct_delete)

lemma length_map_del: "wf_map m \<Longrightarrow> k \<in> fst ` set m \<Longrightarrow> length (map_del k m) = length m - 1"
  by (metis delete_keys distinct_remove1_removeAll length_map length_remove1 set_map)

lemma wf_map_filter [simp]: "wf_map m \<Longrightarrow> wf_map (filter P m)"
  by (induction m) auto

lemma map_of_filter_wf:
  "wf_map m \<Longrightarrow> map_of (filter P m) k = (case map_of m k of Some v \<Rightarrow> if P (k, v) then Some v else None | None \<Rightarrow> None)"
  by (induction m) (auto split: option.splits simp: map_of_eq_None_iff image_iff)

section \<open>Results\<close>

text \<open>A Go pair (value, error) is a sum: \<^const>\<open>Inl\<close> the error, \<^const>\<open>Inr\<close> the value.\<close>

definition is_ok :: "'e + 'a \<Rightarrow> bool" where
  "is_ok r = (case r of Inl _ \<Rightarrow> False | Inr _ \<Rightarrow> True)"

lemma is_ok_simps [simp]: "is_ok (Inr x)" "\<not> is_ok (Inl e)"
  by (simp_all add: is_ok_def)

lemma is_ok_iff: "is_ok r \<longleftrightarrow> (\<exists>x. r = Inr x)"
  by (cases r) auto

end
