(* ===== verification/Go_Json.thy ===== *)
theory Go_Json
  imports Go_Prelude
begin

text \<open>
  JSON documents, the Go values \<^verbatim>\<open>any\<close> they are decoded into, the record of the standard
  library's tables and codecs the model is parametric in, and a small kit that follows
  encoding/json when it fills a struct from an object.
\<close>

section \<open>Documents and values\<close>

text \<open>
  A document keeps number literals as their text and objects as the list of their members, with
  duplicates, in the order of the text.
\<close>

datatype json =
    JNull
  | JBool bool
  | JNum string
  | JStr string
  | JArr "json list"
  | JObj "(string \<times> json) list"

text \<open>
  The dynamic type of a Go interface value, as far as the agent meets it: a float64 is named by
  the literal encoding/json prints for it, a json.Number by its literal.
\<close>

datatype any =
    ANil
  | ABool bool
  | AFloat string
  | ANumber string
  | AInt int
  | AString string
  | ASlice "any list"
  | AMap "(string \<times> any) list"

section \<open>The standard library as a parameter\<close>

text \<open>The parts of net/url's URL the agent reads or sets; the others are kept together.\<close>

record url =
  url_Scheme :: string
  url_Host :: string
  url_Path :: string
  url_RawQuery :: string
  url_Fragment :: string
  url_rest :: string

text \<open>
  Tables and codecs of Go's standard library that the agent only calls. Every theorem holds for
  every value of this record, or names what it assumes of a field.
\<close>

record golib =
  lib_lower :: "string \<Rightarrow> string" \<comment> \<open>unicode.ToLower over a run of non-ASCII bytes\<close>
  lib_upper :: "string \<Rightarrow> string" \<comment> \<open>unicode.ToUpper over a run of non-ASCII bytes\<close>
  lib_utf8 :: "string \<Rightarrow> string" \<comment> \<open>encoding/json's repair of a run of non-ASCII bytes\<close>
  lib_quote :: "string \<Rightarrow> string" \<comment> \<open>the verb \<open>%q\<close> of package fmt\<close>
  lib_f64 :: "string \<Rightarrow> string option" \<comment> \<open>number literal to the printed nearest float64; None: out of range\<close>
  lib_f64_int :: "string \<Rightarrow> int" \<comment> \<open>conversion of a float64 to int\<close>
  lib_time_text :: "time \<Rightarrow> string" \<comment> \<open>time.Time.MarshalJSON, within the years 0 to 9999\<close>
  lib_time_parse :: "string \<Rightarrow> time option" \<comment> \<open>time.Time.UnmarshalJSON on a string\<close>
  lib_rfc3339 :: "time \<Rightarrow> string" \<comment> \<open>time.Time.Format with RFC3339\<close>
  lib_marshal :: "json \<Rightarrow> string" \<comment> \<open>json.Marshal, from the document to its text\<close>
  lib_marshal_indent :: "json \<Rightarrow> string" \<comment> \<open>json.MarshalIndent, from the document to its text\<close>
  lib_parse :: "string \<Rightarrow> json option" \<comment> \<open>the syntax check and scan of json.Unmarshal\<close>
  lib_decode :: "string \<Rightarrow> (json \<times> string) option" \<comment> \<open>one json.Decoder.Decode: document and rest\<close>
  lib_regexp :: "string \<Rightarrow> string \<Rightarrow> bool option" \<comment> \<open>regexp.MatchString; None: the pattern does not compile\<close>
  lib_sha256 :: "string \<Rightarrow> string" \<comment> \<open>sha256.Sum256\<close>
  lib_hmac :: "string \<Rightarrow> string \<Rightarrow> string" \<comment> \<open>HMAC-SHA256 of a key and a message\<close>
  lib_url_parse :: "string \<Rightarrow> url option" \<comment> \<open>url.Parse; None: it is refused\<close>
  lib_url_string :: "url \<Rightarrow> string" \<comment> \<open>URL.String\<close>

text \<open>The text of a string literal: invalid UTF-8 is replaced, ASCII bytes stand as they are.\<close>

definition json_text :: "golib \<Rightarrow> string \<Rightarrow> string" where
  "json_text L s = map_case id (lib_utf8 L) s"

lemma json_text_ascii [simp]: "list_all is_ascii s \<Longrightarrow> json_text L s = s"
  by (simp add: json_text_def map_case_ascii)

lemma json_text_Nil [simp]: "json_text L [] = []"
  by (simp add: json_text_def)

section \<open>json.Unmarshal into any, json.Marshal of any\<close>

text \<open>
  A number becomes a float64, or a json.Number when the decoder was told \<^verbatim>\<open>UseNumber\<close>;
  the last of several members with one name wins.
\<close>

fun to_any :: "golib \<Rightarrow> bool \<Rightarrow> json \<Rightarrow> any option"
and to_anys :: "golib \<Rightarrow> bool \<Rightarrow> json list \<Rightarrow> any list option"
and to_entries :: "golib \<Rightarrow> bool \<Rightarrow> (string \<times> any) list \<Rightarrow> (string \<times> json) list \<Rightarrow> (string \<times> any) list option"
where
  "to_any L un JNull = Some ANil"
| "to_any L un (JBool b) = Some (ABool b)"
| "to_any L un (JNum n) = (if un then Some (ANumber n) else map_option AFloat (lib_f64 L n))"
| "to_any L un (JStr s) = Some (AString s)"
| "to_any L un (JArr js) = map_option ASlice (to_anys L un js)"
| "to_any L un (JObj kvs) = map_option AMap (to_entries L un [] kvs)"
| "to_anys L un [] = Some []"
| "to_anys L un (j # js) =
     (case to_any L un j of
        None \<Rightarrow> None
      | Some a \<Rightarrow> map_option ((#) a) (to_anys L un js))"
| "to_entries L un m [] = Some m"
| "to_entries L un m ((k, j) # kvs) =
     (case to_any L un j of
        None \<Rightarrow> None
      | Some a \<Rightarrow> to_entries L un (map_put k a m) kvs)"

text \<open>Marshalling sorts the keys of a map.\<close>

primrec of_any :: "golib \<Rightarrow> any \<Rightarrow> json" where
  "of_any L ANil = JNull"
| "of_any L (ABool b) = JBool b"
| "of_any L (AFloat s) = JNum s"
| "of_any L (ANumber s) = JNum s"
| "of_any L (AInt i) = JNum (show_int i)"
| "of_any L (AString s) = JStr (json_text L s)"
| "of_any L (ASlice as) = JArr (map (of_any L) as)"
| "of_any L (AMap kvs) =
     JObj (map (map_prod (json_text L) id) (sort_key fst (map (map_prod id (of_any L)) kvs)))"

lemma to_entries_wf: "to_entries L un m kvs = Some m' \<Longrightarrow> wf_map m \<Longrightarrow> wf_map m'"
  by (induction kvs arbitrary: m) (auto split: option.splits)

section \<open>Filling a struct\<close>

text \<open>
  encoding/json matches a member with a field by name without regard to case, where Unicode folds
  two runes outside ASCII onto the letters k and s; members are taken in order, a value of the wrong
  type is an error, null leaves a field as it is.
\<close>

fun fold_name :: "string \<Rightarrow> string" where
  "fold_name [] = []"
| "fold_name (c # cs) =
     (if c = CHR 0xC5 \<and> prefix [CHR 0xBF] cs then CHR ''s'' # fold_name (drop 1 cs)
      else if c = CHR 0xE2 \<and> prefix [CHR 0x84, CHR 0xAA] cs then CHR ''k'' # fold_name (drop 2 cs)
      else lower_byte c # fold_name cs)"

declare fold_name.simps [simp del]

type_synonym 'r setter = "string \<Rightarrow> json \<Rightarrow> 'r \<Rightarrow> 'r option"

fun dec_fields :: "'r setter \<Rightarrow> (string \<times> json) list \<Rightarrow> 'r \<Rightarrow> 'r option" where
  "dec_fields f [] r = Some r"
| "dec_fields f ((k, j) # kvs) r =
     (case f (fold_name k) j r of None \<Rightarrow> None | Some r' \<Rightarrow> dec_fields f kvs r')"

definition dec_struct :: "'r setter \<Rightarrow> json \<Rightarrow> 'r \<Rightarrow> 'r option" where
  "dec_struct f j r = (case j of JNull \<Rightarrow> Some r | JObj kvs \<Rightarrow> dec_fields f kvs r | _ \<Rightarrow> None)"

definition dec_string :: "json \<Rightarrow> (string \<Rightarrow> 'r) \<Rightarrow> 'r \<Rightarrow> 'r option" where
  "dec_string j upd r = (case j of JNull \<Rightarrow> Some r | JStr s \<Rightarrow> Some (upd s) | _ \<Rightarrow> None)"

definition dec_bool :: "json \<Rightarrow> (bool \<Rightarrow> 'r) \<Rightarrow> 'r \<Rightarrow> 'r option" where
  "dec_bool j upd r = (case j of JNull \<Rightarrow> Some r | JBool b \<Rightarrow> Some (upd b) | _ \<Rightarrow> None)"

definition dec_int :: "json \<Rightarrow> (int \<Rightarrow> 'r) \<Rightarrow> 'r \<Rightarrow> 'r option" where
  "dec_int j upd r =
     (case j of JNull \<Rightarrow> Some r | JNum n \<Rightarrow> map_option upd (ParseInt n) | _ \<Rightarrow> None)"

definition dec_int_ptr :: "json \<Rightarrow> (int option \<Rightarrow> 'r) \<Rightarrow> 'r \<Rightarrow> 'r option" where
  "dec_int_ptr j upd r =
     (case j of JNull \<Rightarrow> Some (upd None) | JNum n \<Rightarrow> map_option (upd \<circ> Some) (ParseInt n) | _ \<Rightarrow> None)"

definition dec_time :: "golib \<Rightarrow> json \<Rightarrow> (time \<Rightarrow> 'r) \<Rightarrow> 'r \<Rightarrow> 'r option" where
  "dec_time L j upd r =
     (case j of JNull \<Rightarrow> Some r | JStr s \<Rightarrow> map_option upd (lib_time_parse L s) | _ \<Rightarrow> None)"

text \<open>An object decoded into a map that is already there adds to it.\<close>

definition dec_any_map ::
  "golib \<Rightarrow> json \<Rightarrow> (string \<times> any) list option \<Rightarrow> ((string \<times> any) list option \<Rightarrow> 'r) \<Rightarrow> 'r option" where
  "dec_any_map L j old upd =
     (case j of
        JNull \<Rightarrow> Some (upd None)
      | JObj kvs \<Rightarrow> map_option (upd \<circ> Some) (to_entries L False (case old of None \<Rightarrow> [] | Some m \<Rightarrow> m) kvs)
      | _ \<Rightarrow> None)"

text \<open>json.RawMessage keeps the member's document, null included.\<close>

definition dec_raw :: "json \<Rightarrow> (json option \<Rightarrow> 'r) \<Rightarrow> 'r option" where
  "dec_raw j upd = Some (upd (Some j))"

lemmas dec_defs = dec_struct_def dec_string_def dec_bool_def dec_int_def dec_int_ptr_def dec_time_def
  dec_any_map_def dec_raw_def

lemma fold_name_lower:
  "list_all (\<lambda>c. is_ascii c \<and> \<not> (CHR ''A'' \<le> c \<and> c \<le> CHR ''Z'')) s \<Longrightarrow> fold_name s = s"
proof (induction s)
  case Nil
  then show ?case by (simp add: fold_name.simps)
next
  case (Cons c cs)
  then have "c \<noteq> CHR 0xC5" and "c \<noteq> CHR 0xE2" and "lower_byte c = c"
    by (auto simp: is_ascii_def lower_byte_def)
  with Cons show ?case by (simp add: fold_name.simps)
qed

text \<open>The number literal of an int.\<close>

definition json_int :: "int \<Rightarrow> json" where
  "json_int i = JNum (show_int i)"

lemma dec_int_json_int [simp]: "int64 i \<Longrightarrow> dec_int (json_int i) upd r = Some (upd i)"
  by (simp add: dec_int_def json_int_def ParseInt_show_int)

end
