(* ===== verification/Agent_World.thy ===== *)
theory Agent_World
  imports Go_Json
begin

text \<open>
  What the agent acts on: a clock, the file system, child processes and the audit log, as one record
  that every effectful operation takes and returns. Each reading of the clock and each system call
  has a number, and the environment's answers are functions of that number, so a theorem over all
  worlds covers every clock and every pattern of failing system calls.
\<close>

section \<open>Paths\<close>

text \<open>A cleaned path: whether it is rooted, and its components.\<close>

type_synonym path = "bool \<times> string list"

fun split_slash :: "string \<Rightarrow> string list" where
  "split_slash [] = [[]]"
| "split_slash (c # cs) =
     (if c = CHR ''/'' then [] # split_slash cs
      else case split_slash cs of x # xs \<Rightarrow> (c # x) # xs | [] \<Rightarrow> [[c]])"

text \<open>One component of path/filepath's Clean; the components so far are reversed.\<close>

fun clean_step :: "bool \<Rightarrow> string list \<Rightarrow> string \<Rightarrow> string list" where
  "clean_step rooted acc c =
     (if c = [] \<or> c = ''.'' then acc
      else if c = ''..'' then
        (case acc of
           [] \<Rightarrow> (if rooted then [] else [c])
         | x # xs \<Rightarrow> (if x = ''..'' then c # acc else xs))
      else c # acc)"

definition clean_path :: "string \<Rightarrow> path" where
  "clean_path s = (prefix ''/'' s, rev (foldl (clean_step (prefix ''/'' s)) [] (split_slash s)))"

text \<open>filepath.Join of a directory and a name.\<close>

definition path_join :: "string \<Rightarrow> string \<Rightarrow> path" where
  "path_join dir name = clean_path (if dir = [] then name else dir @ ''/'' @ name)"

definition path_append :: "path \<Rightarrow> string \<Rightarrow> path" where
  "path_append p ext = (fst p, butlast (snd p) @ [last (snd p) @ ext])"

definition path_parent :: "path \<Rightarrow> path" where
  "path_parent p = (fst p, butlast (snd p))"

text \<open>A name that is one component of a path by itself.\<close>

definition simple_name :: "string \<Rightarrow> bool" where
  "simple_name n \<longleftrightarrow> n \<noteq> [] \<and> n \<noteq> ''.'' \<and> n \<noteq> ''..'' \<and> CHR ''/'' \<notin> set n"

lemma split_slash_not_Nil [simp]: "split_slash s \<noteq> []"
  by (cases s) (auto split: list.splits)

lemma split_slash_simple: "CHR ''/'' \<notin> set n \<Longrightarrow> split_slash n = [n]"
  by (induction n) auto

lemma split_slash_append: "split_slash (s @ CHR ''/'' # t) = split_slash s @ split_slash t"
proof (induction s)
  case Nil
  then show ?case by simp
next
  case (Cons c cs)
  obtain x xs where "split_slash cs = x # xs"
    by (meson neq_Nil_conv split_slash_not_Nil)
  with Cons show ?case by auto
qed

lemma path_join_simple:
  assumes "dir \<noteq> []" and "simple_name n"
  shows "path_join dir n = (fst (clean_path dir), snd (clean_path dir) @ [n])"
proof -
  from assms(1) have "prefix ''/'' (dir @ CHR ''/'' # n) = prefix ''/'' dir"
    by (cases dir) auto
  with assms show ?thesis
    by (simp add: path_join_def clean_path_def split_slash_append split_slash_simple simple_name_def)
qed

lemma path_join_inj:
  "dir \<noteq> [] \<Longrightarrow> simple_name m \<Longrightarrow> simple_name n \<Longrightarrow> path_join dir m = path_join dir n \<longleftrightarrow> m = n"
  by (simp add: path_join_simple)

section \<open>The world\<close>

datatype node = FDir | FFile nat string \<comment> \<open>permission bits and content\<close>

datatype os_error = ErrNotExist | ErrIO

text \<open>A child process: exec.Cmd's path, arguments, directory, and the deadline of its context.\<close>

record proc =
  p_path :: string
  p_argv :: "string list"
  p_dir :: "string option"
  p_timeout :: duration

datatype exec_error = ExitError int | StartError

text \<open>
  What a child process did: its writes to the two pipes in their order (\<^const>\<open>True\<close> for
  standard output), whether the deadline of its context had passed, and the error of cmd.Run.
\<close>

record outcome =
  o_writes :: "(bool \<times> string) list"
  o_deadline :: bool
  o_err :: "exec_error option"

text \<open>An event of the audit log, as internal/audit declares it.\<close>

record Event =
  ev_Time :: time
  ev_Event :: string
  ev_RecordID :: string
  ev_CommandID :: string
  ev_Action :: string
  ev_Args :: "(string \<times> any) list option"
  ev_State :: string
  ev_ExitCode :: int
  ev_DurationMS :: int
  ev_ErrorCode :: string
  ev_Attempts :: int
  ev_Transport :: string

text \<open>A line of the audit file: written whole, or torn by a failing write after some bytes.\<close>

datatype audit_line = Line Event | Torn Event nat

text \<open>An HTTP request of the agent, and an answer with what its body holds before it ends or fails.\<close>

record http_request =
  hr_Method :: string
  hr_URL :: string
  hr_Header :: "(string \<times> string list) list"
  hr_Body :: string
  hr_timeout :: duration

record http_response =
  hs_StatusCode :: int
  hs_Body :: string
  hs_broken :: bool

record world =
  w_clock :: "nat \<Rightarrow> time" \<comment> \<open>the n-th reading of the clock\<close>
  w_reads :: nat
  w_fault :: "nat \<Rightarrow> nat option" \<comment> \<open>the n-th system call fails, a write after that many bytes\<close>
  w_calls :: nat
  w_fs :: "(path \<times> node) list"
  w_exec :: "proc list \<Rightarrow> proc \<Rightarrow> outcome" \<comment> \<open>how the machine runs a process, given those before it\<close>
  w_execs :: "proc list" \<comment> \<open>the processes started so far, oldest first\<close>
  w_audit :: "audit_line list"
  w_random :: "nat \<Rightarrow> nat option" \<comment> \<open>the n-th reading of crypto/rand, as a natural; None: it fails\<close>
  w_randoms :: nat
  w_http :: "http_request list \<Rightarrow> http_request \<Rightarrow> string + http_response"
    \<comment> \<open>how the network answers a request, given those before it; Inl: http.Client.Do fails\<close>
  w_requests :: "http_request list" \<comment> \<open>the requests sent so far, oldest first\<close>

section \<open>System calls\<close>

definition time_Now :: "world \<Rightarrow> time \<times> world" where
  "time_Now w = (w_clock w (w_reads w), w\<lparr>w_reads := Suc (w_reads w)\<rparr>)"

definition sys_call :: "world \<Rightarrow> nat option \<times> world" where
  "sys_call w = (w_fault w (w_calls w), w\<lparr>w_calls := Suc (w_calls w)\<rparr>)"

text \<open>crypto/rand's Int: a number below the bound.\<close>

definition rand_Int :: "int \<Rightarrow> world \<Rightarrow> int option \<times> world" where
  "rand_Int bound w =
     (map_option (\<lambda>n. int n mod bound) (w_random w (w_randoms w)), w\<lparr>w_randoms := Suc (w_randoms w)\<rparr>)"

text \<open>crypto/rand's Read into a buffer of n bytes.\<close>

definition rand_Read :: "nat \<Rightarrow> world \<Rightarrow> string option \<times> world" where
  "rand_Read n w =
     (map_option (\<lambda>r. map (\<lambda>i. char_of (r div 256 ^ i mod 256)) [0..<n]) (w_random w (w_randoms w)),
      w\<lparr>w_randoms := Suc (w_randoms w)\<rparr>)"

definition children :: "(path \<times> node) list \<Rightarrow> path \<Rightarrow> (string \<times> node) list" where
  "children fs p =
     map (\<lambda>(q, n). (last (snd q), n))
       (filter (\<lambda>(q, n). snd q \<noteq> [] \<and> path_parent q = p) fs)"

definition os_ReadFile :: "path \<Rightarrow> world \<Rightarrow> (os_error + string) \<times> world" where
  "os_ReadFile p w =
     (let (f, w) = sys_call w
      in (case f of
            Some _ \<Rightarrow> (Inl ErrIO, w)
          | None \<Rightarrow>
              (case map_of (w_fs w) p of
                 None \<Rightarrow> (Inl ErrNotExist, w)
               | Some FDir \<Rightarrow> (Inl ErrIO, w)
               | Some (FFile m b) \<Rightarrow> (Inr b, w))))"

text \<open>os.ReadDir sorts the entries by name.\<close>

definition os_ReadDir :: "path \<Rightarrow> world \<Rightarrow> (os_error + (string \<times> node) list) \<times> world" where
  "os_ReadDir p w =
     (let (f, w) = sys_call w
      in (case f of
            Some _ \<Rightarrow> (Inl ErrIO, w)
          | None \<Rightarrow>
              (case map_of (w_fs w) p of
                 None \<Rightarrow> (Inl ErrNotExist, w)
               | Some FDir \<Rightarrow> (Inr (sort_key fst (children (w_fs w) p)), w)
               | Some (FFile m b) \<Rightarrow> (Inl ErrIO, w))))"

definition os_Stat :: "path \<Rightarrow> world \<Rightarrow> (os_error + node) \<times> world" where
  "os_Stat p w =
     (let (f, w) = sys_call w
      in (case f of
            Some _ \<Rightarrow> (Inl ErrIO, w)
          | None \<Rightarrow> ((case map_of (w_fs w) p of None \<Rightarrow> Inl ErrNotExist | Some n \<Rightarrow> Inr n), w)))"

definition os_Remove :: "path \<Rightarrow> world \<Rightarrow> os_error option \<times> world" where
  "os_Remove p w =
     (let (f, w) = sys_call w
      in (case f of
            Some _ \<Rightarrow> (Some ErrIO, w)
          | None \<Rightarrow>
              (case map_of (w_fs w) p of
                 None \<Rightarrow> (Some ErrNotExist, w)
               | Some FDir \<Rightarrow>
                   (if children (w_fs w) p = [] then (None, w\<lparr>w_fs := map_del p (w_fs w)\<rparr>)
                    else (Some ErrIO, w))
               | Some (FFile m b) \<Rightarrow> (None, w\<lparr>w_fs := map_del p (w_fs w)\<rparr>))))"

text \<open>Renaming a file replaces a file at the new name in one step.\<close>

definition os_Rename :: "path \<Rightarrow> path \<Rightarrow> world \<Rightarrow> os_error option \<times> world" where
  "os_Rename p q w =
     (let (f, w) = sys_call w
      in (case f of
            Some _ \<Rightarrow> (Some ErrIO, w)
          | None \<Rightarrow>
              (case map_of (w_fs w) p of
                 None \<Rightarrow> (Some ErrNotExist, w)
               | Some n \<Rightarrow>
                   (if map_of (w_fs w) q = Some FDir then (Some ErrIO, w)
                    else if map_of (w_fs w) (path_parent q) \<noteq> Some FDir then (Some ErrNotExist, w)
                    else (None, w\<lparr>w_fs := map_put q n (map_del p (w_fs w))\<rparr>)))))"

text \<open>os.OpenFile with O_CREATE, O_TRUNC and O_WRONLY: the file is there and empty.\<close>

definition os_OpenTrunc :: "path \<Rightarrow> nat \<Rightarrow> world \<Rightarrow> os_error option \<times> world" where
  "os_OpenTrunc p mode w =
     (let (f, w) = sys_call w
      in (case f of
            Some _ \<Rightarrow> (Some ErrIO, w)
          | None \<Rightarrow>
              (case map_of (w_fs w) p of
                 Some FDir \<Rightarrow> (Some ErrIO, w)
               | Some (FFile m b) \<Rightarrow> (None, w\<lparr>w_fs := map_put p (FFile m []) (w_fs w)\<rparr>)
               | None \<Rightarrow>
                   (if map_of (w_fs w) (path_parent p) \<noteq> Some FDir then (Some ErrNotExist, w)
                    else (None, w\<lparr>w_fs := map_put p (FFile mode []) (w_fs w)\<rparr>)))))"

text \<open>A write at the end of an open file; a failing write may leave a part of the data behind.\<close>

definition file_Write :: "path \<Rightarrow> string \<Rightarrow> world \<Rightarrow> os_error option \<times> world" where
  "file_Write p data w =
     (let (f, w) = sys_call w
      in (case map_of (w_fs w) p of
            Some (FFile m b) \<Rightarrow>
              (case f of
                 Some n \<Rightarrow> (Some ErrIO, w\<lparr>w_fs := map_put p (FFile m (b @ take n data)) (w_fs w)\<rparr>)
               | None \<Rightarrow> (None, w\<lparr>w_fs := map_put p (FFile m (b @ data)) (w_fs w)\<rparr>))
          | _ \<Rightarrow> (Some ErrIO, w)))"

text \<open>File.Sync, File.Close and the other calls whose only visible effect is their error.\<close>

definition sys_unit :: "world \<Rightarrow> os_error option \<times> world" where
  "sys_unit w = (let (f, w) = sys_call w in (map_option (\<lambda>_. ErrIO) f, w))"

text \<open>os.MkdirAll makes the missing directories of a path, from the top.\<close>

fun mkdirs :: "bool \<Rightarrow> string list \<Rightarrow> string list \<Rightarrow> (path \<times> node) list \<Rightarrow> (path \<times> node) list option" where
  "mkdirs r done [] fs =
     (case map_of fs (r, done) of
        Some (FFile m b) \<Rightarrow> None
      | Some FDir \<Rightarrow> Some fs
      | None \<Rightarrow> Some (map_put (r, done) FDir fs))"
| "mkdirs r done (c # cs) fs =
     (case map_of fs (r, done) of
        Some (FFile m b) \<Rightarrow> None
      | Some FDir \<Rightarrow> mkdirs r (done @ [c]) cs fs
      | None \<Rightarrow> mkdirs r (done @ [c]) cs (map_put (r, done) FDir fs))"

definition os_MkdirAll :: "path \<Rightarrow> world \<Rightarrow> os_error option \<times> world" where
  "os_MkdirAll p w =
     (let (f, w) = sys_call w
      in (case f of
            Some _ \<Rightarrow> (Some ErrIO, w)
          | None \<Rightarrow>
              (case mkdirs (fst p) [] (snd p) (w_fs w) of
                 None \<Rightarrow> (Some ErrIO, w)
               | Some fs \<Rightarrow> (None, w\<lparr>w_fs := fs\<rparr>))))"

definition cmd_Run :: "proc \<Rightarrow> world \<Rightarrow> outcome \<times> world" where
  "cmd_Run p w = (w_exec w (w_execs w) p, w\<lparr>w_execs := w_execs w @ [p]\<rparr>)"

definition http_Do :: "http_request \<Rightarrow> world \<Rightarrow> (string + http_response) \<times> world" where
  "http_Do req w = (w_http w (w_requests w) req, w\<lparr>w_requests := w_requests w @ [req]\<rparr>)"

lemmas sys_defs = time_Now_def sys_call_def os_ReadFile_def os_ReadDir_def os_Stat_def os_Remove_def
  os_Rename_def os_OpenTrunc_def file_Write_def sys_unit_def os_MkdirAll_def cmd_Run_def

section \<open>What each call leaves unchanged\<close>

lemma time_Now_frame [frame_simps]:
  "w_fs (snd (time_Now w)) = w_fs w" "w_execs (snd (time_Now w)) = w_execs w"
  "w_audit (snd (time_Now w)) = w_audit w" "w_fault (snd (time_Now w)) = w_fault w"
  "w_calls (snd (time_Now w)) = w_calls w" "w_clock (snd (time_Now w)) = w_clock w"
  "w_exec (snd (time_Now w)) = w_exec w"
  by (simp_all add: time_Now_def)

lemma rand_Int_frame [frame_simps]:
  "w_fs (snd (rand_Int b w)) = w_fs w" "w_execs (snd (rand_Int b w)) = w_execs w"
  "w_audit (snd (rand_Int b w)) = w_audit w" "w_fault (snd (rand_Int b w)) = w_fault w"
  "w_calls (snd (rand_Int b w)) = w_calls w" "w_clock (snd (rand_Int b w)) = w_clock w"
  by (simp_all add: rand_Int_def)

lemma rand_Read_frame [frame_simps]:
  "w_fs (snd (rand_Read n w)) = w_fs w" "w_execs (snd (rand_Read n w)) = w_execs w"
  "w_audit (snd (rand_Read n w)) = w_audit w" "w_fault (snd (rand_Read n w)) = w_fault w"
  "w_calls (snd (rand_Read n w)) = w_calls w" "w_clock (snd (rand_Read n w)) = w_clock w"
  by (simp_all add: rand_Read_def)

lemma rand_Int_range: "0 < b \<Longrightarrow> fst (rand_Int b w) = Some n \<Longrightarrow> 0 \<le> n \<and> n < b"
  by (auto simp: rand_Int_def)

lemma sys_call_frame [frame_simps]:
  "w_fs (snd (sys_call w)) = w_fs w" "w_execs (snd (sys_call w)) = w_execs w"
  "w_audit (snd (sys_call w)) = w_audit w" "w_fault (snd (sys_call w)) = w_fault w"
  "w_clock (snd (sys_call w)) = w_clock w" "w_exec (snd (sys_call w)) = w_exec w"
  by (simp_all add: sys_call_def)

lemma sys_reads_frame [frame_simps]:
  "w_fs (snd (os_ReadFile p w)) = w_fs w" "w_fs (snd (os_ReadDir p w)) = w_fs w"
  "w_fs (snd (os_Stat p w)) = w_fs w" "w_fs (snd (sys_unit w)) = w_fs w"
  "w_fs (snd (cmd_Run pr w)) = w_fs w"
  by (auto simp: sys_defs Let_def split: option.splits node.splits)

lemma sys_execs_frame [frame_simps]:
  "w_execs (snd (os_ReadFile p w)) = w_execs w" "w_execs (snd (os_ReadDir p w)) = w_execs w"
  "w_execs (snd (os_Stat p w)) = w_execs w" "w_execs (snd (os_Remove p w)) = w_execs w"
  "w_execs (snd (os_Rename p q w)) = w_execs w" "w_execs (snd (os_OpenTrunc p m w)) = w_execs w"
  "w_execs (snd (file_Write p d w)) = w_execs w" "w_execs (snd (sys_unit w)) = w_execs w"
  "w_execs (snd (os_MkdirAll p w)) = w_execs w"
  by (auto simp: sys_defs Let_def split: option.splits node.splits)

lemma sys_audit_frame [frame_simps]:
  "w_audit (snd (os_ReadFile p w)) = w_audit w" "w_audit (snd (os_ReadDir p w)) = w_audit w"
  "w_audit (snd (os_Stat p w)) = w_audit w" "w_audit (snd (os_Remove p w)) = w_audit w"
  "w_audit (snd (os_Rename p q w)) = w_audit w" "w_audit (snd (os_OpenTrunc p m w)) = w_audit w"
  "w_audit (snd (file_Write p d w)) = w_audit w" "w_audit (snd (sys_unit w)) = w_audit w"
  "w_audit (snd (os_MkdirAll p w)) = w_audit w" "w_audit (snd (cmd_Run pr w)) = w_audit w"
  by (auto simp: sys_defs Let_def split: option.splits node.splits)

lemma sys_fault_frame [frame_simps]:
  "w_fault (snd (os_ReadFile p w)) = w_fault w" "w_fault (snd (os_ReadDir p w)) = w_fault w"
  "w_fault (snd (os_Stat p w)) = w_fault w" "w_fault (snd (os_Remove p w)) = w_fault w"
  "w_fault (snd (os_Rename p q w)) = w_fault w" "w_fault (snd (os_OpenTrunc p m w)) = w_fault w"
  "w_fault (snd (file_Write p d w)) = w_fault w" "w_fault (snd (sys_unit w)) = w_fault w"
  "w_fault (snd (os_MkdirAll p w)) = w_fault w" "w_fault (snd (cmd_Run pr w)) = w_fault w"
  by (auto simp: sys_defs Let_def split: option.splits node.splits)

text \<open>A world in which no system call fails.\<close>

definition no_faults :: "world \<Rightarrow> bool" where
  "no_faults w \<longleftrightarrow> w_fault w = (\<lambda>_. None)"

end
