(* ===== verification/Protocol.thy ===== *)
theory Protocol
  imports Agent_World
begin

text \<open>
  internal/protocol and the payloads of internal/transport: the messages between cloud and agent as
  records, the document json.Marshal makes of each, and the struct json.Unmarshal fills.
  A json.RawMessage is the document it holds, or \<^const>\<open>None\<close> when nothing was set.
\<close>

named_theorems protocol_defs \<open>constants of the protocol\<close>

section \<open>Constants\<close>

type_synonym CommandState = string
type_synonym MessageType = string

definition CommandQueued :: CommandState where [protocol_defs]: "CommandQueued = ''queued''"
definition CommandRunning :: CommandState where [protocol_defs]: "CommandRunning = ''running''"
definition CommandSucceeded :: CommandState where [protocol_defs]: "CommandSucceeded = ''succeeded''"
definition CommandFailed :: CommandState where [protocol_defs]: "CommandFailed = ''failed''"
definition CommandTimedOut :: CommandState where [protocol_defs]: "CommandTimedOut = ''timed_out''"
definition CommandRejected :: CommandState where [protocol_defs]: "CommandRejected = ''rejected''"
definition CommandCancelled :: CommandState where [protocol_defs]: "CommandCancelled = ''cancelled''"

definition MessageTypeHello :: MessageType where [protocol_defs]: "MessageTypeHello = ''hello''"
definition MessageTypeHelloAck :: MessageType where [protocol_defs]: "MessageTypeHelloAck = ''hello_ack''"
definition MessageTypeHeartbeat :: MessageType where [protocol_defs]: "MessageTypeHeartbeat = ''heartbeat''"
definition MessageTypeCommand :: MessageType where [protocol_defs]: "MessageTypeCommand = ''command''"
definition MessageTypeAck :: MessageType where [protocol_defs]: "MessageTypeAck = ''ack''"
definition MessageTypeResult :: MessageType where [protocol_defs]: "MessageTypeResult = ''result''"
definition MessageTypeStatus :: MessageType where [protocol_defs]: "MessageTypeStatus = ''status''"
definition MessageTypeError :: MessageType where [protocol_defs]: "MessageTypeError = ''error''"

definition envelopeVersion :: string where [protocol_defs]: "envelopeVersion = ''1''"

section \<open>Payloads\<close>

record CommandPayload =
  cmd_CommandID :: string
  cmd_Action :: string
  cmd_Args :: "(string \<times> any) list option"
  cmd_TimeoutSec :: "int option"
  cmd_Async :: bool
  cmd_RequestedBy :: string
  cmd_IssuedAt :: time

record AckPayload =
  ack_CommandID :: string
  ack_Action :: string
  ack_State :: CommandState
  ack_Accepted :: bool
  ack_ErrorCode :: string
  ack_Message :: string

record ResultPayload =
  res_CommandID :: string
  res_Action :: string
  res_State :: CommandState
  res_ExitCode :: int
  res_Stdout :: string
  res_Stderr :: string
  res_OutputTruncated :: bool
  res_StartedAt :: time
  res_EndedAt :: time
  res_DurationMS :: int
  res_ErrorCode :: string

record HelloAckPayload =
  hack_Accepted :: bool
  hack_ServerTime :: time
  hack_Message :: string

record ErrorPayload =
  err_ErrorCode :: string
  err_Message :: string

record Envelope =
  env_Version :: string
  env_Type :: MessageType
  env_MessageID :: string
  env_CorrelationID :: string
  env_DeviceID :: string
  env_Timestamp :: time
  env_Payload :: "json option"

text \<open>The zero value of each struct that json.Unmarshal fills.\<close>

definition zero_CommandPayload :: CommandPayload where
  "zero_CommandPayload = \<lparr>cmd_CommandID = [], cmd_Action = [], cmd_Args = None, cmd_TimeoutSec = None,
     cmd_Async = False, cmd_RequestedBy = [], cmd_IssuedAt = 0\<rparr>"

definition zero_ResultPayload :: ResultPayload where
  "zero_ResultPayload = \<lparr>res_CommandID = [], res_Action = [], res_State = [], res_ExitCode = 0,
     res_Stdout = [], res_Stderr = [], res_OutputTruncated = False, res_StartedAt = 0, res_EndedAt = 0,
     res_DurationMS = 0, res_ErrorCode = []\<rparr>"

definition zero_HelloAckPayload :: HelloAckPayload where
  "zero_HelloAckPayload = \<lparr>hack_Accepted = False, hack_ServerTime = 0, hack_Message = []\<rparr>"

definition zero_Envelope :: Envelope where
  "zero_Envelope = \<lparr>env_Version = [], env_Type = [], env_MessageID = [], env_CorrelationID = [],
     env_DeviceID = [], env_Timestamp = 0, env_Payload = None\<rparr>"

section \<open>json.Unmarshal\<close>

definition set_CommandPayload :: "golib \<Rightarrow> CommandPayload setter" where
  "set_CommandPayload L k j c =
     (if k = ''command_id'' then dec_string j (\<lambda>s. c\<lparr>cmd_CommandID := s\<rparr>) c
      else if k = ''action'' then dec_string j (\<lambda>s. c\<lparr>cmd_Action := s\<rparr>) c
      else if k = ''args'' then dec_any_map L j (cmd_Args c) (\<lambda>m. c\<lparr>cmd_Args := m\<rparr>)
      else if k = ''timeout_sec'' then dec_int_ptr j (\<lambda>i. c\<lparr>cmd_TimeoutSec := i\<rparr>) c
      else if k = ''async'' then dec_bool j (\<lambda>b. c\<lparr>cmd_Async := b\<rparr>) c
      else if k = ''requested_by'' then dec_string j (\<lambda>s. c\<lparr>cmd_RequestedBy := s\<rparr>) c
      else if k = ''issued_at'' then dec_time L j (\<lambda>t. c\<lparr>cmd_IssuedAt := t\<rparr>) c
      else Some c)"

definition set_ResultPayload :: "golib \<Rightarrow> ResultPayload setter" where
  "set_ResultPayload L k j r =
     (if k = ''command_id'' then dec_string j (\<lambda>s. r\<lparr>res_CommandID := s\<rparr>) r
      else if k = ''action'' then dec_string j (\<lambda>s. r\<lparr>res_Action := s\<rparr>) r
      else if k = ''state'' then dec_string j (\<lambda>s. r\<lparr>res_State := s\<rparr>) r
      else if k = ''exit_code'' then dec_int j (\<lambda>i. r\<lparr>res_ExitCode := i\<rparr>) r
      else if k = ''stdout'' then dec_string j (\<lambda>s. r\<lparr>res_Stdout := s\<rparr>) r
      else if k = ''stderr'' then dec_string j (\<lambda>s. r\<lparr>res_Stderr := s\<rparr>) r
      else if k = ''output_truncated'' then dec_bool j (\<lambda>b. r\<lparr>res_OutputTruncated := b\<rparr>) r
      else if k = ''started_at'' then dec_time L j (\<lambda>t. r\<lparr>res_StartedAt := t\<rparr>) r
      else if k = ''ended_at'' then dec_time L j (\<lambda>t. r\<lparr>res_EndedAt := t\<rparr>) r
      else if k = ''duration_ms'' then dec_int j (\<lambda>i. r\<lparr>res_DurationMS := i\<rparr>) r
      else if k = ''error_code'' then dec_string j (\<lambda>s. r\<lparr>res_ErrorCode := s\<rparr>) r
      else Some r)"

definition set_HelloAckPayload :: "golib \<Rightarrow> HelloAckPayload setter" where
  "set_HelloAckPayload L k j h =
     (if k = ''accepted'' then dec_bool j (\<lambda>b. h\<lparr>hack_Accepted := b\<rparr>) h
      else if k = ''server_time'' then dec_time L j (\<lambda>t. h\<lparr>hack_ServerTime := t\<rparr>) h
      else if k = ''message'' then dec_string j (\<lambda>s. h\<lparr>hack_Message := s\<rparr>) h
      else Some h)"

definition set_Envelope :: "golib \<Rightarrow> Envelope setter" where
  "set_Envelope L k j e =
     (if k = ''version'' then dec_string j (\<lambda>s. e\<lparr>env_Version := s\<rparr>) e
      else if k = ''type'' then dec_string j (\<lambda>s. e\<lparr>env_Type := s\<rparr>) e
      else if k = ''message_id'' then dec_string j (\<lambda>s. e\<lparr>env_MessageID := s\<rparr>) e
      else if k = ''correlation_id'' then dec_string j (\<lambda>s. e\<lparr>env_CorrelationID := s\<rparr>) e
      else if k = ''device_id'' then dec_string j (\<lambda>s. e\<lparr>env_DeviceID := s\<rparr>) e
      else if k = ''timestamp'' then dec_time L j (\<lambda>t. e\<lparr>env_Timestamp := t\<rparr>) e
      else if k = ''payload'' then dec_raw j (\<lambda>p. e\<lparr>env_Payload := p\<rparr>)
      else Some e)"

text \<open>
  json.Unmarshal of a payload into a fresh struct; an empty RawMessage is not a document.
\<close>

definition unmarshal_CommandPayload :: "golib \<Rightarrow> json option \<Rightarrow> CommandPayload option" where
  "unmarshal_CommandPayload L p =
     (case p of None \<Rightarrow> None | Some j \<Rightarrow> dec_struct (set_CommandPayload L) j zero_CommandPayload)"

definition unmarshal_ResultPayload :: "golib \<Rightarrow> json option \<Rightarrow> ResultPayload option" where
  "unmarshal_ResultPayload L p =
     (case p of None \<Rightarrow> None | Some j \<Rightarrow> dec_struct (set_ResultPayload L) j zero_ResultPayload)"

definition unmarshal_HelloAckPayload :: "golib \<Rightarrow> json option \<Rightarrow> HelloAckPayload option" where
  "unmarshal_HelloAckPayload L p =
     (case p of None \<Rightarrow> None | Some j \<Rightarrow> dec_struct (set_HelloAckPayload L) j zero_HelloAckPayload)"

definition unmarshal_Envelope :: "golib \<Rightarrow> json \<Rightarrow> Envelope option" where
  "unmarshal_Envelope L j = dec_struct (set_Envelope L) j zero_Envelope"

section \<open>json.Marshal\<close>

text \<open>\<^const>\<open>None\<close>: an instant outside the years JSON can carry.\<close>

definition marshal_ResultPayload :: "golib \<Rightarrow> ResultPayload \<Rightarrow> json option" where
  "marshal_ResultPayload L r =
     (if json_time_ok (res_StartedAt r) \<and> json_time_ok (res_EndedAt r)
      then Some (JObj
       [(''command_id'', JStr (json_text L (res_CommandID r))),
        (''action'', JStr (json_text L (res_Action r))),
        (''state'', JStr (json_text L (res_State r))),
        (''exit_code'', json_int (res_ExitCode r)),
        (''stdout'', JStr (json_text L (res_Stdout r))),
        (''stderr'', JStr (json_text L (res_Stderr r))),
        (''output_truncated'', JBool (res_OutputTruncated r)),
        (''started_at'', JStr (lib_time_text L (res_StartedAt r))),
        (''ended_at'', JStr (lib_time_text L (res_EndedAt r))),
        (''duration_ms'', json_int (res_DurationMS r)),
        (''error_code'', JStr (json_text L (res_ErrorCode r)))])
      else None)"

definition marshal_AckPayload :: "golib \<Rightarrow> AckPayload \<Rightarrow> json option" where
  "marshal_AckPayload L a =
     Some (JObj
       ([(''command_id'', JStr (json_text L (ack_CommandID a))),
         (''action'', JStr (json_text L (ack_Action a))),
         (''state'', JStr (json_text L (ack_State a))),
         (''accepted'', JBool (ack_Accepted a)),
         (''error_code'', JStr (json_text L (ack_ErrorCode a)))] @
        (if ack_Message a = [] then [] else [(''message'', JStr (json_text L (ack_Message a)))])))"

definition marshal_ErrorPayload :: "golib \<Rightarrow> ErrorPayload \<Rightarrow> json option" where
  "marshal_ErrorPayload L e =
     Some (JObj [(''error_code'', JStr (json_text L (err_ErrorCode e))),
                 (''message'', JStr (json_text L (err_Message e)))])"

text \<open>A nil RawMessage is written as null.\<close>

definition marshal_Envelope :: "golib \<Rightarrow> Envelope \<Rightarrow> json option" where
  "marshal_Envelope L e =
     (if json_time_ok (env_Timestamp e)
      then Some (JObj
       [(''version'', JStr (json_text L (env_Version e))),
        (''type'', JStr (json_text L (env_Type e))),
        (''message_id'', JStr (json_text L (env_MessageID e))),
        (''correlation_id'', JStr (json_text L (env_CorrelationID e))),
        (''device_id'', JStr (json_text L (env_DeviceID e))),
        (''timestamp'', JStr (lib_time_text L (env_Timestamp e))),
        (''payload'', (case env_Payload e of None \<Rightarrow> JNull | Some j \<Rightarrow> j))])
      else None)"

section \<open>Round trips\<close>

text \<open>A string that json.Marshal writes as it is.\<close>

definition text_ok :: "golib \<Rightarrow> string \<Rightarrow> bool" where
  "text_ok L s \<longleftrightarrow> json_text L s = s"

text \<open>An instant that survives formatting and parsing.\<close>

definition time_ok :: "golib \<Rightarrow> time \<Rightarrow> bool" where
  "time_ok L t \<longleftrightarrow> json_time_ok t \<and> lib_time_parse L (lib_time_text L t) = Some t"

definition wf_Envelope :: "golib \<Rightarrow> Envelope \<Rightarrow> bool" where
  "wf_Envelope L e \<longleftrightarrow> text_ok L (env_Version e) \<and> text_ok L (env_Type e) \<and> text_ok L (env_MessageID e) \<and>
     text_ok L (env_CorrelationID e) \<and> text_ok L (env_DeviceID e) \<and> time_ok L (env_Timestamp e) \<and>
     env_Payload e \<noteq> None"

definition wf_ResultPayload :: "golib \<Rightarrow> ResultPayload \<Rightarrow> bool" where
  "wf_ResultPayload L r \<longleftrightarrow> text_ok L (res_CommandID r) \<and> text_ok L (res_Action r) \<and> text_ok L (res_State r) \<and>
     int64 (res_ExitCode r) \<and> text_ok L (res_Stdout r) \<and> text_ok L (res_Stderr r) \<and>
     time_ok L (res_StartedAt r) \<and> time_ok L (res_EndedAt r) \<and> int64 (res_DurationMS r) \<and>
     text_ok L (res_ErrorCode r)"

lemma fold_names [simp]:
  "fold_name ''command_id'' = ''command_id''" "fold_name ''action'' = ''action''"
  "fold_name ''state'' = ''state''" "fold_name ''exit_code'' = ''exit_code''"
  "fold_name ''stdout'' = ''stdout''" "fold_name ''stderr'' = ''stderr''"
  "fold_name ''output_truncated'' = ''output_truncated''" "fold_name ''started_at'' = ''started_at''"
  "fold_name ''ended_at'' = ''ended_at''" "fold_name ''duration_ms'' = ''duration_ms''"
  "fold_name ''error_code'' = ''error_code''" "fold_name ''version'' = ''version''"
  "fold_name ''type'' = ''type''" "fold_name ''message_id'' = ''message_id''"
  "fold_name ''correlation_id'' = ''correlation_id''" "fold_name ''device_id'' = ''device_id''"
  "fold_name ''timestamp'' = ''timestamp''" "fold_name ''payload'' = ''payload''"
  by (code_simp+)

lemma set_Envelope_simps:
  "set_Envelope L ''version'' j e = dec_string j (\<lambda>s. e\<lparr>env_Version := s\<rparr>) e"
  "set_Envelope L ''type'' j e = dec_string j (\<lambda>s. e\<lparr>env_Type := s\<rparr>) e"
  "set_Envelope L ''message_id'' j e = dec_string j (\<lambda>s. e\<lparr>env_MessageID := s\<rparr>) e"
  "set_Envelope L ''correlation_id'' j e = dec_string j (\<lambda>s. e\<lparr>env_CorrelationID := s\<rparr>) e"
  "set_Envelope L ''device_id'' j e = dec_string j (\<lambda>s. e\<lparr>env_DeviceID := s\<rparr>) e"
  "set_Envelope L ''timestamp'' j e = dec_time L j (\<lambda>t. e\<lparr>env_Timestamp := t\<rparr>) e"
  "set_Envelope L ''payload'' j e = dec_raw j (\<lambda>p. e\<lparr>env_Payload := p\<rparr>)"
  by (simp_all add: set_Envelope_def)

lemma set_ResultPayload_simps:
  "set_ResultPayload L ''command_id'' j r = dec_string j (\<lambda>s. r\<lparr>res_CommandID := s\<rparr>) r"
  "set_ResultPayload L ''action'' j r = dec_string j (\<lambda>s. r\<lparr>res_Action := s\<rparr>) r"
  "set_ResultPayload L ''state'' j r = dec_string j (\<lambda>s. r\<lparr>res_State := s\<rparr>) r"
  "set_ResultPayload L ''exit_code'' j r = dec_int j (\<lambda>i. r\<lparr>res_ExitCode := i\<rparr>) r"
  "set_ResultPayload L ''stdout'' j r = dec_string j (\<lambda>s. r\<lparr>res_Stdout := s\<rparr>) r"
  "set_ResultPayload L ''stderr'' j r = dec_string j (\<lambda>s. r\<lparr>res_Stderr := s\<rparr>) r"
  "set_ResultPayload L ''output_truncated'' j r = dec_bool j (\<lambda>b. r\<lparr>res_OutputTruncated := b\<rparr>) r"
  "set_ResultPayload L ''started_at'' j r = dec_time L j (\<lambda>t. r\<lparr>res_StartedAt := t\<rparr>) r"
  "set_ResultPayload L ''ended_at'' j r = dec_time L j (\<lambda>t. r\<lparr>res_EndedAt := t\<rparr>) r"
  "set_ResultPayload L ''duration_ms'' j r = dec_int j (\<lambda>i. r\<lparr>res_DurationMS := i\<rparr>) r"
  "set_ResultPayload L ''error_code'' j r = dec_string j (\<lambda>s. r\<lparr>res_ErrorCode := s\<rparr>) r"
  by (simp_all add: set_ResultPayload_def)

lemma unmarshal_marshal_Envelope:
  assumes "wf_Envelope L e" and "marshal_Envelope L e = Some j"
  shows "unmarshal_Envelope L j = Some e"
proof -
  obtain p where p: "env_Payload e = Some p"
    using assms(1) by (auto simp: wf_Envelope_def)
  have j: "j = the (marshal_Envelope L e)" using assms by simp
  show ?thesis
    using assms(1) p unfolding j
    by (simp add: wf_Envelope_def text_ok_def time_ok_def marshal_Envelope_def unmarshal_Envelope_def
        dec_struct_def set_Envelope_simps dec_string_def dec_time_def dec_raw_def zero_Envelope_def)
qed

lemma unmarshal_marshal_ResultPayload:
  assumes "wf_ResultPayload L r" and "marshal_ResultPayload L r = Some j"
  shows "unmarshal_ResultPayload L (Some j) = Some r"
proof -
  have j: "j = the (marshal_ResultPayload L r)" using assms by simp
  show ?thesis
    using assms(1) unfolding j
    by (simp add: wf_ResultPayload_def text_ok_def time_ok_def marshal_ResultPayload_def
        unmarshal_ResultPayload_def dec_struct_def set_ResultPayload_simps dec_string_def dec_bool_def
        dec_time_def zero_ResultPayload_def)
qed

end
