(* ===== verification/Redact.thy ===== *)
theory Redact
  imports Protocol
begin

text \<open>
  internal/audit/redact.go: redaction of structured values by key name and of output text by line.
  The lemmas show that a redacted value holds only the marker under a sensitive key, that it does not
  depend on what stood there, and that no line with a sensitive word is left in a redacted text.
\<close>

section \<open>Structured values\<close>

definition RedactedValue :: string where
  "RedactedValue = ''***REDACTED***''"

definition isSensitiveKey :: "golib \<Rightarrow> string \<Rightarrow> bool" where
  "isSensitiveKey L key =
     (let k = ToLower (lib_lower L) key
      in if k = ''psk'' \<or> k = ''key'' \<or> k = ''device_secret'' then True
         else Contains k ''password'' \<or> Contains k ''token'' \<or> Contains k ''secret'' \<or> HasSuffix k ''_key'')"

fun Redact :: "golib \<Rightarrow> any \<Rightarrow> any"
and Redact_entries :: "golib \<Rightarrow> (string \<times> any) list \<Rightarrow> (string \<times> any) list"
and Redact_items :: "golib \<Rightarrow> any list \<Rightarrow> any list"
where
  "Redact L (AMap v) = AMap (Redact_entries L v)"
| "Redact L (ASlice v) = ASlice (Redact_items L v)"
| "Redact L value = value"
| "Redact_entries L [] = []"
| "Redact_entries L ((key, item) # v) =
     (if isSensitiveKey L key then (key, AString RedactedValue) else (key, Redact L item)) # Redact_entries L v"
| "Redact_items L [] = []"
| "Redact_items L (item # v) = Redact L item # Redact_items L v"

section \<open>Text\<close>

definition sensitiveWords :: "string list" where
  "sensitiveWords = [''psk'', ''password'', ''passwd'', ''token'', ''secret'', ''key'', ''device_secret'', ''signature'']"

definition containsSensitiveWord :: "golib \<Rightarrow> string \<Rightarrow> bool" where
  "containsSensitiveWord L line =
     (let lower = ToLower (lib_lower L) line in list_ex (\<lambda>word. Contains lower word) sensitiveWords)"

definition redact_line :: "golib \<Rightarrow> string \<Rightarrow> string" where
  "redact_line L line =
     (if containsSensitiveWord L line
      then if HasSuffix line [newline] then RedactedValue @ [newline] else RedactedValue
      else line)"

definition RedactText :: "golib \<Rightarrow> string \<Rightarrow> string" where
  "RedactText L s = (if s = [] then [] else concat (map (redact_line L) (SplitAfter s)))"

section \<open>Redacted values\<close>

text \<open>Every sensitive key, at any depth, holds the marker.\<close>

fun redacted :: "golib \<Rightarrow> any \<Rightarrow> bool"
and redacted_entries :: "golib \<Rightarrow> (string \<times> any) list \<Rightarrow> bool"
and redacted_items :: "golib \<Rightarrow> any list \<Rightarrow> bool"
where
  "redacted L (AMap v) = redacted_entries L v"
| "redacted L (ASlice v) = redacted_items L v"
| "redacted L value = True"
| "redacted_entries L [] = True"
| "redacted_entries L ((key, item) # v) =
     ((if isSensitiveKey L key then item = AString RedactedValue else redacted L item) \<and> redacted_entries L v)"
| "redacted_items L [] = True"
| "redacted_items L (item # v) = (redacted L item \<and> redacted_items L v)"

text \<open>
  Two values that differ at most under sensitive keys.
\<close>

fun public_eq :: "golib \<Rightarrow> any \<Rightarrow> any \<Rightarrow> bool"
and public_eq_entries :: "golib \<Rightarrow> (string \<times> any) list \<Rightarrow> (string \<times> any) list \<Rightarrow> bool"
and public_eq_items :: "golib \<Rightarrow> any list \<Rightarrow> any list \<Rightarrow> bool"
where
  "public_eq L (AMap v) (AMap u) = public_eq_entries L v u"
| "public_eq L (ASlice v) (ASlice u) = public_eq_items L v u"
| "public_eq L value other = (value = other)"
| "public_eq_entries L [] u = (u = [])"
| "public_eq_entries L ((k, a) # v) u =
     (case u of [] \<Rightarrow> False
      | (k', b) # u' \<Rightarrow> k = k' \<and> (isSensitiveKey L k \<or> public_eq L a b) \<and> public_eq_entries L v u')"
| "public_eq_items L [] u = (u = [])"
| "public_eq_items L (a # v) u =
     (case u of [] \<Rightarrow> False | b # u' \<Rightarrow> public_eq L a b \<and> public_eq_items L v u')"

lemma redacted_Redact:
  "redacted L (Redact L a)"
  "redacted_entries L (Redact_entries L kvs)"
  "redacted_items L (Redact_items L as)"
  by (induction L a and L kvs and L as rule: Redact_Redact_entries_Redact_items.induct) auto

lemma Redact_redacted:
  "redacted L a \<Longrightarrow> Redact L a = a"
  "redacted_entries L kvs \<Longrightarrow> Redact_entries L kvs = kvs"
  "redacted_items L as \<Longrightarrow> Redact_items L as = as"
  by (induction L a and L kvs and L as rule: Redact_Redact_entries_Redact_items.induct) (auto split: if_splits)

lemma Redact_idem [simp]: "Redact L (Redact L a) = Redact L a"
  by (rule Redact_redacted(1) [OF redacted_Redact(1)])

lemma keys_Redact_entries [simp]: "map fst (Redact_entries L kvs) = map fst kvs"
  by (induction kvs) auto

lemma Redact_entries_append: "Redact_entries L (a @ b) = Redact_entries L a @ Redact_entries L b"
  by (induction a) auto

lemma map_of_Redact_entries:
  "map_of (Redact_entries L kvs) k =
     map_option (\<lambda>a. if isSensitiveKey L k then AString RedactedValue else Redact L a) (map_of kvs k)"
  by (induction kvs) auto

lemma Redact_eq_leaf:
  "Redact L b = ANil \<longleftrightarrow> b = ANil" "Redact L b = ABool t \<longleftrightarrow> b = ABool t"
  "Redact L b = AFloat s \<longleftrightarrow> b = AFloat s" "Redact L b = ANumber s \<longleftrightarrow> b = ANumber s"
  "Redact L b = AInt i \<longleftrightarrow> b = AInt i" "Redact L b = AString s \<longleftrightarrow> b = AString s"
  by (cases b; simp)+

lemmas Redact_eq_leaf_sym = Redact_eq_leaf [THEN eq_iff_swap]

text \<open>Redaction forgets exactly what stood under sensitive keys.\<close>

lemma public_eq_iff_Redact:
  "public_eq L a b \<longleftrightarrow> Redact L a = Redact L b"
  "public_eq_entries L kvs kvs' \<longleftrightarrow> Redact_entries L kvs = Redact_entries L kvs'"
  "public_eq_items L as as' \<longleftrightarrow> Redact_items L as = Redact_items L as'"
proof (induction L a b and L kvs kvs' and L as as'
    rule: public_eq_public_eq_entries_public_eq_items.induct)
  case (4 L u)
  then show ?case by (cases u) auto
next
  case (5 L k a v u)
  then show ?case by (cases u) (auto split: if_splits)
next
  case (6 L u)
  then show ?case by (cases u) auto
next
  case (7 L a v u)
  then show ?case by (cases u) auto
qed (auto simp: Redact_eq_leaf Redact_eq_leaf_sym)

section \<open>Redacted text\<close>

lemma RedactedValue_plain:
  "newline \<notin> set RedactedValue" "RedactedValue \<noteq> []"
  by (simp_all add: RedactedValue_def)

lemma ToLower_marker:
  "ToLower u RedactedValue = ''***redacted***''"
  "ToLower u (RedactedValue @ [newline]) = ''***redacted***'' @ [newline]"
proof -
  have ascii: "list_all is_ascii RedactedValue" "list_all is_ascii (RedactedValue @ [newline])"
    by code_simp+
  have low: "map lower_byte RedactedValue = ''***redacted***''"
    "map lower_byte (RedactedValue @ [newline]) = ''***redacted***'' @ [newline]"
    by code_simp+
  show "ToLower u RedactedValue = ''***redacted***''"
    "ToLower u (RedactedValue @ [newline]) = ''***redacted***'' @ [newline]"
    using ascii low by (simp_all only: ToLower_def map_case_ascii)
qed

lemma marker_not_sensitive:
  "\<not> containsSensitiveWord L RedactedValue"
  "\<not> containsSensitiveWord L (RedactedValue @ [newline])"
  unfolding containsSensitiveWord_def Let_def ToLower_marker by code_simp+

lemma redact_line_not_sensitive: "\<not> containsSensitiveWord L (redact_line L l)"
  by (simp add: redact_line_def marker_not_sensitive)

lemma lines_ok_redact: "lines_ok ls \<Longrightarrow> lines_ok (map (redact_line L) ls)"
  by (induction ls rule: lines_ok.induct)
     (auto simp: redact_line_def RedactedValue_plain suffix_def)

lemma SplitAfter_RedactText: "s \<noteq> [] \<Longrightarrow> SplitAfter (RedactText L s) = map (redact_line L) (SplitAfter s)"
  by (simp add: RedactText_def SplitAfter_concat lines_ok_redact)

lemma RedactText_lines_clean:
  "l \<in> set (SplitAfter (RedactText L s)) \<Longrightarrow> s \<noteq> [] \<Longrightarrow> \<not> containsSensitiveWord L l"
  by (auto simp: SplitAfter_RedactText redact_line_not_sensitive)

lemma RedactText_idem: "RedactText L (RedactText L s) = RedactText L s"
proof (cases "s = [] \<or> RedactText L s = []")
  case True
  then show ?thesis by (auto simp: RedactText_def)
next
  case False
  have "redact_line L (redact_line L l) = redact_line L l" for l
    using redact_line_not_sensitive [of L l] by (simp add: redact_line_def [of L "redact_line L l"])
  then have "map (redact_line L) (SplitAfter (RedactText L s)) = SplitAfter (RedactText L s)"
    using False by (simp add: SplitAfter_RedactText)
  then show ?thesis
    using False by (simp add: RedactText_def [of L "RedactText L s"])
qed

text \<open>A word of the list, in any letter case and with any bytes around it, is found.\<close>

lemma containsSensitiveWord_any_case:
  assumes "Contains l v" and "list_all is_ascii v" and "map lower_byte v \<in> set sensitiveWords"
  shows "containsSensitiveWord L l"
  using ToLower_Contains [OF assms(1,2), of "lib_lower L"] assms(3)
  by (auto simp: containsSensitiveWord_def Let_def list_ex_iff)

end
