(* ===== verification/Audit_Log.thy ===== *)
theory Audit_Log
  imports Redact
begin

text \<open>
  internal/audit/audit.go: the audit log. The log file is the list of lines \<^const>\<open>w_audit\<close>;
  the system calls that reach it can fail one by one, and a failing write tears a line.
  Every line that gets written carries redacted arguments.
\<close>

section \<open>Events\<close>

definition EventCommandReceived :: string where "EventCommandReceived = ''command_received''"
definition EventCommandRejected :: string where "EventCommandRejected = ''command_rejected''"
definition EventCommandStarted :: string where "EventCommandStarted = ''command_started''"
definition EventCommandFinished :: string where "EventCommandFinished = ''command_finished''"
definition EventOutboxRecordSaved :: string where "EventOutboxRecordSaved = ''outbox_record_saved''"
definition EventOutboxRecordSendStarted :: string where
  "EventOutboxRecordSendStarted = ''outbox_record_send_started''"
definition EventOutboxRecordSendSucceeded :: string where
  "EventOutboxRecordSendSucceeded = ''outbox_record_send_succeeded''"
definition EventOutboxRecordSendFailed :: string where
  "EventOutboxRecordSendFailed = ''outbox_record_send_failed''"
definition EventOutboxRecordDeleted :: string where "EventOutboxRecordDeleted = ''outbox_record_deleted''"
definition EventOutboxRecordDropped :: string where "EventOutboxRecordDropped = ''outbox_record_dropped''"
definition EventOutboxRecordCorrupted :: string where
  "EventOutboxRecordCorrupted = ''outbox_record_corrupted''"

lemmas event_defs = EventCommandReceived_def EventCommandRejected_def EventCommandStarted_def
  EventCommandFinished_def EventOutboxRecordSaved_def EventOutboxRecordSendStarted_def
  EventOutboxRecordSendSucceeded_def EventOutboxRecordSendFailed_def EventOutboxRecordDeleted_def
  EventOutboxRecordDropped_def EventOutboxRecordCorrupted_def

definition zero_Event :: Event where
  "zero_Event = \<lparr>ev_Time = 0, ev_Event = [], ev_RecordID = [], ev_CommandID = [], ev_Action = [],
     ev_Args = None, ev_State = [], ev_ExitCode = 0, ev_DurationMS = 0, ev_ErrorCode = [],
     ev_Attempts = 0, ev_Transport = []\<rparr>"

text \<open>The document of an event: fields with their zero value are left out, as omitempty asks.\<close>

definition omit_string :: "golib \<Rightarrow> string \<Rightarrow> string \<Rightarrow> (string \<times> json) list" where
  "omit_string L k s = (if s = [] then [] else [(k, JStr (json_text L s))])"

definition omit_int :: "string \<Rightarrow> int \<Rightarrow> (string \<times> json) list" where
  "omit_int k i = (if i = 0 then [] else [(k, json_int i)])"

definition marshal_Event :: "golib \<Rightarrow> Event \<Rightarrow> json option" where
  "marshal_Event L e =
     (if json_time_ok (ev_Time e)
      then Some (JObj
        ([(''time'', JStr (lib_time_text L (ev_Time e))), (''event'', JStr (json_text L (ev_Event e)))] @
         omit_string L ''record_id'' (ev_RecordID e) @
         omit_string L ''command_id'' (ev_CommandID e) @
         omit_string L ''action'' (ev_Action e) @
         (case ev_Args e of None \<Rightarrow> [] | Some [] \<Rightarrow> [] | Some m \<Rightarrow> [(''args'', of_any L (AMap m))]) @
         omit_string L ''state'' (ev_State e) @
         omit_int ''exit_code'' (ev_ExitCode e) @
         omit_int ''duration_ms'' (ev_DurationMS e) @
         omit_string L ''error_code'' (ev_ErrorCode e) @
         omit_int ''attempts'' (ev_Attempts e) @
         omit_string L ''transport'' (ev_Transport e)))
      else None)"

section \<open>The writer\<close>

record Writer =
  aw_path :: string

definition NewWriter :: "string \<Rightarrow> Writer" where
  "NewWriter path = \<lparr>aw_path = path\<rparr>"

datatype audit_error = MarshalEvent | CreateDir | OpenFile | WriteEvent

text \<open>The event as it reaches the file: its time set, its arguments redacted.\<close>

definition stamp_event :: "Event \<Rightarrow> world \<Rightarrow> Event \<times> world" where
  "stamp_event e w =
     (if time_IsZero (ev_Time e) then (let (t, w) = time_Now w in (e\<lparr>ev_Time := t\<rparr>, w)) else (e, w))"

definition redact_event :: "golib \<Rightarrow> Event \<Rightarrow> Event" where
  "redact_event L e =
     (case ev_Args e of
        None \<Rightarrow> e
      | Some m \<Rightarrow> (case Redact L (AMap m) of AMap m' \<Rightarrow> e\<lparr>ev_Args := Some m'\<rparr> | _ \<Rightarrow> e))"

definition append_line :: "Event \<Rightarrow> world \<Rightarrow> audit_error option \<times> world" where
  "append_line e w =
     (let (mk, w) = sys_call w
      in if mk \<noteq> None then (Some CreateDir, w)
         else let (op, w) = sys_call w
              in if op \<noteq> None then (Some OpenFile, w)
                 else let (wr, w) = sys_call w
                      in (case wr of
                            Some n \<Rightarrow> (Some WriteEvent, w\<lparr>w_audit := w_audit w @ [Torn e n]\<rparr>)
                          | None \<Rightarrow> (None, w\<lparr>w_audit := w_audit w @ [Line e]\<rparr>)))"

definition audit_Write :: "golib \<Rightarrow> Writer option \<Rightarrow> Event \<Rightarrow> world \<Rightarrow> audit_error option \<times> world" where
  "audit_Write L wr e w =
     (case wr of
        None \<Rightarrow> (None, w)
      | Some a \<Rightarrow>
          if aw_path a = [] then (None, w)
          else let (e, w) = stamp_event e w; e = redact_event L e
               in if marshal_Event L e = None then (Some MarshalEvent, w) else append_line e w)"

text \<open>
  The callers' writeAudit: the error is dropped. It is the same in internal/commands,
  internal/outbox and internal/transport.
\<close>

definition writeAudit :: "golib \<Rightarrow> Writer option \<Rightarrow> Event \<Rightarrow> world \<Rightarrow> world" where
  "writeAudit L wr e w = (case wr of None \<Rightarrow> w | Some _ \<Rightarrow> snd (audit_Write L wr e w))"

section \<open>Properties\<close>

fun line_event :: "audit_line \<Rightarrow> Event" where
  "line_event (Line e) = e"
| "line_event (Torn e n) = e"

definition clean_event :: "golib \<Rightarrow> Event \<Rightarrow> bool" where
  "clean_event L e = (case ev_Args e of None \<Rightarrow> True | Some m \<Rightarrow> redacted_entries L m)"

definition clean_log :: "golib \<Rightarrow> world \<Rightarrow> bool" where
  "clean_log L w = list_all (\<lambda>l. clean_event L (line_event l)) (w_audit w)"

lemma clean_redact_event: "clean_event L (redact_event L e)"
  by (cases "ev_Args e") (auto simp: clean_event_def redact_event_def redacted_Redact)

lemma append_line_frame [frame_simps]:
  "w_fs (snd (append_line e w)) = w_fs w" "w_execs (snd (append_line e w)) = w_execs w"
  "w_exec (snd (append_line e w)) = w_exec w" "w_fault (snd (append_line e w)) = w_fault w"
  "w_clock (snd (append_line e w)) = w_clock w"
  by (auto simp: append_line_def sys_call_def Let_def split: option.splits)

lemma append_line_audit:
  "w_audit (snd (append_line e w)) = w_audit w \<or>
   (\<exists>l. line_event l = e \<and> w_audit (snd (append_line e w)) = w_audit w @ [l])"
  by (auto simp: append_line_def sys_call_def Let_def split: option.splits)

lemma stamp_event_frame [frame_simps]:
  "w_fs (snd (stamp_event e w)) = w_fs w" "w_execs (snd (stamp_event e w)) = w_execs w"
  "w_audit (snd (stamp_event e w)) = w_audit w" "w_exec (snd (stamp_event e w)) = w_exec w"
  "w_fault (snd (stamp_event e w)) = w_fault w" "w_clock (snd (stamp_event e w)) = w_clock w"
  "ev_Args (fst (stamp_event e w)) = ev_Args e"
  by (simp_all add: stamp_event_def time_Now_def)

lemma writeAudit_frame [frame_simps]:
  "w_fs (writeAudit L wr e w) = w_fs w" "w_execs (writeAudit L wr e w) = w_execs w"
  "w_exec (writeAudit L wr e w) = w_exec w" "w_fault (writeAudit L wr e w) = w_fault w"
  "w_clock (writeAudit L wr e w) = w_clock w"
  by (auto simp: writeAudit_def audit_Write_def Let_def frame_simps split: option.splits prod.splits)
     (metis snd_conv append_line_frame stamp_event_frame)+

lemma writeAudit_audit:
  "\<exists>ls. w_audit (writeAudit L wr e w) = w_audit w @ ls \<and> list_all (\<lambda>l. clean_event L (line_event l)) ls"
proof (cases "wr = None \<or> aw_path (the wr) = []")
  case True
  then show ?thesis by (auto simp: writeAudit_def audit_Write_def split: option.splits)
next
  case False
  define e1 where "e1 = redact_event L (fst (stamp_event e w))"
  define w1 where "w1 = snd (stamp_event e w)"
  have eq: "writeAudit L wr e w = (if marshal_Event L e1 = None then w1 else snd (append_line e1 w1))"
    using False by (auto simp: writeAudit_def audit_Write_def e1_def w1_def Let_def split_beta)
  have "w_audit w1 = w_audit w" by (simp add: w1_def frame_simps)
  then show ?thesis
    using append_line_audit [of e1 w1] clean_redact_event [of L "fst (stamp_event e w)"]
    by (auto simp: eq e1_def)
qed

text \<open>
  What the components that write audit events rely on: an event reaches the log only, and what
  reaches the log is redacted.
\<close>

locale audit_sink =
  fixes L :: golib and sink :: "Event \<Rightarrow> world \<Rightarrow> world"
  assumes sink_fs: "w_fs (sink e w) = w_fs w"
    and sink_execs: "w_execs (sink e w) = w_execs w"
    and sink_exec: "w_exec (sink e w) = w_exec w"
    and sink_fault: "w_fault (sink e w) = w_fault w"
    and sink_log: "\<exists>ls. w_audit (sink e w) = w_audit w @ ls \<and> list_all (\<lambda>l. clean_event L (line_event l)) ls"
begin

lemma sink_clean: "clean_log L w \<Longrightarrow> clean_log L (sink e w)"
  using sink_log [of e w] by (auto simp: clean_log_def)

lemma sink_appends: "prefix (w_audit w) (w_audit (sink e w))"
  using sink_log [of e w] by auto

lemma sinks_clean: "clean_log L w \<Longrightarrow> clean_log L (fold sink es w)"
  by (induction es arbitrary: w) (auto simp: sink_clean)

lemma sinks_fs: "w_fs (fold sink es w) = w_fs w"
  by (induction es arbitrary: w) (auto simp: sink_fs)

end

interpretation log: audit_sink L "writeAudit L wr" for L wr
  by unfold_locales (simp_all add: frame_simps writeAudit_audit)

lemma stamp_event_reads: "w_reads w \<le> w_reads (snd (stamp_event e w))"
  by (simp add: stamp_event_def time_Now_def)

lemma append_line_reads: "w_reads (snd (append_line e w)) = w_reads w"
  by (auto simp: append_line_def sys_call_def Let_def split_beta sys_unit_def split: option.splits)

lemma writeAudit_reads: "w_reads w \<le> w_reads (writeAudit L wr e w)"
  by (auto simp: writeAudit_def audit_Write_def Let_def split_beta append_line_reads stamp_event_reads
      split: option.splits)

text \<open>What stands under sensitive keys never reaches the log, not even through its length or time.\<close>

lemma redact_event_public:
  assumes "public_eq L (AMap m) (AMap m')"
  shows "redact_event L (e\<lparr>ev_Args := Some m\<rparr>) = redact_event L (e\<lparr>ev_Args := Some m'\<rparr>)"
  using assms by (simp add: public_eq_iff_Redact redact_event_def)

lemma stamp_event_args:
  "fst (stamp_event (e\<lparr>ev_Args := a\<rparr>) w) = (fst (stamp_event e w))\<lparr>ev_Args := a\<rparr>"
  "snd (stamp_event (e\<lparr>ev_Args := a\<rparr>) w) = snd (stamp_event e w)"
  by (simp_all add: stamp_event_def time_Now_def)

lemma writeAudit_public:
  assumes "public_eq L (AMap m) (AMap m')"
  shows "writeAudit L wr (e\<lparr>ev_Args := Some m\<rparr>) w = writeAudit L wr (e\<lparr>ev_Args := Some m'\<rparr>) w"
  by (simp add: writeAudit_def audit_Write_def split_beta Let_def stamp_event_args
      redact_event_public [OF assms] split: option.splits)

end
