(* ===== verification/Actions.thy ===== *)
theory Actions
  imports Audit_Log
begin

text \<open>
  internal/actions: the hard-coded actions, the registry built from them, and the validation of a
  command's arguments. The lemmas give the registry's contents, what a validated argument satisfies,
  and the exact argument vectors the six actions can produce.
\<close>

section \<open>Specifications\<close>

type_synonym ArgType = string
type_synonym ValidatedArgs = "(string \<times> string) list"

definition ArgTypeString :: ArgType where
  "ArgTypeString = ''string''"

record ArgSpec =
  arg_Name :: string
  arg_Type :: ArgType
  arg_Required :: bool
  arg_MinLen :: int
  arg_MaxLen :: int
  arg_Pattern :: string
  arg_Sensitive :: bool

text \<open>A nil map of sensitive names and a nil argv builder are \<^const>\<open>None\<close>.\<close>

record Spec =
  spec_Name :: string
  spec_Args :: "ArgSpec list"
  spec_Timeout :: duration
  spec_LongRunning :: bool
  spec_SensitiveArgs :: "string list option"
  spec_BuildArgv :: "(ValidatedArgs \<Rightarrow> string list) option"

text \<open>Indexing a map of strings yields the empty string for a missing key.\<close>

definition arg_value :: "ValidatedArgs \<Rightarrow> string \<Rightarrow> string" where
  "arg_value args k = (case map_of args k of None \<Rightarrow> [] | Some v \<Rightarrow> v)"

definition countryPattern :: string where
  "countryPattern = ''^[A-Z]{2}$''"

definition DefaultSpecs :: "Spec list" where
  "DefaultSpecs =
   [\<lparr>spec_Name = ''status.snapshot'', spec_Args = [], spec_Timeout = 10 * Second, spec_LongRunning = False,
     spec_SensitiveArgs = None, spec_BuildArgv = Some (\<lambda>_. [''status'', ''--json''])\<rparr>,
    \<lparr>spec_Name = ''gateway.status'', spec_Args = [], spec_Timeout = 10 * Second, spec_LongRunning = False,
     spec_SensitiveArgs = None, spec_BuildArgv = Some (\<lambda>_. [''gateway'', ''status'', ''--json''])\<rparr>,
    \<lparr>spec_Name = ''gateway.start'',
     spec_Args = [\<lparr>arg_Name = ''country'', arg_Type = ArgTypeString, arg_Required = True, arg_MinLen = 2,
                   arg_MaxLen = 2, arg_Pattern = countryPattern, arg_Sensitive = False\<rparr>],
     spec_Timeout = 60 * Second, spec_LongRunning = True, spec_SensitiveArgs = None,
     spec_BuildArgv = Some (\<lambda>args. [''gateway'', ''start'', ''--country'', arg_value args ''country''])\<rparr>,
    \<lparr>spec_Name = ''gateway.stop'', spec_Args = [], spec_Timeout = 60 * Second, spec_LongRunning = True,
     spec_SensitiveArgs = None, spec_BuildArgv = Some (\<lambda>_. [''gateway'', ''stop''])\<rparr>,
    \<lparr>spec_Name = ''wlan.scan'', spec_Args = [], spec_Timeout = 30 * Second, spec_LongRunning = False,
     spec_SensitiveArgs = None, spec_BuildArgv = Some (\<lambda>_. [''wlan'', ''scan'', ''--json''])\<rparr>,
    \<lparr>spec_Name = ''wlan.switch.safe'',
     spec_Args = [\<lparr>arg_Name = ''ssid'', arg_Type = ArgTypeString, arg_Required = True, arg_MinLen = 1,
                   arg_MaxLen = 32, arg_Pattern = [], arg_Sensitive = False\<rparr>,
                  \<lparr>arg_Name = ''psk'', arg_Type = ArgTypeString, arg_Required = True, arg_MinLen = 8,
                   arg_MaxLen = 64, arg_Pattern = [], arg_Sensitive = True\<rparr>],
     spec_Timeout = 180 * Second, spec_LongRunning = True, spec_SensitiveArgs = Some [''psk''],
     spec_BuildArgv = Some (\<lambda>args. [''wlan'', ''switch-safe'', ''--ssid'', arg_value args ''ssid'',
                                     ''--psk'', arg_value args ''psk'', ''--json''])\<rparr>]"

datatype spec_error =
    EmptyName
  | NoArgvBuilder string
  | DuplicateAction string
  | InvalidArgSpec string
  | ErrInvalidSpec

definition Spec_Argv :: "Spec \<Rightarrow> ValidatedArgs \<Rightarrow> spec_error + string list" where
  "Spec_Argv s args = (case spec_BuildArgv s of None \<Rightarrow> Inl ErrInvalidSpec | Some build \<Rightarrow> Inr (build args))"

definition sensitive_names :: "Spec \<Rightarrow> string list" where
  "sensitive_names s = (case spec_SensitiveArgs s of None \<Rightarrow> [] | Some ks \<Rightarrow> ks)"

text \<open>The copy loop over the arguments, then the loop over the specification's arguments.\<close>

fun redact_flagged :: "ArgSpec list \<Rightarrow> (string \<times> any) list \<Rightarrow> (string \<times> any) list" where
  "redact_flagged [] out = out"
| "redact_flagged (arg # as) out =
     redact_flagged as
       (if arg_Sensitive arg \<and> map_of out (arg_Name arg) \<noteq> None
        then map_put (arg_Name arg) (AString ''***REDACTED***'') out else out)"

definition RedactedArgs :: "Spec \<Rightarrow> ValidatedArgs \<Rightarrow> (string \<times> any) list" where
  "RedactedArgs s args =
     redact_flagged (spec_Args s)
       (map (\<lambda>(k, v). (k, if k \<in> set (sensitive_names s) then AString ''***REDACTED***'' else AString v)) args)"

section \<open>Validation\<close>

datatype arg_error =
    UnknownArgument string string
  | MissingArgument string string
  | NotAString string string
  | UnsupportedType string string
  | LengthOutOfRange string string int int
  | UnsafeCharacters string string
  | InvalidPattern string string
  | FormatMismatch string string

text \<open>The text of each error, which a rejected command's result carries.\<close>

fun arg_error_text :: "golib \<Rightarrow> arg_error \<Rightarrow> string" where
  "arg_error_text L (UnknownArgument n a) =
     ''unknown argument '' @ lib_quote L n @ '' for action '' @ lib_quote L a"
| "arg_error_text L (MissingArgument n a) =
     ''missing required argument '' @ lib_quote L n @ '' for action '' @ lib_quote L a"
| "arg_error_text L (NotAString n a) =
     ''argument '' @ lib_quote L n @ '' for action '' @ lib_quote L a @ '' must be string''"
| "arg_error_text L (UnsupportedType t a) =
     ''unsupported argument type '' @ lib_quote L t @ '' in action '' @ lib_quote L a"
| "arg_error_text L (LengthOutOfRange n a lo hi) =
     ''argument '' @ lib_quote L n @ '' for action '' @ lib_quote L a @ '' length must be between '' @
     show_int lo @ '' and '' @ show_int hi"
| "arg_error_text L (UnsafeCharacters n a) =
     ''argument '' @ lib_quote L n @ '' for action '' @ lib_quote L a @ '' contains unsafe characters''"
| "arg_error_text L (InvalidPattern n a) =
     ''invalid pattern for argument '' @ lib_quote L n @ '' in action '' @ lib_quote L a"
| "arg_error_text L (FormatMismatch n a) =
     ''argument '' @ lib_quote L n @ '' for action '' @ lib_quote L a @ '' does not match required format''"

definition dangerousTokens :: "string list" where
  "dangerousTokens = [''..'', ''$('', '';'', ''&&'', ''||'']"

definition containsDangerousToken :: "string \<Rightarrow> bool" where
  "containsDangerousToken value =
     (if ContainsAny value [CHR 0x00, CHR 0x0D, CHR 0x0A, CHR 0x60] then True
      else list_ex (\<lambda>token. Contains value token) dangerousTokens)"

text \<open>
  regexp.MatchString: the one pattern of the default actions is matched here, any other by the
  library. Go's dollar sign matches at the end of the text only.
\<close>

definition is_upper :: "char \<Rightarrow> bool" where
  "is_upper c \<longleftrightarrow> CHR ''A'' \<le> c \<and> c \<le> CHR ''Z''"

definition MatchString :: "golib \<Rightarrow> string \<Rightarrow> string \<Rightarrow> bool option" where
  "MatchString L pattern value =
     (if pattern = countryPattern then Some (length value = 2 \<and> list_all is_upper value)
      else lib_regexp L pattern value)"

definition validateStringArg :: "golib \<Rightarrow> string \<Rightarrow> ArgSpec \<Rightarrow> string \<Rightarrow> arg_error option" where
  "validateStringArg L action spec value =
     (if int (length value) < arg_MinLen spec \<or> int (length value) > arg_MaxLen spec
      then Some (LengthOutOfRange (arg_Name spec) action (arg_MinLen spec) (arg_MaxLen spec))
      else if containsDangerousToken value then Some (UnsafeCharacters (arg_Name spec) action)
      else if arg_Pattern spec \<noteq> [] then
        (case MatchString L (arg_Pattern spec) value of
           None \<Rightarrow> Some (InvalidPattern (arg_Name spec) action)
         | Some ok \<Rightarrow> if \<not> ok then Some (FormatMismatch (arg_Name spec) action) else None)
      else None)"

text \<open>The loop over the specification's arguments.\<close>

fun validate_loop ::
  "golib \<Rightarrow> string \<Rightarrow> (string \<times> any) list \<Rightarrow> ArgSpec list \<Rightarrow> ValidatedArgs \<Rightarrow> arg_error + ValidatedArgs" where
  "validate_loop L action raw [] validated = Inr validated"
| "validate_loop L action raw (arg # as) validated =
     (case map_of raw (arg_Name arg) of
        None \<Rightarrow>
          if arg_Required arg then Inl (MissingArgument (arg_Name arg) action)
          else validate_loop L action raw as validated
      | Some value \<Rightarrow>
          if arg_Type arg = ArgTypeString then
            (case value of
               AString s \<Rightarrow>
                 (case validateStringArg L action arg s of
                    Some e \<Rightarrow> Inl e
                  | None \<Rightarrow> validate_loop L action raw as (map_put (arg_Name arg) s validated))
             | _ \<Rightarrow> Inl (NotAString (arg_Name arg) action))
          else Inl (UnsupportedType (arg_Type arg) action))"

definition ValidateArgs :: "golib \<Rightarrow> Spec \<Rightarrow> (string \<times> any) list option \<Rightarrow> arg_error + ValidatedArgs" where
  "ValidateArgs L spec raw0 =
     (let raw = (case raw0 of None \<Rightarrow> [] | Some m \<Rightarrow> m);
          argSpecs = map arg_Name (spec_Args spec)
      in (case find (\<lambda>(name, _). name \<notin> set argSpecs) raw of
            Some (name, _) \<Rightarrow> Inl (UnknownArgument name (spec_Name spec))
          | None \<Rightarrow> validate_loop L (spec_Name spec) raw (spec_Args spec) []))"

section \<open>The registry\<close>

type_synonym Registry = "(string \<times> Spec) list"

text \<open>The inner loop of NewRegistry: every flagged argument joins the sensitive names.\<close>

fun collect_sensitive :: "string \<Rightarrow> ArgSpec list \<Rightarrow> string list \<Rightarrow> spec_error + string list" where
  "collect_sensitive name [] ks = Inr ks"
| "collect_sensitive name (arg # as) ks =
     (if arg_Name arg = [] \<or> arg_Type arg = [] then Inl (InvalidArgSpec name)
      else collect_sensitive name as (if arg_Sensitive arg then List.insert (arg_Name arg) ks else ks))"

fun register_all :: "Spec list \<Rightarrow> Registry \<Rightarrow> spec_error + Registry" where
  "register_all [] r = Inr r"
| "register_all (spec # specs) r =
     (if spec_Name spec = [] then Inl EmptyName
      else if spec_BuildArgv spec = None then Inl (NoArgvBuilder (spec_Name spec))
      else if map_of r (spec_Name spec) \<noteq> None then Inl (DuplicateAction (spec_Name spec))
      else (case collect_sensitive (spec_Name spec) (spec_Args spec) (sensitive_names spec) of
              Inl e \<Rightarrow> Inl e
            | Inr ks \<Rightarrow>
                register_all specs (map_put (spec_Name spec) (spec\<lparr>spec_SensitiveArgs := Some ks\<rparr>) r)))"

definition NewRegistry :: "Spec list \<Rightarrow> spec_error + Registry" where
  "NewRegistry specs = register_all specs []"

definition NewDefaultRegistry :: "spec_error + Registry" where
  "NewDefaultRegistry = NewRegistry DefaultSpecs"

text \<open>A nil registry is \<^const>\<open>None\<close>.\<close>

definition Registry_Get :: "Registry option \<Rightarrow> string \<Rightarrow> Spec option" where
  "Registry_Get r name = (case r of None \<Rightarrow> None | Some specs \<Rightarrow> map_of specs name)"

datatype registry_error = UnknownAction string | BadArgs arg_error | AllowedEmpty | UnknownAllowed string

definition Registry_Validate ::
  "golib \<Rightarrow> Registry option \<Rightarrow> string \<Rightarrow> (string \<times> any) list option \<Rightarrow> registry_error + (Spec \<times> ValidatedArgs)" where
  "Registry_Validate L r name args =
     (case Registry_Get r name of
        None \<Rightarrow> Inl (UnknownAction name)
      | Some spec \<Rightarrow>
          (case ValidateArgs L spec args of Inl e \<Rightarrow> Inl (BadArgs e) | Inr validated \<Rightarrow> Inr (spec, validated)))"

definition ValidateAllowedActions :: "Registry option \<Rightarrow> string list \<Rightarrow> registry_error option" where
  "ValidateAllowedActions r allowed =
     (if allowed = [] then Some AllowedEmpty
      else map_option UnknownAllowed (find (\<lambda>action. Registry_Get r action = None) allowed))"

definition Registry_Names :: "Registry \<Rightarrow> string list" where
  "Registry_Names r = map fst r"

section \<open>The registry's contract\<close>

definition spec_ok :: "Spec \<Rightarrow> bool" where
  "spec_ok s \<longleftrightarrow> spec_Name s \<noteq> [] \<and> spec_BuildArgv s \<noteq> None \<and>
     list_all (\<lambda>arg. arg_Name arg \<noteq> [] \<and> arg_Type arg \<noteq> [] \<and>
       (arg_Sensitive arg \<longrightarrow> arg_Name arg \<in> set (sensitive_names s))) (spec_Args s)"

definition registry_ok :: "Registry \<Rightarrow> bool" where
  "registry_ok r \<longleftrightarrow> wf_map r \<and> list_all (\<lambda>(n, s). spec_Name s = n \<and> spec_ok s) r"

lemma collect_sensitive_Inr:
  assumes "collect_sensitive name as ks = Inr ks'"
  shows "set ks \<subseteq> set ks' \<and>
    list_all (\<lambda>arg. arg_Name arg \<noteq> [] \<and> arg_Type arg \<noteq> [] \<and> (arg_Sensitive arg \<longrightarrow> arg_Name arg \<in> set ks')) as"
  using assms by (induction as arbitrary: ks) (fastforce split: if_splits)+

lemma set_map_put_subset: "set (map_put k v m) \<subseteq> insert (k, v) (set m)"
  by (induction m) auto

lemma registry_ok_put:
  assumes "registry_ok r" and "spec_ok s" and "spec_Name s = n"
  shows "registry_ok (map_put n s r)"
proof -
  have "list_all (\<lambda>(n, s). spec_Name s = n \<and> spec_ok s) (map_put n s r)"
    using assms set_map_put_subset [of n s r] by (fastforce simp: registry_ok_def list_all_iff)
  then show ?thesis using assms(1) by (simp add: registry_ok_def)
qed

lemma register_all_ok: "register_all specs r = Inr r' \<Longrightarrow> registry_ok r \<Longrightarrow> registry_ok r'"
proof (induction specs r rule: register_all.induct)
  case (1 r)
  then show ?case by simp
next
  case (2 spec specs r)
  from "2.prems"(1) obtain ks where
    ks: "collect_sensitive (spec_Name spec) (spec_Args spec) (sensitive_names spec) = Inr ks"
    and rec: "register_all specs (map_put (spec_Name spec) (spec\<lparr>spec_SensitiveArgs := Some ks\<rparr>) r) = Inr r'"
    and ok: "spec_Name spec \<noteq> []" "spec_BuildArgv spec \<noteq> None" "map_of r (spec_Name spec) = None"
    by (auto split: if_splits sum.splits)
  have "spec_ok (spec\<lparr>spec_SensitiveArgs := Some ks\<rparr>)"
    using ok collect_sensitive_Inr [OF ks] by (simp add: spec_ok_def sensitive_names_def)
  then have "registry_ok (map_put (spec_Name spec) (spec\<lparr>spec_SensitiveArgs := Some ks\<rparr>) r)"
    using "2.prems"(2) by (intro registry_ok_put) simp_all
  then show ?case
    using "2.IH" [OF _ _ _ ks rec] ok by auto
qed

lemma NewRegistry_ok: "NewRegistry specs = Inr r \<Longrightarrow> registry_ok r"
  using register_all_ok [of specs "[]" r] by (simp add: NewRegistry_def registry_ok_def)

text \<open>
  What the command handler relies on: a spec is found under its own name, has an argv builder, and
  lists every flagged argument among its sensitive names.
\<close>

locale action_registry =
  fixes get :: "string \<Rightarrow> Spec option"
  assumes get_name: "get n = Some s \<Longrightarrow> spec_Name s = n"
    and get_ok: "get n = Some s \<Longrightarrow> spec_ok s"
begin

lemma get_argv: "get n = Some s \<Longrightarrow> \<exists>argv. Spec_Argv s args = Inr argv"
  using get_ok [of n s] by (auto simp: spec_ok_def Spec_Argv_def)

lemma get_sensitive:
  "get n = Some s \<Longrightarrow> arg \<in> set (spec_Args s) \<Longrightarrow> arg_Sensitive arg \<Longrightarrow> arg_Name arg \<in> set (sensitive_names s)"
  using get_ok [of n s] by (auto simp: spec_ok_def list_all_iff)

end

lemma registry_ok_interface: "registry_ok r \<Longrightarrow> action_registry (Registry_Get (Some r))"
  by unfold_locales (auto simp: registry_ok_def Registry_Get_def list_all_iff dest!: map_of_SomeD)

definition default_registry :: Registry where
  "default_registry = (case NewDefaultRegistry of Inr r \<Rightarrow> r | Inl _ \<Rightarrow> [])"

lemma default_registry_built: "NewDefaultRegistry = Inr default_registry"
proof -
  have "is_ok NewDefaultRegistry"
    by (simp add: NewDefaultRegistry_def NewRegistry_def DefaultSpecs_def sensitive_names_def ArgTypeString_def)
  then obtain r where r: "NewDefaultRegistry = Inr r" by (auto simp: is_ok_iff)
  show ?thesis unfolding default_registry_def r by simp
qed

interpretation actions: action_registry "Registry_Get (Some default_registry)"
  by (rule registry_ok_interface, rule NewRegistry_ok [OF default_registry_built [unfolded NewDefaultRegistry_def]])

section \<open>What validation accepts\<close>

definition raw_args :: "(string \<times> any) list option \<Rightarrow> (string \<times> any) list" where
  "raw_args raw = (case raw of None \<Rightarrow> [] | Some m \<Rightarrow> m)"

text \<open>An argument of the specification is satisfied by the raw arguments.\<close>

definition arg_accepts :: "golib \<Rightarrow> string \<Rightarrow> (string \<times> any) list \<Rightarrow> ArgSpec \<Rightarrow> bool" where
  "arg_accepts L action raw arg =
     (case map_of raw (arg_Name arg) of
        None \<Rightarrow> \<not> arg_Required arg
      | Some v \<Rightarrow> arg_Type arg = ArgTypeString \<and>
          (case v of AString s \<Rightarrow> validateStringArg L action arg s = None | _ \<Rightarrow> False))"

lemma validate_loop_ok:
  "is_ok (validate_loop L action raw as v) \<longleftrightarrow> list_all (arg_accepts L action raw) as"
  by (induction L action raw as v rule: validate_loop.induct)
     (auto simp: arg_accepts_def split: option.splits any.splits)

lemma validate_loop_lookup:
  "validate_loop L action raw as v = Inr v' \<Longrightarrow>
   map_of v' k = (if k \<in> arg_Name ` set as
                  then (case map_of raw k of Some (AString s) \<Rightarrow> Some s | _ \<Rightarrow> map_of v k) else map_of v k)"
  by (induction L action raw as v rule: validate_loop.induct)
     (auto split: option.splits any.splits if_splits)

lemma validate_loop_wf: "validate_loop L action raw as v = Inr v' \<Longrightarrow> wf_map v \<Longrightarrow> wf_map v'"
  by (induction L action raw as v rule: validate_loop.induct)
     (auto split: option.splits any.splits if_splits)

lemma find_unknown_None:
  "find (\<lambda>(name, _). name \<notin> S) raw = None \<longleftrightarrow> fst ` set raw \<subseteq> S"
  by (auto simp: find_None_iff)

lemma ValidateArgs_ok_iff:
  "is_ok (ValidateArgs L spec raw) \<longleftrightarrow>
     fst ` set (raw_args raw) \<subseteq> arg_Name ` set (spec_Args spec) \<and>
     list_all (arg_accepts L (spec_Name spec) (raw_args raw)) (spec_Args spec)"
  using find_unknown_None [of "arg_Name ` set (spec_Args spec)" "raw_args raw"]
  by (auto simp: ValidateArgs_def raw_args_def [symmetric] Let_def validate_loop_ok split: option.splits)

lemma ValidateArgs_lookup:
  assumes "ValidateArgs L spec raw = Inr v"
  shows "map_of v k = (case map_of (raw_args raw) k of Some (AString s) \<Rightarrow> Some s | _ \<Rightarrow> None)"
proof -
  from assms have sub: "fst ` set (raw_args raw) \<subseteq> arg_Name ` set (spec_Args spec)"
    using ValidateArgs_ok_iff [of L spec raw] by simp
  from assms have loop: "validate_loop L (spec_Name spec) (raw_args raw) (spec_Args spec) [] = Inr v"
    by (auto simp: ValidateArgs_def raw_args_def [symmetric] Let_def split: option.splits)
  show ?thesis
  proof (cases "k \<in> arg_Name ` set (spec_Args spec)")
    case True
    then show ?thesis by (simp add: validate_loop_lookup [OF loop] split: option.split any.split)
  next
    case False
    then have "map_of (raw_args raw) k = None" using sub by (auto simp: map_of_eq_None_iff)
    then show ?thesis using False by (simp add: validate_loop_lookup [OF loop])
  qed
qed

lemma ValidateArgs_wf: "ValidateArgs L spec raw = Inr v \<Longrightarrow> wf_map v"
  by (auto simp: ValidateArgs_def Let_def split: option.splits dest: validate_loop_wf)

text \<open>A required argument of an accepted command is there, within its bounds, and harmless.\<close>

lemma ValidateArgs_required:
  assumes "ValidateArgs L spec raw = Inr v" and "arg \<in> set (spec_Args spec)" and "arg_Required arg"
  obtains s where "map_of v (arg_Name arg) = Some s" and "validateStringArg L (spec_Name spec) arg s = None"
proof -
  have "arg_accepts L (spec_Name spec) (raw_args raw) arg"
    using assms ValidateArgs_ok_iff [of L spec raw] by (simp add: list_all_iff)
  then obtain s where "map_of (raw_args raw) (arg_Name arg) = Some (AString s)"
    and "validateStringArg L (spec_Name spec) arg s = None"
    using assms(3) by (auto simp: arg_accepts_def split: option.splits any.splits)
  then show thesis using that ValidateArgs_lookup [OF assms(1)] by simp
qed

definition harmless :: "int \<Rightarrow> int \<Rightarrow> string \<Rightarrow> bool" where
  "harmless lo hi s \<longleftrightarrow> lo \<le> int (length s) \<and> int (length s) \<le> hi \<and> \<not> containsDangerousToken s"

lemma validateStringArg_harmless:
  "validateStringArg L action arg s = None \<Longrightarrow> harmless (arg_MinLen arg) (arg_MaxLen arg) s"
  by (auto simp: validateStringArg_def harmless_def split: if_splits)

lemma validateStringArg_country:
  "validateStringArg L action arg s = None \<Longrightarrow> arg_Pattern arg = countryPattern \<Longrightarrow>
   length s = 2 \<and> list_all is_upper s"
  by (auto simp: validateStringArg_def MatchString_def countryPattern_def split: if_splits)

section \<open>The argument vectors of the default actions\<close>

lemma default_registry_eq:
  "default_registry =
     map (\<lambda>s. (spec_Name s, s\<lparr>spec_SensitiveArgs := Some (sensitive_names s)\<rparr>)) DefaultSpecs"
  by (simp add: default_registry_def NewDefaultRegistry_def NewRegistry_def DefaultSpecs_def
      sensitive_names_def ArgTypeString_def)

lemma default_names: "map spec_Name DefaultSpecs =
    [''status.snapshot'', ''gateway.status'', ''gateway.start'', ''gateway.stop'', ''wlan.scan'', ''wlan.switch.safe'']"
  by (simp add: DefaultSpecs_def)

text \<open>The argument vectors an action may hand to mgate.sh.\<close>

definition argv_allowed :: "string \<Rightarrow> string list \<Rightarrow> bool" where
  "argv_allowed action argv =
     (if action = ''status.snapshot'' then argv = [''status'', ''--json'']
      else if action = ''gateway.status'' then argv = [''gateway'', ''status'', ''--json'']
      else if action = ''gateway.start'' then
        (case argv of
           [a, b, c, country] \<Rightarrow> [a, b, c] = [''gateway'', ''start'', ''--country''] \<and>
             length country = 2 \<and> list_all is_upper country
         | _ \<Rightarrow> False)
      else if action = ''gateway.stop'' then argv = [''gateway'', ''stop'']
      else if action = ''wlan.scan'' then argv = [''wlan'', ''scan'', ''--json'']
      else if action = ''wlan.switch.safe'' then
        (case argv of
           [a, b, c, ssid, d, psk, e] \<Rightarrow>
             [a, b, c, d, e] = [''wlan'', ''switch-safe'', ''--ssid'', ''--psk'', ''--json''] \<and>
             harmless 1 32 ssid \<and> harmless 8 64 psk
         | _ \<Rightarrow> False)
      else False)"

lemma default_spec_cases:
  assumes "Registry_Get (Some default_registry) n = Some spec"
  obtains s where "s \<in> set DefaultSpecs" and "spec_Name s = n"
    and "spec = s\<lparr>spec_SensitiveArgs := Some (sensitive_names s)\<rparr>"
  using assms by (auto simp: Registry_Get_def default_registry_eq dest!: map_of_SomeD)

lemma default_argv_allowed:
  assumes get: "Registry_Get (Some default_registry) n = Some spec"
    and valid: "ValidateArgs L spec raw = Inr v"
    and argv: "Spec_Argv spec v = Inr argv"
  shows "argv_allowed n argv"
proof -
  obtain s where s: "s \<in> set DefaultSpecs" "spec_Name s = n"
      and spec: "spec = s\<lparr>spec_SensitiveArgs := Some (sensitive_names s)\<rparr>"
    using get by (rule default_spec_cases)
  have val: "\<forall>arg \<in> set (spec_Args s). arg_Required arg \<longrightarrow>
      harmless (arg_MinLen arg) (arg_MaxLen arg) (arg_value v (arg_Name arg)) \<and>
      (arg_Pattern arg = countryPattern \<longrightarrow>
        length (arg_value v (arg_Name arg)) = 2 \<and> list_all is_upper (arg_value v (arg_Name arg)))"
  proof (intro ballI impI)
    fix arg assume "arg \<in> set (spec_Args s)" "arg_Required arg"
    then obtain x where "map_of v (arg_Name arg) = Some x" "validateStringArg L (spec_Name spec) arg x = None"
      using ValidateArgs_required [OF valid, of arg] spec by auto
    then show "harmless (arg_MinLen arg) (arg_MaxLen arg) (arg_value v (arg_Name arg)) \<and>
      (arg_Pattern arg = countryPattern \<longrightarrow>
        length (arg_value v (arg_Name arg)) = 2 \<and> list_all is_upper (arg_value v (arg_Name arg)))"
      using validateStringArg_harmless validateStringArg_country by (auto simp: arg_value_def)
  qed
  show ?thesis
    using s argv val unfolding spec
    by (auto simp: DefaultSpecs_def argv_allowed_def Spec_Argv_def)
qed

section \<open>Redacted arguments\<close>

lemma map_of_redact_flagged:
  "map_of (redact_flagged as out) k =
     (if \<exists>arg \<in> set as. arg_Sensitive arg \<and> arg_Name arg = k then map_option (\<lambda>_. AString RedactedValue) (map_of out k)
      else map_of out k)"
  by (induction as out rule: redact_flagged.induct) (auto simp: RedactedValue_def)

lemma map_of_RedactedArgs:
  "map_of (RedactedArgs s args) k =
     map_option (\<lambda>v. if k \<in> set (sensitive_names s) \<or> (\<exists>arg \<in> set (spec_Args s). arg_Sensitive arg \<and> arg_Name arg = k)
                     then AString RedactedValue else AString v) (map_of args k)"
proof -
  have "map_of (map (\<lambda>(k, v). (k, if k \<in> set ks then a else AString v)) args) k =
      map_option (\<lambda>v. if k \<in> set ks then a else AString v) (map_of args k)" for ks a
    by (induction args) auto
  then show ?thesis
    by (cases "map_of args k") (auto simp: RedactedArgs_def map_of_redact_flagged RedactedValue_def)
qed

end
