(* ===== verification/Runner.thy ===== *)
theory Runner
  imports Actions
begin

text \<open>
  internal/runner: running mgate.sh with the argument vector of an action, capturing a bounded amount
  of its output, and turning what happened into a result. The lemmas relate the capturing writers to
  cutting the whole output at the budget, and give the result of each way a process can end.
\<close>

section \<open>Bounded output\<close>

record outputLimiter =
  lim_remaining :: int
  lim_truncated :: bool

text \<open>The two streams of one run and the limiter they share.\<close>

record outputStreams =
  os_stdout :: string
  os_stderr :: string
  os_limiter :: outputLimiter

definition newOutputStreams :: "int \<Rightarrow> outputStreams" where
  "newOutputStreams maxBytes0 =
     (let maxBytes = (if maxBytes0 \<le> 0 then 1 else maxBytes0)
      in \<lparr>os_stdout = [], os_stderr = [], os_limiter = \<lparr>lim_remaining = maxBytes, lim_truncated = False\<rparr>\<rparr>)"

text \<open>limitedStream.Write: the slice kept and the limiter after it; the count it reports is always len(p).\<close>

definition limiter_take :: "string \<Rightarrow> outputLimiter \<Rightarrow> string \<times> outputLimiter" where
  "limiter_take p l =
     (if lim_remaining l \<le> 0 then ([], l\<lparr>lim_truncated := True\<rparr>)
      else let n = int (length p);
               over = n > lim_remaining l;
               k = (if over then lim_remaining l else n)
           in (take (nat k) p,
               l\<lparr>lim_truncated := (if over then True else lim_truncated l), lim_remaining := lim_remaining l - k\<rparr>))"

definition limitedStream_Write :: "bool \<Rightarrow> string \<Rightarrow> outputStreams \<Rightarrow> outputStreams" where
  "limitedStream_Write isStdout p st =
     (let (kept, l) = limiter_take p (os_limiter st)
      in if isStdout then st\<lparr>os_stdout := os_stdout st @ kept, os_limiter := l\<rparr>
         else st\<lparr>os_stderr := os_stderr st @ kept, os_limiter := l\<rparr>)"

fun write_all :: "(bool \<times> string) list \<Rightarrow> outputStreams \<Rightarrow> outputStreams" where
  "write_all [] st = st"
| "write_all ((isStdout, p) # ws) st = write_all ws (limitedStream_Write isStdout p st)"

section \<open>Running a command\<close>

record Request =
  req_CommandID :: string
  req_Spec :: Spec
  req_Args :: ValidatedArgs
  req_MGatePath :: string
  req_WorkDir :: string
  req_Timeout :: duration
  req_MaxOutputBytes :: int

definition finish ::
  "golib \<Rightarrow> ResultPayload \<Rightarrow> CommandState \<Rightarrow> int \<Rightarrow> string \<Rightarrow> string \<Rightarrow> bool \<Rightarrow> string \<Rightarrow> time \<Rightarrow> world \<Rightarrow>
   ResultPayload \<times> world" where
  "finish L result state exitCode stdout stderr truncated errorCode started w =
     (let (ended, w) = time_Now w
      in (result\<lparr>res_State := state, res_ExitCode := exitCode, res_Stdout := RedactText L stdout,
            res_Stderr := RedactText L stderr, res_OutputTruncated := truncated, res_EndedAt := ended,
            res_DurationMS := quot (time_Sub ended started) Millisecond, res_ErrorCode := errorCode\<rparr>, w))"

definition effective_timeout :: "Request \<Rightarrow> duration" where
  "effective_timeout req =
     (let timeout = (if req_Timeout req \<le> 0 then spec_Timeout (req_Spec req) else req_Timeout req)
      in if timeout \<le> 0 then 30 * Second else timeout)"

definition child_process :: "Request \<Rightarrow> string list \<Rightarrow> proc" where
  "child_process req argv =
     \<lparr>p_path = req_MGatePath req, p_argv = argv,
      p_dir = (if req_WorkDir req \<noteq> [] then Some (req_WorkDir req) else None),
      p_timeout = effective_timeout req\<rparr>"

definition Run :: "golib \<Rightarrow> Request \<Rightarrow> world \<Rightarrow> ResultPayload \<times> world" where
  "Run L req w =
     (let (started, w) = time_Now w;
          st = newOutputStreams (req_MaxOutputBytes req);
          result = zero_ResultPayload\<lparr>res_CommandID := req_CommandID req, res_Action := spec_Name (req_Spec req),
                     res_State := CommandRunning, res_ExitCode := -1, res_StartedAt := started\<rparr>
      in (case Spec_Argv (req_Spec req) (req_Args req) of
            Inl _ \<Rightarrow> finish L result CommandRejected (-1) [] [] False ''invalid_action_spec'' started w
          | Inr argv \<Rightarrow>
              (let (oc, w) = cmd_Run (child_process req argv) w;
                   st = write_all (o_writes oc) st;
                   out = os_stdout st; errOut = os_stderr st; truncated = lim_truncated (os_limiter st)
               in if o_deadline oc
                  then finish L result CommandTimedOut (-1) out errOut truncated ''timeout'' started w
                  else (case o_err oc of
                          Some e \<Rightarrow>
                            finish L result CommandFailed (case e of ExitError c \<Rightarrow> c | StartError \<Rightarrow> -1)
                              out errOut truncated ''process_failed'' started w
                        | None \<Rightarrow> finish L result CommandSucceeded 0 out errOut truncated [] started w))))"

section \<open>The captured output\<close>

text \<open>The whole output as one sequence of bytes, each with its stream.\<close>

definition tagged :: "(bool \<times> string) list \<Rightarrow> (bool \<times> char) list" where
  "tagged ws = concat (map (\<lambda>(b, p). map (Pair b) p) ws)"

definition stream_of :: "bool \<Rightarrow> (bool \<times> char) list \<Rightarrow> string" where
  "stream_of b xs = map snd (filter (\<lambda>x. fst x = b) xs)"

lemma tagged_simps [simp]: "tagged [] = []" "tagged ((b, p) # ws) = map (Pair b) p @ tagged ws"
  by (simp_all add: tagged_def)

lemma stream_of_append [simp]: "stream_of b (xs @ ys) = stream_of b xs @ stream_of b ys"
  by (simp add: stream_of_def)

lemma stream_of_tag [simp]: "stream_of b (map (Pair c) p) = (if b = c then p else [])"
  by (simp add: stream_of_def comp_def)

lemma stream_of_Nil [simp]: "stream_of b [] = []"
  by (simp add: stream_of_def)

lemma limiter_take_spec:
  assumes "0 \<le> lim_remaining l"
  shows "fst (limiter_take p l) = take (nat (lim_remaining l)) p"
    and "lim_remaining (snd (limiter_take p l)) = lim_remaining l - min (lim_remaining l) (int (length p))"
    and "p \<noteq> [] \<Longrightarrow> lim_truncated (snd (limiter_take p l)) \<longleftrightarrow> lim_truncated l \<or> int (length p) > lim_remaining l"
  using assms by (auto simp: limiter_take_def Let_def)

lemma os_limiter_Write [simp]: "os_limiter (limitedStream_Write b p st) = snd (limiter_take p (os_limiter st))"
  by (simp add: limitedStream_Write_def split_beta)

lemma os_bufs_Write:
  "os_stdout (limitedStream_Write b p st) = os_stdout st @ (if b then fst (limiter_take p (os_limiter st)) else [])"
  "os_stderr (limitedStream_Write b p st) = os_stderr st @ (if b then [] else fst (limiter_take p (os_limiter st)))"
  by (simp_all add: limitedStream_Write_def split_beta)

text \<open>Two writers that share one budget keep exactly the first bytes of the whole output.\<close>

lemma write_all_streams:
  assumes "0 \<le> lim_remaining (os_limiter st)"
  shows "os_stdout (write_all ws st) = os_stdout st @ stream_of True (take (nat (lim_remaining (os_limiter st))) (tagged ws)) \<and>
    os_stderr (write_all ws st) = os_stderr st @ stream_of False (take (nat (lim_remaining (os_limiter st))) (tagged ws))"
  using assms
proof (induction ws st rule: write_all.induct)
  case (1 st)
  then show ?case by simp
next
  case (2 b p ws st)
  let ?l = "os_limiter st"
  let ?r = "lim_remaining ?l" and ?r' = "lim_remaining (snd (limiter_take p (os_limiter st)))"
  note spec = limiter_take_spec [OF "2.prems", of p]
  have split: "take (nat ?r) (tagged ((b, p) # ws)) = map (Pair b) (take (nat ?r) p) @ take (nat ?r') (tagged ws)"
    using "2.prems" by (auto simp: spec(2) take_map min_def nat_diff_distrib')
  have "0 \<le> lim_remaining (os_limiter (limitedStream_Write b p st))" by (simp add: spec(2))
  note IH = "2.IH" [OF this]
  show ?case
    using IH unfolding split by (simp add: os_bufs_Write spec(1))
qed

lemma write_all_budget:
  assumes "0 \<le> lim_remaining (os_limiter st)" and "list_all (\<lambda>(_, p). p \<noteq> []) ws"
  shows "lim_truncated (os_limiter (write_all ws st)) \<longleftrightarrow>
    lim_truncated (os_limiter st) \<or> length (tagged ws) > nat (lim_remaining (os_limiter st))"
  using assms
proof (induction ws st rule: write_all.induct)
  case (1 st)
  then show ?case by simp
next
  case (2 b p ws st)
  note spec = limiter_take_spec [OF "2.prems"(1), of p]
  have "0 \<le> lim_remaining (os_limiter (limitedStream_Write b p st))" by (simp add: spec(2))
  note IH = "2.IH" [OF this]
  show ?case using IH "2.prems" by (auto simp: spec)
qed

section \<open>What a run does\<close>

definition final_state :: "CommandState \<Rightarrow> bool" where
  "final_state s \<longleftrightarrow> s = CommandSucceeded \<or> s = CommandFailed \<or> s = CommandTimedOut \<or> s = CommandRejected"

lemma effective_timeout_bounds:
  assumes "0 < spec_Timeout (req_Spec req)" and "req_Timeout req \<le> spec_Timeout (req_Spec req)"
  shows "0 < effective_timeout req" and "effective_timeout req \<le> spec_Timeout (req_Spec req)"
  using assms by (auto simp: effective_timeout_def)

lemma finish_simps [simp]:
  "res_CommandID (fst (finish L r st c out err tr e t w)) = res_CommandID r"
  "res_Action (fst (finish L r st c out err tr e t w)) = res_Action r"
  "res_State (fst (finish L r st c out err tr e t w)) = st"
  "res_ExitCode (fst (finish L r st c out err tr e t w)) = c"
  "res_Stdout (fst (finish L r st c out err tr e t w)) = RedactText L out"
  "res_Stderr (fst (finish L r st c out err tr e t w)) = RedactText L err"
  "res_OutputTruncated (fst (finish L r st c out err tr e t w)) = tr"
  "res_ErrorCode (fst (finish L r st c out err tr e t w)) = e"
  "res_StartedAt (fst (finish L r st c out err tr e t w)) = res_StartedAt r"
  "w_fs (snd (finish L r st c out err tr e t w)) = w_fs w"
  "w_execs (snd (finish L r st c out err tr e t w)) = w_execs w"
  "w_audit (snd (finish L r st c out err tr e t w)) = w_audit w"
  "w_exec (snd (finish L r st c out err tr e t w)) = w_exec w"
  "w_fault (snd (finish L r st c out err tr e t w)) = w_fault w"
  "w_clock (snd (finish L r st c out err tr e t w)) = w_clock w"
  by (simp_all add: finish_def time_Now_def)

lemmas run_splits = sum.splits option.splits if_splits

lemma Run_frame [frame_simps]:
  "w_fs (snd (Run L req w)) = w_fs w" "w_audit (snd (Run L req w)) = w_audit w"
  "w_exec (snd (Run L req w)) = w_exec w" "w_fault (snd (Run L req w)) = w_fault w"
  "w_clock (snd (Run L req w)) = w_clock w"
  by (simp_all add: Run_def time_Now_def cmd_Run_def Let_def split: run_splits)

text \<open>One run starts one process, and only when the action has an argument vector.\<close>

lemma Run_execs:
  "w_execs (snd (Run L req w)) =
     w_execs w @ (case Spec_Argv (req_Spec req) (req_Args req) of Inl _ \<Rightarrow> [] | Inr argv \<Rightarrow> [child_process req argv])"
  by (simp add: Run_def time_Now_def cmd_Run_def Let_def split: run_splits)

lemma Run_result:
  "res_CommandID (fst (Run L req w)) = req_CommandID req"
  "res_Action (fst (Run L req w)) = spec_Name (req_Spec req)"
  "final_state (res_State (fst (Run L req w)))"
  by (simp_all add: Run_def time_Now_def cmd_Run_def Let_def zero_ResultPayload_def final_state_def split: run_splits)

lemma Run_redacted: "\<exists>out err. res_Stdout (fst (Run L req w)) = RedactText L out \<and> res_Stderr (fst (Run L req w)) = RedactText L err"
  by (auto simp: Run_def time_Now_def cmd_Run_def Let_def split: run_splits)

lemma Run_reads: "w_reads w \<le> w_reads (snd (Run L req w))"
  by (simp add: Run_def finish_def time_Now_def cmd_Run_def Let_def split: run_splits)

text \<open>What the handler relies on from the function it runs commands with.\<close>

locale command_runner =
  fixes run :: "Request \<Rightarrow> world \<Rightarrow> ResultPayload \<times> world"
  assumes run_id: "res_CommandID (fst (run req w)) = req_CommandID req"
    and run_action: "res_Action (fst (run req w)) = spec_Name (req_Spec req)"
    and run_final: "final_state (res_State (fst (run req w)))"
    and run_execs: "w_execs (snd (run req w)) =
      w_execs w @ (case Spec_Argv (req_Spec req) (req_Args req) of Inl _ \<Rightarrow> [] | Inr argv \<Rightarrow> [child_process req argv])"
    and run_fs: "w_fs (snd (run req w)) = w_fs w"
    and run_audit: "w_audit (snd (run req w)) = w_audit w"
    and run_clock: "w_clock (snd (run req w)) = w_clock w"
    and run_reads: "w_reads w \<le> w_reads (snd (run req w))"
begin

lemma run_only_mgate:
  "p \<in> set (w_execs (snd (run req w))) \<Longrightarrow> p \<in> set (w_execs w) \<or>
     p_path p = req_MGatePath req \<and> Spec_Argv (req_Spec req) (req_Args req) = Inr (p_argv p)"
  by (auto simp: run_execs child_process_def split: sum.splits)

lemma run_starts_one: "length (w_execs (snd (run req w))) \<le> Suc (length (w_execs w))"
  by (simp add: run_execs split: sum.splits)

end

interpretation runner: command_runner "Run L" for L
  by unfold_locales (simp_all add: Run_result Run_execs Run_reads frame_simps)

end
