(* ===== verification/Dedupe.thy ===== *)
theory Dedupe
  imports Audit_Log
begin

text \<open>
  internal/commands/dedupe.go: the table of command ids seen, bounded in time and in size.
  A store starts empty; the lemmas give the invariant, what a reservation answers, and the refinement
  to a plain set of ids while neither bound is reached.
\<close>

section \<open>The store\<close>

definition DefaultDedupeTTL :: duration where "DefaultDedupeTTL = 24 * Hour"
definition DefaultDedupeMaxEntries :: int where "DefaultDedupeMaxEntries = 1024"

text \<open>The constructor keeps the size bound positive, so it is a natural number here.\<close>

record DedupeStore =
  ds_ttl :: duration
  ds_maxEntries :: nat
  ds_seen :: "(string \<times> time) list"

definition NewDedupeStore :: "duration \<Rightarrow> int \<Rightarrow> DedupeStore" where
  "NewDedupeStore ttl maxEntries =
     \<lparr>ds_ttl = (if ttl \<le> 0 then DefaultDedupeTTL else ttl),
      ds_maxEntries = nat (if maxEntries \<le> 0 then DefaultDedupeMaxEntries else maxEntries),
      ds_seen = []\<rparr>"

definition pruneLocked :: "time \<Rightarrow> DedupeStore \<Rightarrow> DedupeStore" where
  "pruneLocked now s = s\<lparr>ds_seen := filter (\<lambda>(_, seenAt). \<not> time_Sub now seenAt > ds_ttl s) (ds_seen s)\<rparr>"

text \<open>The inner loop of trimLocked: the first entry, then every entry seen before the oldest so far.\<close>

fun oldest_entry :: "(string \<times> time) list \<Rightarrow> (string \<times> time) option \<Rightarrow> (string \<times> time) option" where
  "oldest_entry [] acc = acc"
| "oldest_entry ((commandID, seenAt) # rest) acc =
     oldest_entry rest
       (case acc of
          None \<Rightarrow> Some (commandID, seenAt)
        | Some (oldestID, oldestAt) \<Rightarrow> if seenAt < oldestAt then Some (commandID, seenAt) else acc)"

lemma oldest_entry_in:
  "oldest_entry m acc = Some e \<Longrightarrow> acc = Some e \<or> e \<in> set m"
  by (induction m acc rule: oldest_entry.induct) (auto split: option.splits if_splits)

lemma oldest_entry_exists: "m \<noteq> [] \<or> acc \<noteq> None \<Longrightarrow> \<exists>e. oldest_entry m acc = Some e"
  by (induction m acc rule: oldest_entry.induct) (auto split: option.splits if_splits)

lemma length_map_del_less:
  "k \<in> fst ` set m \<Longrightarrow> length (map_del k m) < length m"
  unfolding AList.delete_eq by (force intro: length_filter_less)

function trim_seen :: "nat \<Rightarrow> (string \<times> time) list \<Rightarrow> (string \<times> time) list" where
  "trim_seen maxEntries seen =
     (if length seen > maxEntries
      then (case oldest_entry seen None of
              None \<Rightarrow> seen
            | Some (oldestID, _) \<Rightarrow> trim_seen maxEntries (map_del oldestID seen))
      else seen)"
  by pat_completeness auto
termination
  by (relation "measure (\<lambda>(n, m). length m)")
     (auto dest!: oldest_entry_in intro!: length_map_del_less simp: image_iff, force)

declare trim_seen.simps [simp del]

definition trimLocked :: "DedupeStore \<Rightarrow> DedupeStore" where
  "trimLocked s = s\<lparr>ds_seen := trim_seen (ds_maxEntries s) (ds_seen s)\<rparr>"

text \<open>The four methods, at a reading of the clock. A nil store is \<^const>\<open>None\<close>.\<close>

definition Dedupe_Seen :: "DedupeStore \<Rightarrow> string \<Rightarrow> time \<Rightarrow> bool \<times> DedupeStore" where
  "Dedupe_Seen s commandID now =
     (case map_of (ds_seen s) commandID of
        None \<Rightarrow> (False, s)
      | Some seenAt \<Rightarrow>
          if time_Sub now seenAt > ds_ttl s then (False, s\<lparr>ds_seen := map_del commandID (ds_seen s)\<rparr>)
          else (True, s))"

definition Dedupe_Mark :: "DedupeStore \<Rightarrow> string \<Rightarrow> time \<Rightarrow> time \<Rightarrow> DedupeStore" where
  "Dedupe_Mark s commandID now1 now2 =
     (let s = pruneLocked now1 s in trimLocked (s\<lparr>ds_seen := map_put commandID now2 (ds_seen s)\<rparr>))"

definition Dedupe_Prune :: "DedupeStore \<Rightarrow> time \<Rightarrow> DedupeStore" where
  "Dedupe_Prune s now = pruneLocked now s"

definition reserve_at :: "string \<Rightarrow> time \<Rightarrow> DedupeStore \<Rightarrow> bool \<times> DedupeStore" where
  "reserve_at commandID now s =
     (let s = pruneLocked now s
      in if map_of (ds_seen s) commandID \<noteq> None then (False, s)
         else (True, trimLocked (s\<lparr>ds_seen := map_put commandID now (ds_seen s)\<rparr>)))"

definition Reserve :: "DedupeStore option \<Rightarrow> string \<Rightarrow> world \<Rightarrow> bool \<times> DedupeStore option \<times> world" where
  "Reserve d commandID w =
     (case d of
        None \<Rightarrow> (True, None, w)
      | Some s \<Rightarrow>
          (let (now, w) = time_Now w; (ok, s) = reserve_at commandID now s in (ok, Some s, w)))"

section \<open>Invariant\<close>

definition dedupe_ok :: "DedupeStore \<Rightarrow> bool" where
  "dedupe_ok s \<longleftrightarrow> 0 < ds_ttl s \<and> 0 < ds_maxEntries s \<and> wf_map (ds_seen s) \<and> length (ds_seen s) \<le> ds_maxEntries s"

lemma trim_seen_wf: "wf_map m \<Longrightarrow> wf_map (trim_seen n m)"
  by (induction n m rule: trim_seen.induct) (subst trim_seen.simps, auto split: option.splits)

lemma trim_seen_length: "length (trim_seen n m) \<le> n"
proof (induction n m rule: trim_seen.induct)
  case (1 n m)
  show ?case
  proof (cases "length m > n")
    case True
    then obtain k t where "oldest_entry m None = Some (k, t)"
      using oldest_entry_exists [of m None] by fastforce
    with True 1 show ?thesis by (subst trim_seen.simps) simp
  next
    case False
    then show ?thesis by (subst trim_seen.simps) simp
  qed
qed

lemma trim_seen_id: "length m \<le> n \<Longrightarrow> trim_seen n m = m"
  by (subst trim_seen.simps) simp

lemma NewDedupeStore_ok: "dedupe_ok (NewDedupeStore ttl maxEntries)"
  by (simp add: dedupe_ok_def NewDedupeStore_def DefaultDedupeTTL_def DefaultDedupeMaxEntries_def)

lemma pruneLocked_ok: "dedupe_ok s \<Longrightarrow> dedupe_ok (pruneLocked now s)"
  by (auto simp: dedupe_ok_def pruneLocked_def intro: le_trans [OF length_filter_le])

lemma trimLocked_ok:
  "0 < ds_ttl s \<Longrightarrow> 0 < ds_maxEntries s \<Longrightarrow> wf_map (ds_seen s) \<Longrightarrow> dedupe_ok (trimLocked s)"
  by (simp add: dedupe_ok_def trimLocked_def trim_seen_wf trim_seen_length)

lemma put_trim_ok: "dedupe_ok s \<Longrightarrow> dedupe_ok (trimLocked (s\<lparr>ds_seen := map_put k t (ds_seen s)\<rparr>))"
  by (rule trimLocked_ok) (auto simp: dedupe_ok_def)

lemma Dedupe_ops_ok:
  assumes "dedupe_ok s"
  shows "dedupe_ok (snd (Dedupe_Seen s k now))" and "dedupe_ok (Dedupe_Mark s k now1 now2)"
    and "dedupe_ok (Dedupe_Prune s now)" and "dedupe_ok (snd (reserve_at k now s))"
proof -
  have "wf_map m \<Longrightarrow> length (map_del k m) \<le> length m" for m :: "(string \<times> time) list"
    by (simp add: AList.delete_eq)
  then show "dedupe_ok (snd (Dedupe_Seen s k now))"
    using assms by (auto simp: Dedupe_Seen_def dedupe_ok_def split: option.splits intro: le_trans)
  show "dedupe_ok (Dedupe_Mark s k now1 now2)"
    by (simp add: Dedupe_Mark_def Let_def put_trim_ok pruneLocked_ok assms)
  show "dedupe_ok (Dedupe_Prune s now)"
    by (simp add: Dedupe_Prune_def pruneLocked_ok assms)
  show "dedupe_ok (snd (reserve_at k now s))"
    by (simp add: reserve_at_def Let_def put_trim_ok pruneLocked_ok assms)
qed

section \<open>Which entries a full store gives up\<close>

lemma oldest_entry_min:
  "oldest_entry m acc = Some (k, t) \<Longrightarrow>
   (\<forall>(_, u) \<in> set m. t \<le> u) \<and> (case acc of None \<Rightarrow> True | Some (_, u) \<Rightarrow> t \<le> u)"
  by (induction m acc rule: oldest_entry.induct) (fastforce split: option.splits if_splits)+

lemma set_map_del: "wf_map m \<Longrightarrow> (k, t) \<in> set m \<Longrightarrow> set (map_del k m) = set m - {(k, t)}"
  by (auto simp: AList.delete_eq dest: eq_key_imp_eq_value)

text \<open>Trimming keeps as many entries as fit, and gives up none that is younger than one it keeps.\<close>

lemma trim_seen_newest:
  assumes "wf_map m"
  shows "length (trim_seen n m) = min n (length m) \<and> set (trim_seen n m) \<subseteq> set m \<and>
    (\<forall>e \<in> set (trim_seen n m). \<forall>r \<in> set m - set (trim_seen n m). snd r \<le> snd e)"
  using assms
proof (induction n m rule: trim_seen.induct)
  case (1 n m)
  show ?case
  proof (cases "length m > n")
    case False
    then show ?thesis by (simp add: trim_seen_id)
  next
    case True
    then obtain k t where old: "oldest_entry m None = Some (k, t)"
      using oldest_entry_exists [of m None] by fastforce
    then have kt: "(k, t) \<in> set m" and min: "\<forall>e \<in> set m. t \<le> snd e"
      using oldest_entry_in [OF old] oldest_entry_min [OF old] by auto
    let ?m = "map_del k m"
    have step: "trim_seen n m = trim_seen n ?m"
      using True old by (subst trim_seen.simps) simp
    have sub: "set m = insert (k, t) (set ?m)"
      using set_map_del [OF "1.prems" kt] kt by auto
    have len: "length ?m = length m - 1"
      using length_map_del [OF "1.prems", of k] kt by force
    have IH: "length (trim_seen n ?m) = min n (length ?m) \<and> set (trim_seen n ?m) \<subseteq> set ?m \<and>
      (\<forall>e \<in> set (trim_seen n ?m). \<forall>r \<in> set ?m - set (trim_seen n ?m). snd r \<le> snd e)"
      using "1.IH" [OF True old refl] "1.prems" by simp
    have "snd r \<le> snd e" if e: "e \<in> set (trim_seen n ?m)" and r: "r \<in> set m - set (trim_seen n ?m)" for e r
    proof (cases "r = (k, t)")
      case True
      have "e \<in> set m" using e IH sub by blast
      then show ?thesis using True min by auto
    next
      case False
      then have "r \<in> set ?m - set (trim_seen n ?m)" using r sub by blast
      then show ?thesis using IH e by blast
    qed
    moreover have "length (trim_seen n ?m) = min n (length m)" using IH len True by simp
    moreover have "set (trim_seen n ?m) \<subseteq> set m" using IH sub by blast
    ultimately show ?thesis unfolding step by blast
  qed
qed

lemma put_fresh: "map_of m k = None \<Longrightarrow> map_put k v m = m @ [(k, v)]"
  by (induction m) auto

section \<open>What a reservation answers\<close>

text \<open>An id blocks a reservation at an instant; all entries are older than an instant.\<close>

definition live_id :: "DedupeStore \<Rightarrow> time \<Rightarrow> string \<Rightarrow> bool" where
  "live_id s now k = (case map_of (ds_seen s) k of None \<Rightarrow> False | Some seenAt \<Rightarrow> \<not> time_Sub now seenAt > ds_ttl s)"

definition all_before :: "DedupeStore \<Rightarrow> time \<Rightarrow> bool" where
  "all_before s now = list_all (\<lambda>(_, seenAt). seenAt < now) (ds_seen s)"

lemma map_of_prune:
  "dedupe_ok s \<Longrightarrow> map_of (ds_seen (pruneLocked now s)) k =
     (case map_of (ds_seen s) k of None \<Rightarrow> None | Some t \<Rightarrow> if time_Sub now t > ds_ttl s then None else Some t)"
  by (auto simp: pruneLocked_def dedupe_ok_def map_of_filter_wf split: option.splits)

lemma reserve_at_iff: "dedupe_ok s \<Longrightarrow> fst (reserve_at k now s) \<longleftrightarrow> \<not> live_id s now k"
  by (auto simp: reserve_at_def Let_def map_of_prune live_id_def split: option.splits)

lemma ds_ttl_reserve [simp]: "ds_ttl (snd (reserve_at k now s)) = ds_ttl s"
  by (simp add: reserve_at_def Let_def pruneLocked_def trimLocked_def)

lemma ds_max_reserve [simp]: "ds_maxEntries (snd (reserve_at k now s)) = ds_maxEntries s"
  by (simp add: reserve_at_def Let_def pruneLocked_def trimLocked_def)

lemma reserve_at_enters:
  assumes ok: "dedupe_ok s" and before: "all_before s now" and acc: "fst (reserve_at k now s)"
  shows "map_of (ds_seen (snd (reserve_at k now s))) k = Some now"
proof -
  let ?p = "ds_seen (pruneLocked now s)" and ?n = "ds_maxEntries s"
  have fresh: "map_of ?p k = None"
    using acc by (auto simp: reserve_at_def Let_def split: if_splits)
  let ?m = "?p @ [(k, now)]"
  have seen: "ds_seen (snd (reserve_at k now s)) = trim_seen ?n ?m"
    using fresh by (simp add: reserve_at_def Let_def trimLocked_def put_fresh) (simp add: pruneLocked_def)
  have wf: "wf_map ?m"
    using pruneLocked_ok [OF ok, of now] fresh by (auto simp: dedupe_ok_def map_of_eq_None_iff)
  have old: "\<forall>e \<in> set ?p. snd e < now"
    using before by (fastforce simp: all_before_def pruneLocked_def list_all_iff)
  note new = trim_seen_newest [OF wf, of ?n]
  have "(k, now) \<in> set (trim_seen ?n ?m)"
  proof (rule ccontr)
    assume out: "(k, now) \<notin> set (trim_seen ?n ?m)"
    have "length (trim_seen ?n ?m) > 0"
      using new ok by (auto simp: dedupe_ok_def)
    then obtain e where e: "e \<in> set (trim_seen ?n ?m)" by (cases "trim_seen ?n ?m") auto
    then have "e \<in> set ?p" using new out by auto
    then have "snd e < now" using old by blast
    moreover have "now \<le> snd e" using new out e by force
    ultimately show False by simp
  qed
  then show ?thesis
    using trim_seen_wf [OF wf, of ?n] by (simp add: seen)
qed

text \<open>
  What the command handler relies on: a reservation is granted exactly when the id does not block,
  and a granted one blocks its id for the length of the window.
\<close>

locale reservation =
  fixes reserve :: "string \<Rightarrow> time \<Rightarrow> 's \<Rightarrow> bool \<times> 's"
    and store_ok :: "'s \<Rightarrow> bool"
    and blocks :: "'s \<Rightarrow> time \<Rightarrow> string \<Rightarrow> bool"
    and older :: "'s \<Rightarrow> time \<Rightarrow> bool"
    and window :: "'s \<Rightarrow> duration"
  assumes reserve_ok: "store_ok s \<Longrightarrow> store_ok (snd (reserve k t s))"
    and reserve_iff: "store_ok s \<Longrightarrow> fst (reserve k t s) \<longleftrightarrow> \<not> blocks s t k"
    and reserve_window: "window (snd (reserve k t s)) = window s"
    and reserve_blocks: "store_ok s \<Longrightarrow> older s t \<Longrightarrow> fst (reserve k t s) \<Longrightarrow> t' - t \<le> window s \<Longrightarrow>
      blocks (snd (reserve k t s)) t' k"
begin

lemma not_twice:
  assumes "store_ok s" and "older s t" and "fst (reserve k t s)" and "t' - t \<le> window s"
  shows "\<not> fst (reserve k t' (snd (reserve k t s)))"
  using assms by (simp add: reserve_iff reserve_ok reserve_blocks)

end

interpretation dedupe: reservation reserve_at dedupe_ok live_id all_before ds_ttl
proof
  fix s k t assume "dedupe_ok s"
  then show "dedupe_ok (snd (reserve_at k t s))" by (rule Dedupe_ops_ok)
next
  fix s k t assume "dedupe_ok s"
  then show "fst (reserve_at k t s) \<longleftrightarrow> \<not> live_id s t k" by (rule reserve_at_iff)
next
  fix s k t show "ds_ttl (snd (reserve_at k t s)) = ds_ttl s" by simp
next
  fix s k t t'
  assume "dedupe_ok s" "all_before s t" "fst (reserve_at k t s)" "t' - t \<le> ds_ttl s"
  then show "live_id (snd (reserve_at k t s)) t' k"
    by (auto simp: live_id_def reserve_at_enters time_Sub_def dedupe_ok_def)
qed

section \<open>Refinement to a set of ids\<close>

text \<open>
  The specification: an id is granted the first time it is asked for. The store implements it for any
  sequence of requests that neither spans more than the window nor names more ids than fit.
\<close>

fun reserve_all :: "(string \<times> time) list \<Rightarrow> DedupeStore \<Rightarrow> bool list \<times> DedupeStore" where
  "reserve_all [] s = ([], s)"
| "reserve_all ((k, t) # reqs) s =
     (let (ok, s) = reserve_at k t s; (oks, s) = reserve_all reqs s in (ok # oks, s))"

fun first_requests :: "string list \<Rightarrow> string list \<Rightarrow> bool list" where
  "first_requests past [] = []"
| "first_requests past (k # ks) = (k \<notin> set past) # first_requests (List.insert k past) ks"

definition within_window :: "time \<Rightarrow> DedupeStore \<Rightarrow> bool" where
  "within_window t0 s = list_all (\<lambda>(_, t). t0 \<le> t \<and> t \<le> t0 + ds_ttl s) (ds_seen s)"

lemma prune_within:
  assumes "within_window t0 s" and "t0 \<le> now" "now \<le> t0 + ds_ttl s" and "0 < ds_ttl s"
  shows "pruneLocked now s = s"
proof -
  have "\<not> time_Sub now t > ds_ttl s" if "(k, t) \<in> set (ds_seen s)" for k t
    using assms that by (auto simp: within_window_def list_all_iff time_Sub_def)
  then have "filter (\<lambda>(_, t). \<not> time_Sub now t > ds_ttl s) (ds_seen s) = ds_seen s"
    by (intro filter_True) auto
  then show ?thesis by (simp add: pruneLocked_def)
qed

lemma card_keys_length: "wf_map m \<Longrightarrow> card (fst ` set m) = length m"
  using distinct_card [of "map fst m"] by simp

lemma reserve_at_within:
  assumes ok: "dedupe_ok s" and win: "within_window t0 s" "t0 \<le> now" "now \<le> t0 + ds_ttl s"
    and fit: "card (insert k (fst ` set (ds_seen s))) \<le> ds_maxEntries s"
  shows "reserve_at k now s =
    (if k \<in> fst ` set (ds_seen s) then (False, s) else (True, s\<lparr>ds_seen := ds_seen s @ [(k, now)]\<rparr>))"
proof -
  have prune: "pruneLocked now s = s"
    using prune_within [OF win] ok by (simp add: dedupe_ok_def)
  show ?thesis
  proof (cases "map_of (ds_seen s) k = None")
    case True
    then have new: "k \<notin> fst ` set (ds_seen s)" by (simp add: map_of_eq_None_iff)
    have "card (insert k (fst ` set (ds_seen s))) = Suc (length (ds_seen s))"
      using new card_keys_length [of "ds_seen s"] ok by (simp add: dedupe_ok_def)
    with fit have "length (ds_seen s @ [(k, now)]) \<le> ds_maxEntries s" by simp
    with new True show ?thesis
      by (simp add: reserve_at_def prune trimLocked_def put_fresh trim_seen_id)
  next
    case False
    then show ?thesis by (auto simp: reserve_at_def prune map_of_eq_None_iff)
  qed
qed

lemma reserve_all_refines:
  assumes "dedupe_ok s" and "within_window t0 s"
    and "\<forall>(k, t) \<in> set reqs. t0 \<le> t \<and> t \<le> t0 + ds_ttl s"
    and "card (fst ` set (ds_seen s) \<union> fst ` set reqs) \<le> ds_maxEntries s"
    and "set past = fst ` set (ds_seen s)"
  shows "fst (reserve_all reqs s) = first_requests past (map fst reqs)"
  using assms
proof (induction reqs arbitrary: s past)
  case Nil
  then show ?case by simp
next
  case (Cons r reqs)
  obtain k t where r: "r = (k, t)" by fastforce
  let ?K = "fst ` set (ds_seen s)"
  have "insert k ?K \<subseteq> ?K \<union> fst ` set (r # reqs)" using r by auto
  then have "card (insert k ?K) \<le> card (?K \<union> fst ` set (r # reqs))"
    by (intro card_mono) auto
  then have fit: "card (insert k ?K) \<le> ds_maxEntries s" using Cons.prems(4) by simp
  have t: "t0 \<le> t" "t \<le> t0 + ds_ttl s" using Cons.prems(3) r by auto
  note step = reserve_at_within [OF Cons.prems(1,2) t fit]
  define s' where "s' = snd (reserve_at k t s)"
  have ok': "dedupe_ok s'" unfolding s'_def by (rule Dedupe_ops_ok(4) [OF Cons.prems(1)])
  have keys': "fst ` set (ds_seen s') = insert k ?K" by (auto simp: s'_def step)
  have win': "within_window t0 s'"
    using Cons.prems(2) t by (simp add: s'_def step within_window_def)
  have "fst (reserve_all reqs s') = first_requests (List.insert k past) (map fst reqs)"
  proof (rule Cons.IH [OF ok' win'])
    show "\<forall>(k, t) \<in> set reqs. t0 \<le> t \<and> t \<le> t0 + ds_ttl s'"
      using Cons.prems(3) by (auto simp: s'_def)
    have "fst ` set (ds_seen s') \<union> fst ` set reqs = ?K \<union> fst ` set (r # reqs)"
      using r by (auto simp: keys')
    then show "card (fst ` set (ds_seen s') \<union> fst ` set reqs) \<le> ds_maxEntries s'"
      using Cons.prems(4) by (simp add: s'_def)
    show "set (List.insert k past) = fst ` set (ds_seen s')"
      using Cons.prems(5) by (simp add: keys')
  qed
  moreover have "fst (reserve_at k t s) \<longleftrightarrow> k \<notin> set past"
    using Cons.prems(5) by (simp add: step)
  ultimately show ?case by (simp add: r s'_def split_beta Let_def)
qed

end
