(* ===== verification/Samples.thy ===== *)
theory Samples
  imports Agent_World
begin

text \<open>
  One concrete library record and one concrete world, at which the theorems with hypotheses are
  applied. The codecs are simple ones that satisfy the documented behaviour the theorems name: a
  document is written in prefix form and read back.
\<close>

section \<open>A codec for documents\<close>

fun enc_text :: "string \<Rightarrow> string" where
  "enc_text [] = ''!''"
| "enc_text (c # cs) = CHR ''.'' # c # enc_text cs"

fun dec_text :: "string \<Rightarrow> (string \<times> string) option" where
  "dec_text [] = None"
| "dec_text (t # cs) =
     (if t = CHR ''!'' then Some ([], cs)
      else (case cs of [] \<Rightarrow> None | c # cs' \<Rightarrow> map_option (map_prod ((#) c) id) (dec_text cs')))"

fun enc_json :: "json \<Rightarrow> string" and enc_items :: "json list \<Rightarrow> string" and enc_members :: "(string \<times> json) list \<Rightarrow> string" where
  "enc_json JNull = ''n''"
| "enc_json (JBool b) = (if b then ''t'' else ''f'')"
| "enc_json (JNum s) = CHR ''d'' # enc_text s"
| "enc_json (JStr s) = CHR ''s'' # enc_text s"
| "enc_json (JArr js) = CHR ''a'' # enc_items js"
| "enc_json (JObj kvs) = CHR ''o'' # enc_members kvs"
| "enc_items [] = ''!''"
| "enc_items (j # js) = CHR '','' # enc_json j @ enc_items js"
| "enc_members [] = ''!''"
| "enc_members ((k, j) # kvs) = CHR '','' # enc_text k @ enc_json j @ enc_members kvs"

fun dec_json :: "nat \<Rightarrow> string \<Rightarrow> (json \<times> string) option"
and dec_items :: "nat \<Rightarrow> string \<Rightarrow> (json list \<times> string) option"
and dec_members :: "nat \<Rightarrow> string \<Rightarrow> ((string \<times> json) list \<times> string) option" where
  "dec_json 0 cs = None"
| "dec_json (Suc n) [] = None"
| "dec_json (Suc n) (t # cs) =
     (if t = CHR ''n'' then Some (JNull, cs)
      else if t = CHR ''t'' then Some (JBool True, cs)
      else if t = CHR ''f'' then Some (JBool False, cs)
      else if t = CHR ''d'' then map_option (map_prod JNum id) (dec_text cs)
      else if t = CHR ''s'' then map_option (map_prod JStr id) (dec_text cs)
      else if t = CHR ''a'' then map_option (map_prod JArr id) (dec_items n cs)
      else map_option (map_prod JObj id) (dec_members n cs))"
| "dec_items 0 cs = None"
| "dec_items (Suc n) [] = None"
| "dec_items (Suc n) (t # cs) =
     (if t = CHR ''!'' then Some ([], cs)
      else (case dec_json n cs of
              None \<Rightarrow> None
            | Some (j, cs) \<Rightarrow> map_option (map_prod ((#) j) id) (dec_items n cs)))"
| "dec_members 0 cs = None"
| "dec_members (Suc n) [] = None"
| "dec_members (Suc n) (t # cs) =
     (if t = CHR ''!'' then Some ([], cs)
      else (case dec_text cs of
              None \<Rightarrow> None
            | Some (k, cs) \<Rightarrow>
                (case dec_json n cs of
                   None \<Rightarrow> None
                 | Some (j, cs) \<Rightarrow> map_option (map_prod ((#) (k, j)) id) (dec_members n cs))))"

definition parse_json :: "string \<Rightarrow> json option" where
  "parse_json s = (case dec_json (length s) s of Some (j, []) \<Rightarrow> Some j | _ \<Rightarrow> None)"

lemma dec_enc_text: "dec_text (enc_text s @ rest) = Some (s, rest)"
  by (induction s) auto

lemma dec_enc_json:
  "length (enc_json j) \<le> n \<Longrightarrow> dec_json n (enc_json j @ rest) = Some (j, rest)"
  "length (enc_items js) \<le> n \<Longrightarrow> dec_items n (enc_items js @ rest) = Some (js, rest)"
  "length (enc_members kvs) \<le> n \<Longrightarrow> dec_members n (enc_members kvs @ rest) = Some (kvs, rest)"
proof (induction j and js and kvs arbitrary: n rest and n rest and n rest
    rule: enc_json_enc_items_enc_members.induct)
  case 1
  then show ?case by (cases n) (auto simp: dec_enc_text)
next
  case (2 b)
  then show ?case by (cases n; cases b) auto
next
  case (3 s)
  then show ?case by (cases n) (auto simp: dec_enc_text)
next
  case (4 s)
  then show ?case by (cases n) (auto simp: dec_enc_text)
next
  case (5 js)
  then show ?case by (cases n) (auto simp: dec_enc_text)
next
  case (6 kvs)
  then show ?case by (cases n) (auto simp: dec_enc_text)
next
  case 7
  then show ?case by (cases n) (auto simp: dec_enc_text)
next
  case (8 j js)
  then show ?case by (cases n) (auto simp: dec_enc_text)
next
  case 9
  then show ?case by (cases n) (auto simp: dec_enc_text)
next
  case (10 k j kvs)
  then show ?case by (cases n) (auto simp: dec_enc_text)
qed

lemma parse_enc_json [simp]: "parse_json (enc_json j) = Some j"
  using dec_enc_json(1) [of j "length (enc_json j)" "[]"] by (simp add: parse_json_def)

section \<open>A library and a world\<close>

definition sample_url_parse :: "string \<Rightarrow> url option" where
  "sample_url_parse s =
     (if prefix ''https://'' s
      then Some \<lparr>url_Scheme = ''https'', url_Host = takeWhile (\<lambda>c. c \<noteq> CHR ''/'') (drop 8 s),
                url_Path = dropWhile (\<lambda>c. c \<noteq> CHR ''/'') (drop 8 s), url_RawQuery = [], url_Fragment = [], url_rest = []\<rparr>
      else if prefix ''/'' s
      then Some \<lparr>url_Scheme = [], url_Host = [], url_Path = s, url_RawQuery = [], url_Fragment = [], url_rest = []\<rparr>
      else None)"

definition sample_lib :: golib where
  "sample_lib = \<lparr>lib_lower = id, lib_upper = id, lib_utf8 = id, lib_quote = (\<lambda>s. ''\"'' @ s @ ''\"''),
     lib_f64 = Some, lib_f64_int = (\<lambda>s. case ParseInt s of Some n \<Rightarrow> n | None \<Rightarrow> 0),
     lib_time_text = show_int, lib_time_parse = ParseInt, lib_rfc3339 = show_int,
     lib_marshal = enc_json, lib_marshal_indent = enc_json,
     lib_parse = parse_json, lib_decode = (\<lambda>s. dec_json (length s) s), lib_regexp = (\<lambda>_ _. None),
     lib_sha256 = (\<lambda>_. replicate 32 (CHR ''x'')), lib_hmac = (\<lambda>k m. k @ m),
     lib_url_parse = sample_url_parse, lib_url_string = (\<lambda>u. url_Scheme u @ ''://'' @ url_Host u @ url_Path u)\<rparr>"

text \<open>A clock that stands at the first second of year one, no faults, and processes that end well.\<close>

definition sample_world :: world where
  "sample_world = \<lparr>w_clock = (\<lambda>n. Second), w_reads = 0, w_fault = (\<lambda>_. None), w_calls = 0,
     w_fs = [((True, []), FDir)],
     w_exec = (\<lambda>_ _. \<lparr>o_writes = [(True, ''ok'')], o_deadline = False, o_err = None\<rparr>),
     w_execs = [], w_audit = [], w_random = Some, w_randoms = 0,
     w_http = (\<lambda>_ _. Inl ''connection refused''), w_requests = []\<rparr>"

lemmas sample_defs = sample_lib_def sample_world_def

end
