(* ===== verification/Handler.thy ===== *)
theory Handler
  imports Runner Dedupe Samples
begin

text \<open>
  internal/commands/handler.go: the one entry for commands of either transport. A command passes the
  gates in order (id format, deduplication, registry, local allow list, arguments, timeout) and is
  run, or is rejected with the code of the first gate that refuses it.
\<close>

section \<open>State\<close>

record Options =
  opt_Registry :: "Registry option"
  opt_AllowActions :: "string list"
  opt_Audit :: "Writer option"
  opt_Dedupe :: "DedupeStore option"
  opt_Runner :: "(Request \<Rightarrow> world \<Rightarrow> ResultPayload \<times> world) option"
  opt_MGatePath :: string
  opt_WorkDir :: string
  opt_MaxOutputBytes :: int

record Handler =
  h_registry :: "Registry option"
  h_allowActions :: "string list"
  h_audit :: "Writer option"
  h_dedupe :: "DedupeStore option"
  h_runner :: "Request \<Rightarrow> world \<Rightarrow> ResultPayload \<times> world"
  h_mgatePath :: string
  h_workDir :: string
  h_maxOutputBytes :: int

datatype handler_error = NeedsRegistry | NeedsAllowActions | BadAllowActions registry_error

definition NewHandler :: "golib \<Rightarrow> Options \<Rightarrow> handler_error + Handler" where
  "NewHandler L opts =
     (if opt_Registry opts = None then Inl NeedsRegistry
      else if opt_AllowActions opts = [] then Inl NeedsAllowActions
      else (case ValidateAllowedActions (opt_Registry opts) (opt_AllowActions opts) of
              Some e \<Rightarrow> Inl (BadAllowActions e)
            | None \<Rightarrow>
                Inr \<lparr>h_registry = opt_Registry opts,
                     h_allowActions = opt_AllowActions opts,
                     h_audit = opt_Audit opts,
                     h_dedupe = (case opt_Dedupe opts of
                        None \<Rightarrow> Some (NewDedupeStore DefaultDedupeTTL DefaultDedupeMaxEntries)
                      | Some d \<Rightarrow> Some d),
                     h_runner = (case opt_Runner opts of None \<Rightarrow> Run L | Some f \<Rightarrow> f),
                     h_mgatePath = opt_MGatePath opts,
                     h_workDir = opt_WorkDir opts,
                     h_maxOutputBytes = opt_MaxOutputBytes opts\<rparr>))"

section \<open>Gates\<close>

definition id_char :: "char \<Rightarrow> bool" where
  "id_char c \<longleftrightarrow> CHR ''A'' \<le> c \<and> c \<le> CHR ''Z'' \<or> CHR ''a'' \<le> c \<and> c \<le> CHR ''z'' \<or> is_digit c \<or>
     c = CHR ''.'' \<or> c = CHR ''_'' \<or> c = CHR '':'' \<or> c = CHR ''-''"

text \<open>The pattern of command ids: 6 to 128 characters of the class.\<close>

definition validCommandID :: "string \<Rightarrow> bool" where
  "validCommandID s \<longleftrightarrow> 6 \<le> length s \<and> length s \<le> 128 \<and> list_all id_char s"

definition validateCommandID :: "string \<Rightarrow> string option" where
  "validateCommandID s =
     (if \<not> validCommandID s
      then Some ''command_id must be 6..128 chars and contain only letters, numbers, dot, underscore, colon or dash''
      else None)"

text \<open>The product of the requested seconds and time.Second wraps at 64 bits.\<close>

definition resolveTimeout :: "Spec \<Rightarrow> int option \<Rightarrow> string + duration" where
  "resolveTimeout spec timeoutSec =
     (case timeoutSec of
        None \<Rightarrow> Inr (spec_Timeout spec)
      | Some n \<Rightarrow>
          if n \<le> 0 then Inl ''timeout_sec must be positive when specified''
          else let requested = wrap64 (n * Second)
               in if requested > spec_Timeout spec
                  then Inl (''timeout_sec must not exceed action timeout '' @ show_int (quot (spec_Timeout spec) Second))
                  else Inr requested)"

section \<open>Handling a command\<close>

definition reject_result :: "CommandPayload \<Rightarrow> string \<Rightarrow> string \<Rightarrow> time \<Rightarrow> ResultPayload" where
  "reject_result cmd code msg now =
     zero_ResultPayload\<lparr>res_CommandID := cmd_CommandID cmd, res_Action := cmd_Action cmd,
       res_State := CommandRejected, res_ExitCode := -1, res_StartedAt := now, res_EndedAt := now,
       res_DurationMS := 0, res_ErrorCode := code, res_Stderr := msg\<rparr>"

definition reject :: "golib \<Rightarrow> Handler \<Rightarrow> CommandPayload \<Rightarrow> string \<Rightarrow> string \<Rightarrow> world \<Rightarrow> ResultPayload \<times> Handler \<times> world" where
  "reject L h cmd code msg w =
     (let (now, w) = time_Now w;
          w = writeAudit L (h_audit h)
                (zero_Event\<lparr>ev_Event := EventCommandRejected, ev_CommandID := cmd_CommandID cmd,
                   ev_Action := cmd_Action cmd, ev_Args := cmd_Args cmd, ev_State := CommandRejected,
                   ev_ExitCode := -1, ev_ErrorCode := code\<rparr>) w
      in (reject_result cmd code msg now, h, w))"

definition command_request :: "Handler \<Rightarrow> CommandPayload \<Rightarrow> Spec \<Rightarrow> ValidatedArgs \<Rightarrow> duration \<Rightarrow> Request" where
  "command_request h cmd spec validatedArgs timeout =
     \<lparr>req_CommandID = cmd_CommandID cmd, req_Spec = spec, req_Args = validatedArgs,
      req_MGatePath = h_mgatePath h, req_WorkDir = h_workDir h, req_Timeout = timeout,
      req_MaxOutputBytes = h_maxOutputBytes h\<rparr>"

text \<open>The last part of Handle: the command has passed every gate.\<close>

definition run_accepted ::
  "golib \<Rightarrow> Handler \<Rightarrow> CommandPayload \<Rightarrow> Spec \<Rightarrow> ValidatedArgs \<Rightarrow> duration \<Rightarrow> world \<Rightarrow> ResultPayload \<times> Handler \<times> world" where
  "run_accepted L h cmd spec validatedArgs timeout w =
     (let w = writeAudit L (h_audit h)
                (zero_Event\<lparr>ev_Event := EventCommandStarted, ev_CommandID := cmd_CommandID cmd,
                   ev_Action := cmd_Action cmd, ev_Args := Some (RedactedArgs spec validatedArgs),
                   ev_State := CommandRunning\<rparr>) w;
          (result, w) = h_runner h (command_request h cmd spec validatedArgs timeout) w;
          w = writeAudit L (h_audit h)
                (zero_Event\<lparr>ev_Event := EventCommandFinished, ev_CommandID := res_CommandID result,
                   ev_Action := res_Action result, ev_State := res_State result,
                   ev_ExitCode := res_ExitCode result, ev_DurationMS := res_DurationMS result,
                   ev_ErrorCode := res_ErrorCode result\<rparr>) w
      in (result, h, w))"

definition Handle :: "golib \<Rightarrow> CommandPayload \<Rightarrow> Handler \<times> world \<Rightarrow> ResultPayload \<times> Handler \<times> world" where
  "Handle L cmd hw =
     (let (h, w) = hw;
          w = writeAudit L (h_audit h)
                (zero_Event\<lparr>ev_Event := EventCommandReceived, ev_CommandID := cmd_CommandID cmd,
                   ev_Action := cmd_Action cmd, ev_Args := cmd_Args cmd\<rparr>) w
      in (case validateCommandID (cmd_CommandID cmd) of
            Some msg \<Rightarrow> reject L h cmd ''invalid_command_id'' msg w
          | None \<Rightarrow>
              (let (granted, d, w) = Reserve (h_dedupe h) (cmd_CommandID cmd) w;
                   h = h\<lparr>h_dedupe := d\<rparr>
               in if \<not> granted then reject L h cmd ''duplicate_command'' ''duplicate command_id'' w
                  else (case Registry_Get (h_registry h) (cmd_Action cmd) of
                          None \<Rightarrow> reject L h cmd ''unknown_action'' (''unknown action '' @ lib_quote L (cmd_Action cmd)) w
                        | Some spec \<Rightarrow>
                            if cmd_Action cmd \<notin> set (h_allowActions h)
                            then reject L h cmd ''action_not_allowed''
                                   (''action '' @ lib_quote L (cmd_Action cmd) @ '' is not allowed by local config'') w
                            else (case ValidateArgs L spec (cmd_Args cmd) of
                                    Inl e \<Rightarrow> reject L h cmd ''invalid_args'' (arg_error_text L e) w
                                  | Inr validatedArgs \<Rightarrow>
                                      (case resolveTimeout spec (cmd_TimeoutSec cmd) of
                                         Inl msg \<Rightarrow> reject L h cmd ''timeout_exceeded'' msg w
                                       | Inr timeout \<Rightarrow> run_accepted L h cmd spec validatedArgs timeout w))))))"

section \<open>The decision\<close>

text \<open>
  The gates as a function of the handler, the instant of the reservation and the command: the code of
  the refusing gate, or what is run.
\<close>

definition decide :: "golib \<Rightarrow> Handler \<Rightarrow> time \<Rightarrow> CommandPayload \<Rightarrow> string + (Spec \<times> ValidatedArgs \<times> duration)" where
  "decide L h now cmd =
     (if \<not> validCommandID (cmd_CommandID cmd) then Inl ''invalid_command_id''
      else if (case h_dedupe h of None \<Rightarrow> False | Some s \<Rightarrow> live_id s now (cmd_CommandID cmd)) then Inl ''duplicate_command''
      else (case Registry_Get (h_registry h) (cmd_Action cmd) of
              None \<Rightarrow> Inl ''unknown_action''
            | Some spec \<Rightarrow>
                if cmd_Action cmd \<notin> set (h_allowActions h) then Inl ''action_not_allowed''
                else (case ValidateArgs L spec (cmd_Args cmd) of
                        Inl _ \<Rightarrow> Inl ''invalid_args''
                      | Inr v \<Rightarrow>
                          (case resolveTimeout spec (cmd_TimeoutSec cmd) of
                             Inl _ \<Rightarrow> Inl ''timeout_exceeded''
                           | Inr t \<Rightarrow> Inr (spec, v, t)))))"

definition handler_ok :: "Handler \<Rightarrow> bool" where
  "handler_ok h \<longleftrightarrow> (\<exists>r. h_registry h = Some r \<and> registry_ok r) \<and> command_runner (h_runner h) \<and>
     (\<exists>s. h_dedupe h = Some s \<and> dedupe_ok s)"

lemma NewHandler_ok:
  assumes "NewHandler L opts = Inr h"
    and "\<And>r. opt_Registry opts = Some r \<Longrightarrow> registry_ok r"
    and "\<And>f. opt_Runner opts = Some f \<Longrightarrow> command_runner f"
    and "\<And>s. opt_Dedupe opts = Some s \<Longrightarrow> dedupe_ok s"
  shows "handler_ok h"
  using assms
  by (auto simp: NewHandler_def handler_ok_def NewDedupeStore_ok runner.command_runner_axioms
      split: if_splits option.splits)

text \<open>The world after the first audit event, and the instant of the reservation.\<close>

definition received :: "golib \<Rightarrow> CommandPayload \<Rightarrow> Handler \<Rightarrow> world \<Rightarrow> world" where
  "received L cmd h w = writeAudit L (h_audit h)
     (zero_Event\<lparr>ev_Event := EventCommandReceived, ev_CommandID := cmd_CommandID cmd,
        ev_Action := cmd_Action cmd, ev_Args := cmd_Args cmd\<rparr>) w"

definition reserve_time :: "golib \<Rightarrow> CommandPayload \<Rightarrow> Handler \<Rightarrow> world \<Rightarrow> time" where
  "reserve_time L cmd h w = fst (time_Now (received L cmd h w))"

definition after_reserve :: "golib \<Rightarrow> CommandPayload \<Rightarrow> Handler \<Rightarrow> world \<Rightarrow> Handler" where
  "after_reserve L cmd h w =
     h\<lparr>h_dedupe := map_option (\<lambda>s. snd (reserve_at (cmd_CommandID cmd) (reserve_time L cmd h w) s)) (h_dedupe h)\<rparr>"

lemma received_frame:
  "w_execs (received L cmd h w) = w_execs w" "w_fs (received L cmd h w) = w_fs w"
  "w_clock (received L cmd h w) = w_clock w"
  "clean_log L w \<Longrightarrow> clean_log L (received L cmd h w)"
  by (simp_all add: received_def frame_simps log.sink_clean)

lemma reject_simps:
  "fst (reject L h cmd code msg w) = reject_result cmd code msg (fst (time_Now w))"
  "fst (snd (reject L h cmd code msg w)) = h"
  "w_execs (snd (snd (reject L h cmd code msg w))) = w_execs w"
  "w_fs (snd (snd (reject L h cmd code msg w))) = w_fs w"
  "w_clock (snd (snd (reject L h cmd code msg w))) = w_clock w"
  "clean_log L w \<Longrightarrow> clean_log L (snd (snd (reject L h cmd code msg w)))"
proof -
  have "clean_log L w \<Longrightarrow> clean_log L (snd (time_Now w))" by (simp add: clean_log_def frame_simps)
  then show "clean_log L w \<Longrightarrow> clean_log L (snd (snd (reject L h cmd code msg w)))"
    by (simp add: reject_def split_beta Let_def log.sink_clean)
qed (simp_all add: reject_def split_beta Let_def frame_simps)

lemma reject_result_simps [simp]:
  "res_CommandID (reject_result cmd code msg t) = cmd_CommandID cmd"
  "res_Action (reject_result cmd code msg t) = cmd_Action cmd"
  "res_State (reject_result cmd code msg t) = CommandRejected"
  "res_ErrorCode (reject_result cmd code msg t) = code"
  "res_Stdout (reject_result cmd code msg t) = []"
  "res_ExitCode (reject_result cmd code msg t) = -1"
  by (simp_all add: reject_result_def zero_ResultPayload_def)

lemma Reserve_Some:
  "Reserve (Some s) k w =
     (fst (reserve_at k (fst (time_Now w)) s), Some (snd (reserve_at k (fst (time_Now w)) s)), snd (time_Now w))"
  by (simp add: Reserve_def split_beta Let_def)

text \<open>Handle, gate by gate: it rejects with the code the decision names, or runs what it names.\<close>

lemma Handle_decide:
  assumes "handler_ok h"
  shows "case decide L h (reserve_time L cmd h w) cmd of
      Inl code \<Rightarrow> (\<exists>h' msg w'. Handle L cmd (h, w) = reject L h' cmd code msg w' \<and>
          h' = (if validCommandID (cmd_CommandID cmd) then after_reserve L cmd h w else h) \<and>
          (w' = received L cmd h w \<or> w' = snd (time_Now (received L cmd h w))))
    | Inr (spec, v, t) \<Rightarrow>
        Handle L cmd (h, w) = run_accepted L (after_reserve L cmd h w) cmd spec v t (snd (time_Now (received L cmd h w)))"
proof -
  obtain s where s: "h_dedupe h = Some s" and ok: "dedupe_ok s"
    using assms by (auto simp: handler_ok_def)
  have ar: "after_reserve L cmd h w =
      h\<lparr>h_dedupe := Some (snd (reserve_at (cmd_CommandID cmd) (reserve_time L cmd h w) s))\<rparr>"
    by (simp add: after_reserve_def s)
  have live: "fst (reserve_at (cmd_CommandID cmd) (reserve_time L cmd h w) s) \<longleftrightarrow>
      \<not> live_id s (reserve_time L cmd h w) (cmd_CommandID cmd)"
    using ok by (rule dedupe.reserve_iff)
  show ?thesis
    by (auto simp: Handle_def decide_def s Reserve_Some received_def [symmetric] reserve_time_def [symmetric]
        validateCommandID_def ar live Let_def
        split: option.split sum.split if_split)
qed

lemma Handle_rejects:
  assumes "handler_ok h" and "decide L h (reserve_time L cmd h w) cmd = Inl code"
  shows "res_State (fst (Handle L cmd (h, w))) = CommandRejected"
    and "res_ErrorCode (fst (Handle L cmd (h, w))) = code"
    and "res_CommandID (fst (Handle L cmd (h, w))) = cmd_CommandID cmd"
    and "res_Action (fst (Handle L cmd (h, w))) = cmd_Action cmd"
    and "w_execs (snd (snd (Handle L cmd (h, w)))) = w_execs w"
    and "w_fs (snd (snd (Handle L cmd (h, w)))) = w_fs w"
    and "w_clock (snd (snd (Handle L cmd (h, w)))) = w_clock w"
    and "clean_log L w \<Longrightarrow> clean_log L (snd (snd (Handle L cmd (h, w))))"
    and "fst (snd (Handle L cmd (h, w))) = (if validCommandID (cmd_CommandID cmd) then after_reserve L cmd h w else h)"
proof -
  obtain h' msg w' where eq: "Handle L cmd (h, w) = reject L h' cmd code msg w'"
    and h': "h' = (if validCommandID (cmd_CommandID cmd) then after_reserve L cmd h w else h)"
    and w': "w' = received L cmd h w \<or> w' = snd (time_Now (received L cmd h w))"
    using Handle_decide [OF assms(1), of L cmd w] assms(2) by auto
  have frame: "w_execs w' = w_execs w" "w_fs w' = w_fs w" "w_clock w' = w_clock w" "clean_log L w \<Longrightarrow> clean_log L w'"
    using w' received_frame(1-3) received_frame(4) [of L w cmd h] by (auto simp: frame_simps clean_log_def)
  show "res_State (fst (Handle L cmd (h, w))) = CommandRejected"
    and "res_ErrorCode (fst (Handle L cmd (h, w))) = code"
    and "res_CommandID (fst (Handle L cmd (h, w))) = cmd_CommandID cmd"
    and "res_Action (fst (Handle L cmd (h, w))) = cmd_Action cmd"
    and "w_execs (snd (snd (Handle L cmd (h, w)))) = w_execs w"
    and "w_fs (snd (snd (Handle L cmd (h, w)))) = w_fs w"
    and "w_clock (snd (snd (Handle L cmd (h, w)))) = w_clock w"
    and "clean_log L w \<Longrightarrow> clean_log L (snd (snd (Handle L cmd (h, w))))"
    and "fst (snd (Handle L cmd (h, w))) = (if validCommandID (cmd_CommandID cmd) then after_reserve L cmd h w else h)"
    using frame by (simp_all add: eq h' reject_simps)
qed

section \<open>Accepted commands\<close>

definition new_processes :: "Handler \<Rightarrow> CommandPayload \<Rightarrow> Spec \<Rightarrow> ValidatedArgs \<Rightarrow> duration \<Rightarrow> proc list" where
  "new_processes h cmd spec v t =
     (case Spec_Argv spec v of Inl _ \<Rightarrow> [] | Inr argv \<Rightarrow> [child_process (command_request h cmd spec v t) argv])"

lemma command_request_simps [simp]:
  "req_CommandID (command_request h cmd spec v t) = cmd_CommandID cmd"
  "req_Spec (command_request h cmd spec v t) = spec"
  "req_Args (command_request h cmd spec v t) = v"
  "req_MGatePath (command_request h cmd spec v t) = h_mgatePath h"
  "req_Timeout (command_request h cmd spec v t) = t"
  by (simp_all add: command_request_def)

lemma run_accepted_simps:
  assumes "command_runner (h_runner h)"
  shows "res_CommandID (fst (run_accepted L h cmd spec v t w)) = cmd_CommandID cmd"
    and "res_Action (fst (run_accepted L h cmd spec v t w)) = spec_Name spec"
    and "final_state (res_State (fst (run_accepted L h cmd spec v t w)))"
    and "w_execs (snd (snd (run_accepted L h cmd spec v t w))) = w_execs w @ new_processes h cmd spec v t"
    and "w_fs (snd (snd (run_accepted L h cmd spec v t w))) = w_fs w"
    and "w_clock (snd (snd (run_accepted L h cmd spec v t w))) = w_clock w"
    and "clean_log L w \<Longrightarrow> clean_log L (snd (snd (run_accepted L h cmd spec v t w)))"
    and "fst (snd (run_accepted L h cmd spec v t w)) = h"
proof -
  have "clean_log L w' \<Longrightarrow> clean_log L (snd (h_runner h req w'))" for req w'
    by (simp add: clean_log_def command_runner.run_audit [OF assms])
  then show "clean_log L w \<Longrightarrow> clean_log L (snd (snd (run_accepted L h cmd spec v t w)))"
    by (simp add: run_accepted_def split_beta Let_def log.sink_clean)
qed (simp_all add: run_accepted_def new_processes_def split_beta Let_def frame_simps
      command_runner.run_id [OF assms] command_runner.run_action [OF assms]
      command_runner.run_final [OF assms] command_runner.run_execs [OF assms]
      command_runner.run_fs [OF assms] command_runner.run_clock [OF assms])

lemma after_reserve_frame [simp]:
  "h_runner (after_reserve L cmd h w) = h_runner h" "h_registry (after_reserve L cmd h w) = h_registry h"
  "h_mgatePath (after_reserve L cmd h w) = h_mgatePath h"
  "h_allowActions (after_reserve L cmd h w) = h_allowActions h"
  "h_audit (after_reserve L cmd h w) = h_audit h"
  by (simp_all add: after_reserve_def)

lemma command_request_after_reserve [simp]:
  "command_request (after_reserve L cmd h w) cmd' spec v t = command_request h cmd' spec v t"
  by (simp add: command_request_def after_reserve_def)

lemma new_processes_after_reserve [simp]:
  "new_processes (after_reserve L cmd h w) cmd' spec v t = new_processes h cmd' spec v t"
  by (simp add: new_processes_def split: sum.split)

lemma Handle_runs:
  assumes ok: "handler_ok h" and dec: "decide L h (reserve_time L cmd h w) cmd = Inr (spec, v, t)"
  shows "res_CommandID (fst (Handle L cmd (h, w))) = cmd_CommandID cmd"
    and "res_Action (fst (Handle L cmd (h, w))) = spec_Name spec"
    and "final_state (res_State (fst (Handle L cmd (h, w))))"
    and "w_execs (snd (snd (Handle L cmd (h, w)))) = w_execs w @ new_processes h cmd spec v t"
    and "w_fs (snd (snd (Handle L cmd (h, w)))) = w_fs w"
    and "w_clock (snd (snd (Handle L cmd (h, w)))) = w_clock w"
    and "clean_log L w \<Longrightarrow> clean_log L (snd (snd (Handle L cmd (h, w))))"
    and "fst (snd (Handle L cmd (h, w))) = after_reserve L cmd h w"
proof -
  have eq: "Handle L cmd (h, w) =
      run_accepted L (after_reserve L cmd h w) cmd spec v t (snd (time_Now (received L cmd h w)))"
    using Handle_decide [OF ok, of L cmd w] dec by simp
  have runner: "command_runner (h_runner (after_reserve L cmd h w))"
    using ok by (simp add: handler_ok_def)
  have "clean_log L w \<Longrightarrow> clean_log L (snd (time_Now (received L cmd h w)))"
    using received_frame(4) [of L w cmd h] by (simp add: clean_log_def frame_simps)
  then show "clean_log L w \<Longrightarrow> clean_log L (snd (snd (Handle L cmd (h, w))))"
    unfolding eq by (rule run_accepted_simps(7) [OF runner])
  show "res_CommandID (fst (Handle L cmd (h, w))) = cmd_CommandID cmd"
    and "res_Action (fst (Handle L cmd (h, w))) = spec_Name spec"
    and "final_state (res_State (fst (Handle L cmd (h, w))))"
    and "w_execs (snd (snd (Handle L cmd (h, w)))) = w_execs w @ new_processes h cmd spec v t"
    and "w_fs (snd (snd (Handle L cmd (h, w)))) = w_fs w"
    and "w_clock (snd (snd (Handle L cmd (h, w)))) = w_clock w"
    and "fst (snd (Handle L cmd (h, w))) = after_reserve L cmd h w"
    unfolding eq by (simp_all add: run_accepted_simps [OF runner] received_frame frame_simps)
qed

section \<open>What a command leaves behind\<close>

lemma decide_Inr:
  assumes "decide L h now cmd = Inr (spec, v, t)"
  shows "validCommandID (cmd_CommandID cmd)"
    and "Registry_Get (h_registry h) (cmd_Action cmd) = Some spec"
    and "cmd_Action cmd \<in> set (h_allowActions h)"
    and "ValidateArgs L spec (cmd_Args cmd) = Inr v"
    and "resolveTimeout spec (cmd_TimeoutSec cmd) = Inr t"
    and "h_dedupe h = Some s \<Longrightarrow> \<not> live_id s now (cmd_CommandID cmd)"
  using assms by (auto simp: decide_def split: if_splits option.splits sum.splits)

definition decided_processes :: "golib \<Rightarrow> Handler \<Rightarrow> time \<Rightarrow> CommandPayload \<Rightarrow> proc list" where
  "decided_processes L h now cmd =
     (case decide L h now cmd of Inl _ \<Rightarrow> [] | Inr (spec, v, t) \<Rightarrow> new_processes h cmd spec v t)"

lemma Handle_cases:
  assumes "handler_ok h"
    and "\<And>code. decide L h (reserve_time L cmd h w) cmd = Inl code \<Longrightarrow> P"
    and "\<And>spec v t. decide L h (reserve_time L cmd h w) cmd = Inr (spec, v, t) \<Longrightarrow> P"
  shows P
  using assms by (cases "decide L h (reserve_time L cmd h w) cmd") auto

lemma Handle_execs:
  assumes "handler_ok h"
  shows "w_execs (snd (snd (Handle L cmd (h, w)))) = w_execs w @ decided_processes L h (reserve_time L cmd h w) cmd"
  by (rule Handle_cases [OF assms, of L cmd w])
     (simp_all add: assms decided_processes_def Handle_rejects(5) Handle_runs(4))

lemma final_rejected: "final_state CommandRejected"
  by (simp add: final_state_def)

lemma Handle_frame:
  assumes "handler_ok h"
  shows "w_fs (snd (snd (Handle L cmd (h, w)))) = w_fs w"
    and "w_clock (snd (snd (Handle L cmd (h, w)))) = w_clock w"
    and "res_CommandID (fst (Handle L cmd (h, w))) = cmd_CommandID cmd"
    and "res_Action (fst (Handle L cmd (h, w))) = cmd_Action cmd"
    and "final_state (res_State (fst (Handle L cmd (h, w))))"
    and "clean_log L w \<Longrightarrow> clean_log L (snd (snd (Handle L cmd (h, w))))"
    and "fst (snd (Handle L cmd (h, w))) = (if validCommandID (cmd_CommandID cmd) then after_reserve L cmd h w else h)"
proof -
  have name: "spec_Name spec = cmd_Action cmd"
    if "decide L h (reserve_time L cmd h w) cmd = Inr (spec, v, t)" for spec v t
  proof -
    obtain r where r: "h_registry h = Some r" "registry_ok r" using assms by (auto simp: handler_ok_def)
    show ?thesis
      using decide_Inr(2) [OF that] action_registry.get_name [OF registry_ok_interface [OF r(2)]] r(1) by simp
  qed
  show "w_fs (snd (snd (Handle L cmd (h, w)))) = w_fs w"
    and "w_clock (snd (snd (Handle L cmd (h, w)))) = w_clock w"
    and "res_CommandID (fst (Handle L cmd (h, w))) = cmd_CommandID cmd"
    by (rule Handle_cases [OF assms, of L cmd w]; simp add: assms Handle_rejects Handle_runs)+
  show "res_Action (fst (Handle L cmd (h, w))) = cmd_Action cmd"
    by (rule Handle_cases [OF assms, of L cmd w]) (simp_all add: assms Handle_rejects(4) Handle_runs(2) name)
  show "final_state (res_State (fst (Handle L cmd (h, w))))"
    by (rule Handle_cases [OF assms, of L cmd w])
      (simp_all add: assms Handle_rejects(1) Handle_runs(3) final_rejected)
  show "clean_log L w \<Longrightarrow> clean_log L (snd (snd (Handle L cmd (h, w))))"
    by (rule Handle_cases [OF assms, of L cmd w]) (simp_all add: assms Handle_rejects(8) Handle_runs(7))
  show "fst (snd (Handle L cmd (h, w))) = (if validCommandID (cmd_CommandID cmd) then after_reserve L cmd h w else h)"
    by (rule Handle_cases [OF assms, of L cmd w])
      (auto simp: assms Handle_rejects(9) Handle_runs(8) dest: decide_Inr(1))
qed

lemma after_reserve_ok: "handler_ok h \<Longrightarrow> handler_ok (after_reserve L cmd h w)"
  by (auto simp: handler_ok_def after_reserve_def dedupe.reserve_ok)

lemma Handle_ok: "handler_ok h \<Longrightarrow> handler_ok (fst (snd (Handle L cmd (h, w))))"
  by (simp add: Handle_frame(7) after_reserve_ok)

text \<open>
  What the transports rely on: a command gets a result of its own, in a final state; the files of the
  agent and the invariant of the handler are kept.
\<close>

locale command_handler =
  fixes handle :: "CommandPayload \<Rightarrow> 'h \<times> world \<Rightarrow> ResultPayload \<times> 'h \<times> world"
    and hok :: "'h \<Rightarrow> bool"
  assumes handle_ok: "hok h \<Longrightarrow> hok (fst (snd (handle cmd (h, w))))"
    and handle_id: "hok h \<Longrightarrow> res_CommandID (fst (handle cmd (h, w))) = cmd_CommandID cmd"
    and handle_action: "hok h \<Longrightarrow> res_Action (fst (handle cmd (h, w))) = cmd_Action cmd"
    and handle_final: "hok h \<Longrightarrow> final_state (res_State (fst (handle cmd (h, w))))"
    and handle_fs: "hok h \<Longrightarrow> w_fs (snd (snd (handle cmd (h, w)))) = w_fs w"
begin

text \<open>The results of a sequence of commands.\<close>

fun results :: "CommandPayload list \<Rightarrow> 'h \<times> world \<Rightarrow> ResultPayload list" where
  "results [] hw = []"
| "results (cmd # cmds) hw = (let (r, hw) = handle cmd hw in r # results cmds hw)"

lemma results_ids: "hok h \<Longrightarrow> map res_CommandID (results cmds (h, w)) = map cmd_CommandID cmds"
proof (induction cmds arbitrary: h w)
  case (Cons cmd cmds)
  then show ?case
    using handle_ok [of h cmd w] handle_id [of h cmd w]
    by (cases "handle cmd (h, w)") (auto simp: split_beta)
qed simp

end

interpretation handler: command_handler "Handle L" handler_ok for L
  by unfold_locales (simp_all only: Handle_ok Handle_frame(1-5))

section \<open>At most one run for a command id\<close>

text \<open>The ids of the commands of a sequence that started a process.\<close>

fun started_ids :: "golib \<Rightarrow> CommandPayload list \<Rightarrow> Handler \<times> world \<Rightarrow> string list" where
  "started_ids L [] hw = []"
| "started_ids L (cmd # cmds) hw =
     (let hw' = snd (Handle L cmd hw)
      in (if w_execs (snd hw') = w_execs (snd hw) then [] else [cmd_CommandID cmd]) @ started_ids L cmds hw')"

fun handle_all :: "golib \<Rightarrow> CommandPayload list \<Rightarrow> Handler \<times> world \<Rightarrow> Handler \<times> world" where
  "handle_all L [] hw = hw"
| "handle_all L (cmd # cmds) hw = handle_all L cmds (snd (Handle L cmd hw))"

lemma received_reads: "w_reads w \<le> w_reads (received L cmd h w)"
  by (simp add: received_def writeAudit_reads)

lemma Handle_reads:
  assumes ok: "handler_ok h"
  shows "w_reads (received L cmd h w) < w_reads (snd (snd (Handle L cmd (h, w))))"
proof -
  have rej: "w_reads w' < w_reads (snd (snd (reject L h' cmd code msg w')))" for h' code msg w'
  proof -
    have "w_reads w' < w_reads (snd (time_Now w'))" by (simp add: time_Now_def)
    then show ?thesis
      using writeAudit_reads by (auto simp: reject_def Let_def split_beta intro: less_le_trans)
  qed
  have runs: "w_reads w' \<le> w_reads (snd (snd (run_accepted L h' cmd spec v t w')))"
    if "command_runner (h_runner h')" for h' spec v t w'
    unfolding run_accepted_def
    using writeAudit_reads command_runner.run_reads [OF that]
    by (simp add: Let_def split_beta) (meson order_trans)
  have now: "w_reads (snd (time_Now w')) = Suc (w_reads w')" for w' by (simp add: time_Now_def)
  show ?thesis
  proof (cases "decide L h (reserve_time L cmd h w) cmd")
    case (Inl code)
    then obtain h' msg w' where "Handle L cmd (h, w) = reject L h' cmd code msg w'"
      and "w_reads (received L cmd h w) \<le> w_reads w'"
      using Handle_decide [OF ok, of L cmd w] by (auto simp: now)
    then show ?thesis using rej [of w' h' code msg] by simp
  next
    case (Inr x)
    obtain spec v t where x: "x = (spec, v, t)" by (metis prod_cases3)
    have eq: "Handle L cmd (h, w) =
        run_accepted L (after_reserve L cmd h w) cmd spec v t (snd (time_Now (received L cmd h w)))"
      using Handle_decide [OF ok, of L cmd w] Inr x by simp
    have "command_runner (h_runner (after_reserve L cmd h w))"
      using ok by (simp add: handler_ok_def)
    from runs [OF this, of "snd (time_Now (received L cmd h w))" spec v t]
    show ?thesis unfolding eq by (simp add: now)
  qed
qed

lemma handle_all_reads: "handler_ok h \<Longrightarrow> w_reads w \<le> w_reads (snd (handle_all L cmds (h, w)))"
proof (induction cmds arbitrary: h w)
  case (Cons cmd cmds)
  obtain r h' w' where eq: "Handle L cmd (h, w) = (r, h', w')" by (metis prod_cases3)
  have "w_reads w \<le> w_reads w'"
    using received_reads [of w L cmd h] Handle_reads [OF Cons.prems, of L cmd w] by (simp add: eq)
  moreover have "handler_ok h'" using Handle_ok [OF Cons.prems, of L cmd w] by (simp add: eq)
  ultimately show ?case using Cons.IH [of h' w'] by (simp add: eq)
qed simp

text \<open>The ids a handler remembers; the store covers the run of a sequence of commands.\<close>

definition seen_ids :: "Handler \<Rightarrow> string set" where
  "seen_ids h = (case h_dedupe h of None \<Rightarrow> {} | Some s \<Rightarrow> fst ` set (ds_seen s))"

definition dedupe_covers :: "time \<Rightarrow> nat \<Rightarrow> Handler \<times> world \<Rightarrow> string set \<Rightarrow> bool" where
  "dedupe_covers t0 n hw ids \<longleftrightarrow>
     (\<exists>s. h_dedupe (fst hw) = Some s \<and> within_window t0 s \<and> card (fst ` set (ds_seen s) \<union> ids) \<le> ds_maxEntries s \<and>
       (\<forall>i \<in> {w_reads (snd hw)..<n}. t0 \<le> w_clock (snd hw) i \<and> w_clock (snd hw) i \<le> t0 + ds_ttl s))"

lemma Handle_covers:
  assumes ok: "handler_ok h" and cov: "dedupe_covers t0 n (h, w) ids"
    and fin: "finite ids" and id: "cmd_CommandID cmd \<in> ids"
    and n: "w_reads (snd (snd (Handle L cmd (h, w)))) \<le> n"
  defines "h' \<equiv> fst (snd (Handle L cmd (h, w)))" and "w' \<equiv> snd (snd (Handle L cmd (h, w)))"
  shows "dedupe_covers t0 n (h', w') ids"
    and "seen_ids h \<subseteq> seen_ids h'"
    and "w_execs w' \<noteq> w_execs w \<Longrightarrow> cmd_CommandID cmd \<in> seen_ids h' \<and> cmd_CommandID cmd \<notin> seen_ids h"
proof -
  let ?k = "cmd_CommandID cmd" and ?now = "reserve_time L cmd h w"
  obtain s where s: "h_dedupe h = Some s" and win: "within_window t0 s"
    and fit: "card (fst ` set (ds_seen s) \<union> ids) \<le> ds_maxEntries s"
    and clock: "\<forall>i \<in> {w_reads w..<n}. t0 \<le> w_clock w i \<and> w_clock w i \<le> t0 + ds_ttl s"
    using cov by (auto simp: dedupe_covers_def)
  have sok: "dedupe_ok s" using ok s by (auto simp: handler_ok_def)
  have "?now = w_clock w (w_reads (received L cmd h w))"
    by (simp add: reserve_time_def time_Now_def received_frame)
  moreover have "w_reads (received L cmd h w) \<in> {w_reads w..<n}"
    using received_reads [of w L cmd h] Handle_reads [OF ok, of L cmd w] n by simp
  ultimately have now: "t0 \<le> ?now" "?now \<le> t0 + ds_ttl s" using clock by auto
  have "insert ?k (fst ` set (ds_seen s)) \<subseteq> fst ` set (ds_seen s) \<union> ids" using id by auto
  then have "card (insert ?k (fst ` set (ds_seen s))) \<le> card (fst ` set (ds_seen s) \<union> ids)"
    using fin by (intro card_mono) auto
  with fit have "card (insert ?k (fst ` set (ds_seen s))) \<le> ds_maxEntries s" by simp
  note step = reserve_at_within [OF sok win now this]
  have ar: "h_dedupe (after_reserve L cmd h w) = Some (snd (reserve_at ?k ?now s))"
    by (simp add: after_reserve_def s)
  define s' where "s' = (if validCommandID ?k \<and> ?k \<notin> fst ` set (ds_seen s) then s\<lparr>ds_seen := ds_seen s @ [(?k, ?now)]\<rparr> else s)"
  have h': "h_dedupe h' = Some s'"
    by (auto simp: h'_def Handle_frame(7) [OF ok] s'_def step ar s)
  have keys: "fst ` set (ds_seen s') = (if validCommandID ?k then insert ?k (fst ` set (ds_seen s)) else fst ` set (ds_seen s))"
    by (auto simp: s'_def)
  have "within_window t0 s'" using win now by (auto simp: s'_def within_window_def)
  moreover have "fst ` set (ds_seen s') \<union> ids = fst ` set (ds_seen s) \<union> ids" using id by (auto simp: keys)
  moreover have "ds_ttl s' = ds_ttl s" "ds_maxEntries s' = ds_maxEntries s" by (simp_all add: s'_def)
  moreover have "w_clock w' = w_clock w" by (simp add: w'_def Handle_frame(2) [OF ok])
  moreover have "w_reads w \<le> w_reads w'"
    using received_reads [of w L cmd h] Handle_reads [OF ok, of L cmd w] by (simp add: w'_def)
  ultimately show "dedupe_covers t0 n (h', w') ids"
    using fit clock h' by (auto simp: dedupe_covers_def)
  show "seen_ids h \<subseteq> seen_ids h'" by (auto simp: seen_ids_def s h' keys)
  assume "w_execs w' \<noteq> w_execs w"
  then have "decided_processes L h ?now cmd \<noteq> []" by (simp add: w'_def Handle_execs [OF ok])
  then obtain x where "decide L h ?now cmd = Inr x"
    by (auto simp: decided_processes_def split: sum.splits)
  then have "validCommandID ?k" "\<not> live_id s ?now ?k"
    using decide_Inr(1,6) s by (metis prod_cases3)+
  then show "?k \<in> seen_ids h' \<and> ?k \<notin> seen_ids h"
    using dedupe.reserve_iff [OF sok, of ?k ?now] by (simp add: seen_ids_def s h' keys step split: if_splits)
qed

lemma started_ids_distinct:
  assumes "handler_ok h" and "dedupe_covers t0 (w_reads (snd (handle_all L cmds (h, w)))) (h, w) ids"
    and "finite ids" and "cmd_CommandID ` set cmds \<subseteq> ids"
  shows "distinct (started_ids L cmds (h, w)) \<and> set (started_ids L cmds (h, w)) \<inter> seen_ids h = {}"
  using assms
proof (induction cmds arbitrary: h w)
  case (Cons cmd cmds)
  obtain r h' w' where eq: "Handle L cmd (h, w) = (r, h', w')" by (metis prod_cases3)
  let ?n = "w_reads (snd (handle_all L (cmd # cmds) (h, w)))"
  have ok': "handler_ok h'" using Handle_ok [OF Cons.prems(1), of L cmd w] by (simp add: eq)
  have "w_reads (snd (snd (Handle L cmd (h, w)))) \<le> ?n"
    using handle_all_reads [OF ok', of w' L cmds] by (simp add: eq)
  note step = Handle_covers [OF Cons.prems(1,2,3) _ this, unfolded eq fst_conv snd_conv]
  have id: "cmd_CommandID cmd \<in> ids" using Cons.prems(4) by simp
  have "distinct (started_ids L cmds (h', w')) \<and> set (started_ids L cmds (h', w')) \<inter> seen_ids h' = {}"
    using Cons.IH [OF ok'] step(1) [OF id] Cons.prems(3,4) by (simp add: eq)
  then show ?case using step(2,3) [OF id] by (auto simp: eq Let_def)
qed simp

section \<open>The whitelist\<close>

lemma resolveTimeout_le: "resolveTimeout spec n = Inr t \<Longrightarrow> t \<le> spec_Timeout spec"
  by (auto simp: resolveTimeout_def Let_def split: option.splits if_splits)

text \<open>A process that an action of the default registry may start.\<close>

definition process_allowed :: "Handler \<Rightarrow> CommandPayload \<Rightarrow> proc \<Rightarrow> bool" where
  "process_allowed h cmd p \<longleftrightarrow>
     p_path p = h_mgatePath h \<and> validCommandID (cmd_CommandID cmd) \<and> cmd_Action cmd \<in> set (h_allowActions h) \<and>
     argv_allowed (cmd_Action cmd) (p_argv p) \<and> 0 < p_timeout p \<and> p_timeout p \<le> 180 * Second"

lemma default_timeouts: "Registry_Get (Some default_registry) n = Some spec \<Longrightarrow> 0 < spec_Timeout spec \<and> spec_Timeout spec \<le> 180 * Second"
  by (erule default_spec_cases) (auto simp: DefaultSpecs_def)

lemma decided_allowed:
  assumes reg: "h_registry h = Some default_registry" and p: "p \<in> set (decided_processes L h now cmd)"
  shows "process_allowed h cmd p"
proof -
  obtain spec v t argv where dec: "decide L h now cmd = Inr (spec, v, t)" and argv: "Spec_Argv spec v = Inr argv"
    and proc: "p = child_process (command_request h cmd spec v t) argv"
    using p by (auto simp: decided_processes_def new_processes_def split: sum.splits) metis
  note d = decide_Inr [OF dec, unfolded reg]
  have time: "0 < spec_Timeout spec" "spec_Timeout spec \<le> 180 * Second" using default_timeouts [OF d(2)] by auto
  have "0 < p_timeout p" "p_timeout p \<le> spec_Timeout spec"
    using effective_timeout_bounds [of "command_request h cmd spec v t"] time resolveTimeout_le [OF d(5)]
    by (simp_all add: proc child_process_def)
  then show ?thesis
    using d(1,3) time default_argv_allowed [OF d(2,4) argv]
    by (simp add: process_allowed_def proc child_process_def)
qed

lemma after_Handle_frame:
  assumes "handler_ok h"
  shows "h_registry (fst (snd (Handle L cmd (h, w)))) = h_registry h"
    and "h_mgatePath (fst (snd (Handle L cmd (h, w)))) = h_mgatePath h"
    and "h_allowActions (fst (snd (Handle L cmd (h, w)))) = h_allowActions h"
  by (simp_all add: Handle_frame(7) [OF assms])

lemma handle_all_allowed:
  assumes "handler_ok h" and "h_registry h = Some default_registry"
    and "p \<in> set (w_execs (snd (handle_all L cmds (h, w))))"
  shows "p \<in> set (w_execs w) \<or> (\<exists>cmd \<in> set cmds. process_allowed h cmd p)"
  using assms
proof (induction cmds arbitrary: h w)
  case (Cons cmd cmds)
  obtain r h' w' where eq: "Handle L cmd (h, w) = (r, h', w')" by (metis prod_cases3)
  have frame: "h_registry h' = h_registry h" "h_mgatePath h' = h_mgatePath h" "h_allowActions h' = h_allowActions h"
    using after_Handle_frame [OF Cons.prems(1), of L cmd w] by (simp_all add: eq)
  have "p \<in> set (w_execs w') \<or> (\<exists>cmd \<in> set cmds. process_allowed h' cmd p)"
    using Cons.IH [of h' w'] Handle_ok [OF Cons.prems(1), of L cmd w] Cons.prems(2,3) frame by (simp add: eq)
  moreover have "p \<in> set (w_execs w') \<Longrightarrow> p \<in> set (w_execs w) \<or> process_allowed h cmd p"
    using Handle_execs [OF Cons.prems(1), of L cmd w] decided_allowed [OF Cons.prems(2)] by (auto simp: eq)
  moreover have "process_allowed h' c p = process_allowed h c p" for c
    by (simp add: process_allowed_def frame)
  ultimately show ?case by auto
qed simp

section \<open>Properties\<close>

definition sample_options :: Options where
  "sample_options = \<lparr>opt_Registry = Some default_registry, opt_AllowActions = [''status.snapshot''],
     opt_Audit = None, opt_Dedupe = None, opt_Runner = None, opt_MGatePath = ''/opt/mgate.sh'',
     opt_WorkDir = [], opt_MaxOutputBytes = 65536\<rparr>"

definition sample_handler :: Handler where
  "sample_handler = \<lparr>h_registry = Some default_registry, h_allowActions = [''status.snapshot''], h_audit = None,
     h_dedupe = Some (NewDedupeStore DefaultDedupeTTL DefaultDedupeMaxEntries), h_runner = Run sample_lib,
     h_mgatePath = ''/opt/mgate.sh'', h_workDir = [], h_maxOutputBytes = 65536\<rparr>"

definition sample_command :: CommandPayload where
  "sample_command = zero_CommandPayload\<lparr>cmd_CommandID := ''cmd-0001'', cmd_Action := ''status.snapshot''\<rparr>"

lemma sample_handler_built: "NewHandler sample_lib sample_options = Inr sample_handler"
proof -
  have "Registry_Get (Some default_registry) ''status.snapshot'' \<noteq> None"
    by (simp add: Registry_Get_def default_registry_eq DefaultSpecs_def)
  then have "ValidateAllowedActions (Some default_registry) [''status.snapshot''] = None"
    by (simp add: ValidateAllowedActions_def)
  then show ?thesis by (simp add: NewHandler_def sample_options_def sample_handler_def)
qed

text \<open>
  C2: whatever commands reach a handler built with the default registry and runner, every process it
  starts is the configured mgate.sh with an argument vector of an action that is registered and on
  the local allow list, with at most three minutes to run.
\<close>

theorem only_whitelisted_processes:
  assumes "NewHandler L opts = Inr h"
    and "opt_Registry opts = Some default_registry" and "opt_Runner opts = None" and "opt_Dedupe opts = None"
    and "p \<in> set (w_execs (snd (handle_all L cmds (h, w))))" and "p \<notin> set (w_execs w)"
  shows "p_path p = opt_MGatePath opts \<and> 0 < p_timeout p \<and> p_timeout p \<le> 180 * Second \<and>
    (\<exists>cmd \<in> set cmds. validCommandID (cmd_CommandID cmd) \<and> cmd_Action cmd \<in> set (opt_AllowActions opts) \<and>
       argv_allowed (cmd_Action cmd) (p_argv p))"
proof -
  have reg: "registry_ok default_registry"
    using NewRegistry_ok default_registry_built by (simp add: NewDefaultRegistry_def)
  have h: "handler_ok h" using NewHandler_ok [OF assms(1)] assms(2-4) reg by auto
  have "h_registry h = Some default_registry" "h_mgatePath h = opt_MGatePath opts"
    "h_allowActions h = opt_AllowActions opts"
    using assms(1,2) by (auto simp: NewHandler_def split: if_splits option.splits)
  then show ?thesis
    using handle_all_allowed [OF h _ assms(5)] assms(6) by (auto simp: process_allowed_def)
qed

definition sample_process :: proc where
  "sample_process = \<lparr>p_path = ''/opt/mgate.sh'', p_argv = [''status'', ''--json''], p_dir = None, p_timeout = 10 * Second\<rparr>"

lemma sample_handler_ok: "handler_ok sample_handler"
proof -
  have "registry_ok default_registry"
    using NewRegistry_ok default_registry_built by (simp add: NewDefaultRegistry_def)
  then show ?thesis
    by (simp add: handler_ok_def sample_handler_def NewDedupeStore_ok runner.command_runner_axioms)
qed

lemma sample_valid_id: "validCommandID ''cmd-0001''"
  by (simp add: validCommandID_def id_char_def is_digit_def)

lemma sample_decide:
  "decided_processes sample_lib sample_handler now sample_command = [sample_process]"
proof -
  have get: "Registry_Get (Some default_registry) ''status.snapshot'' =
      Some (hd DefaultSpecs\<lparr>spec_SensitiveArgs := Some []\<rparr>)"
    by (simp add: Registry_Get_def default_registry_eq DefaultSpecs_def sensitive_names_def)
  have "\<not> live_id (NewDedupeStore DefaultDedupeTTL DefaultDedupeMaxEntries) now ''cmd-0001''"
    by (simp add: live_id_def NewDedupeStore_def Let_def)
  then show ?thesis
    by (simp add: decided_processes_def decide_def sample_command_def sample_handler_def sample_valid_id get
        zero_CommandPayload_def resolveTimeout_def new_processes_def command_request_def
        child_process_def effective_timeout_def DefaultSpecs_def ValidateArgs_def Spec_Argv_def sample_process_def)
qed

lemma sample_execs: "w_execs (snd (handle_all sample_lib [sample_command] (sample_handler, sample_world))) = [sample_process]"
  by (simp add: Handle_execs [OF sample_handler_ok] sample_decide) (simp add: sample_world_def)

theorem only_whitelisted_processes_witness:
  "argv_allowed ''status.snapshot'' (p_argv sample_process)"
  using only_whitelisted_processes [OF sample_handler_built, of sample_process "[sample_command]" sample_world]
    sample_execs
  by (simp add: sample_options_def sample_world_def sample_command_def)



text \<open>
  C3: commands are run at most once. As long as the run of a sequence of commands spans no more than
  the window of the deduplication store and names no more ids than it holds, the ids of the commands
  that started a process are distinct, and none of them was in the store before.
\<close>

theorem at_most_once:
  assumes "handler_ok h"
    and "dedupe_covers t0 (w_reads (snd (handle_all L cmds (h, w)))) (h, w) (cmd_CommandID ` set cmds)"
  shows "distinct (started_ids L cmds (h, w)) \<and> set (started_ids L cmds (h, w)) \<inter> seen_ids h = {}"
  using started_ids_distinct [OF assms] by simp

theorem at_most_once_witness:
  "distinct (started_ids sample_lib [sample_command, sample_command] (sample_handler, sample_world))"
proof -
  have "dedupe_covers Second n (sample_handler, sample_world) (cmd_CommandID ` set [sample_command, sample_command])" for n
    by (simp add: dedupe_covers_def sample_handler_def sample_world_def NewDedupeStore_def DefaultDedupeTTL_def
        DefaultDedupeMaxEntries_def within_window_def Let_def)
  then show ?thesis using at_most_once [OF sample_handler_ok] by blast
qed

text \<open>
  C5: no command makes the audit log hold a value under a sensitive key: a log without one is still
  without one after any sequence of commands, whatever they carry and however their writes fail.
\<close>

theorem commands_audit_clean:
  assumes "handler_ok h" and "clean_log L w"
  shows "clean_log L (snd (handle_all L cmds (h, w)))"
  using assms
proof (induction cmds arbitrary: h w)
  case (Cons cmd cmds)
  obtain r h' w' where eq: "Handle L cmd (h, w) = (r, h', w')" by (metis prod_cases3)
  show ?case
    using Cons.IH [of h' w'] Handle_ok [OF Cons.prems(1), of L cmd w] Handle_frame(6) [OF Cons.prems]
    by (simp add: eq) (metis eq snd_conv)
qed simp

theorem commands_audit_clean_witness:
  "clean_log sample_lib (snd (handle_all sample_lib [sample_command] (sample_handler, sample_world)))"
  by (rule commands_audit_clean [OF sample_handler_ok]) (simp add: clean_log_def sample_world_def)

section \<open>The requested timeout\<close>

text \<open>
  C12: a timeout that is accepted never exceeds the action's own. A request of up to 9223372036 seconds
  is accepted exactly when it is positive and within the action's timeout; above that the product with
  time.Second wraps, so that 18446744074 seconds are accepted as 290 ms and 9223372037 seconds as a
  negative duration.
\<close>

theorem resolveTimeout_bounds:
  assumes "n \<le> 9223372036"
  shows "(case resolveTimeout spec (Some m) of Inr t \<Rightarrow> t \<le> spec_Timeout spec | Inl _ \<Rightarrow> True) \<and>
    (is_ok (resolveTimeout spec (Some n)) \<longleftrightarrow> 0 < n \<and> n * Second \<le> spec_Timeout spec) \<and>
    resolveTimeout (hd DefaultSpecs) (Some 18446744074) = Inr 290448384 \<and>
    resolveTimeout (hd DefaultSpecs) (Some 9223372037) = Inr (-9223372036709551616)"
proof -
  have "wrap64 (n * Second) = n * Second" if "0 < n"
    using that assms by (intro wrap64_id) (simp add: int64_def)
  then have "is_ok (resolveTimeout spec (Some n)) \<longleftrightarrow> 0 < n \<and> n * Second \<le> spec_Timeout spec"
    by (auto simp: resolveTimeout_def Let_def is_ok_def)
  moreover have "case resolveTimeout spec (Some m) of Inr t \<Rightarrow> t \<le> spec_Timeout spec | Inl _ \<Rightarrow> True"
    using resolveTimeout_le [of spec "Some m"] by (auto split: sum.split)
  moreover have "resolveTimeout (hd DefaultSpecs) (Some 18446744074) = Inr 290448384"
    "resolveTimeout (hd DefaultSpecs) (Some 9223372037) = Inr (-9223372036709551616)"
    by (simp_all add: resolveTimeout_def DefaultSpecs_def wrap64_def Let_def)
  ultimately show ?thesis by blast
qed

theorem resolveTimeout_bounds_witness: "is_ok (resolveTimeout (hd DefaultSpecs) (Some 10))"
  using resolveTimeout_bounds [of 10 "hd DefaultSpecs" 10] by (simp add: DefaultSpecs_def)

end
