(* ===== verification/Command_Properties.thy ===== *)
theory Command_Properties
  imports Handler
begin

text \<open>
  The promises of the parts a command passes through: redaction, the registry and the validation of
  arguments, deduplication, the runner's capture of output, and the JSON forms of messages.
\<close>

section \<open>Redaction\<close>

text \<open>
  C7: redaction removes everything that stands under a sensitive key, at any depth, and nothing
  else: its result has the marker under each such key, a second redaction changes nothing, and two
  values are redacted alike exactly when they differ only under sensitive keys.
\<close>

theorem Redact_noninterference:
  "redacted L (Redact L a) \<and> Redact L (Redact L a) = Redact L a \<and>
   (Redact L a = Redact L b \<longleftrightarrow> public_eq L a b)"
  by (simp add: redacted_Redact public_eq_iff_Redact)

lemma RedactText_Nil [simp]: "RedactText L [] = []"
  by (simp add: RedactText_def)


text \<open>
  C8: what the audit file holds does not depend on sensitive values: two events whose arguments differ
  only under sensitive keys leave the same world behind, the clock and the failures included.
\<close>

theorem audit_noninterference:
  assumes "public_eq L (AMap m) (AMap m')"
  shows "audit_Write L wr (e\<lparr>ev_Args := Some m\<rparr>) w = audit_Write L wr (e\<lparr>ev_Args := Some m'\<rparr>) w"
  by (simp add: audit_Write_def split_beta Let_def stamp_event_args redact_event_public [OF assms] split: option.splits)

theorem audit_noninterference_witness:
  "audit_Write sample_lib (Some (NewWriter ''/a'')) (zero_Event\<lparr>ev_Args := Some [(''psk'', AString ''secret-1'')]\<rparr>) sample_world =
   audit_Write sample_lib (Some (NewWriter ''/a'')) (zero_Event\<lparr>ev_Args := Some [(''psk'', AString ''other'')]\<rparr>) sample_world"
proof (rule audit_noninterference)
  have "isSensitiveKey sample_lib ''psk''" by code_simp
  then show "public_eq sample_lib (AMap [(''psk'', AString ''secret-1'')]) (AMap [(''psk'', AString ''other'')])"
    by simp
qed

section \<open>Actions\<close>

text \<open>
  The default registry is built without error; it holds exactly the six actions of the code, each
  under its own name with an argument vector builder, and every flagged argument is among the
  sensitive names of its action.
\<close>

theorem default_registry_contents:
  "NewDefaultRegistry = Inr default_registry \<and> registry_ok default_registry \<and>
   Registry_Names default_registry =
     [''status.snapshot'', ''gateway.status'', ''gateway.start'', ''gateway.stop'', ''wlan.scan'', ''wlan.switch.safe'']"
proof -
  have "registry_ok default_registry"
    using NewRegistry_ok default_registry_built by (simp add: NewDefaultRegistry_def)
  moreover have "Registry_Names default_registry = map spec_Name DefaultSpecs"
    by (simp add: Registry_Names_def default_registry_eq)
  ultimately show ?thesis by (simp add: default_registry_built default_names)
qed


section \<open>Deduplication\<close>

text \<open>
  C11: within its window and its capacity the store implements the specification "an id is granted the
  first time it is asked for", for any sequence of requests.
\<close>

theorem dedupe_refines_first_request:
  assumes "0 < ttl" and "0 < maxEntries"
    and "list_all (\<lambda>(k, t). t0 \<le> t \<and> t \<le> t0 + ttl) reqs"
    and "int (card (fst ` set reqs)) \<le> maxEntries"
  shows "fst (reserve_all reqs (NewDedupeStore ttl maxEntries)) = first_requests [] (map fst reqs)"
proof (rule reserve_all_refines)
  show "dedupe_ok (NewDedupeStore ttl maxEntries)" by (rule NewDedupeStore_ok)
  show "within_window t0 (NewDedupeStore ttl maxEntries)"
    using assms by (simp add: within_window_def NewDedupeStore_def Let_def)
qed (use assms in \<open>auto simp: NewDedupeStore_def list_all_iff Let_def\<close>)

theorem dedupe_refines_first_request_witness:
  "fst (reserve_all [(''a'', 5), (''b'', 6), (''a'', 7)] (NewDedupeStore 10 4)) = [True, True, False]"
proof -
  have "card (fst ` set [(''a'', 5::int), (''b'', 6), (''a'', 7)]) = 2" by (simp add: insert_commute)
  then show ?thesis
    using dedupe_refines_first_request [of 10 4 0 "[(''a'', 5), (''b'', 6), (''a'', 7)]"]
    by (simp del: reserve_all.simps)
qed

text \<open>
  Trimming keeps the newest entries: never more than the maximum and no fewer than it can, and
  no entry that was dropped is newer than one that was kept.
\<close>

theorem trim_keeps_newest:
  assumes "wf_map (ds_seen s)"
  shows "length (ds_seen (trimLocked s)) = min (ds_maxEntries s) (length (ds_seen s)) \<and>
    set (ds_seen (trimLocked s)) \<subseteq> set (ds_seen s) \<and>
    (\<forall>d \<in> set (ds_seen s) - set (ds_seen (trimLocked s)). \<forall>e \<in> set (ds_seen (trimLocked s)). snd d \<le> snd e)"
  using trim_seen_newest [of "ds_seen s" "ds_maxEntries s"] assms
  by (auto simp: trimLocked_def)

theorem trim_keeps_newest_witness:
  "length (ds_seen (trimLocked (NewDedupeStore 10 2\<lparr>ds_seen := [(''a'', 5), (''b'', 4), (''c'', 6)]\<rparr>))) = 2"
proof -
  let ?s = "NewDedupeStore 10 2\<lparr>ds_seen := [(''a'', 5), (''b'', 4), (''c'', 6)]\<rparr>"
  have "wf_map (ds_seen ?s)" by simp
  from trim_keeps_newest [OF this] show ?thesis by (simp add: NewDedupeStore_def Let_def)
qed

section \<open>Running\<close>

lemma Run_outcome_parts:
  assumes "Spec_Argv (req_Spec req) (req_Args req) = Inr argv"
    and "oc = w_exec w (w_execs w) (child_process req argv)"
    and "list_all (\<lambda>(_, p). p \<noteq> []) (o_writes oc)"
    and "kept = take (nat (max 1 (req_MaxOutputBytes req))) (tagged (o_writes oc))"
  shows "res_State (fst (Run L req w)) =
      (if o_deadline oc then CommandTimedOut else if o_err oc \<noteq> None then CommandFailed else CommandSucceeded)"
    and "res_ExitCode (fst (Run L req w)) =
      (if o_deadline oc then -1 else case o_err oc of None \<Rightarrow> 0 | Some (ExitError c) \<Rightarrow> c | Some StartError \<Rightarrow> -1)"
    and "res_Stdout (fst (Run L req w)) = RedactText L (stream_of True kept)"
    and "res_Stderr (fst (Run L req w)) = RedactText L (stream_of False kept)"
    and "res_OutputTruncated (fst (Run L req w)) \<longleftrightarrow> length kept < length (tagged (o_writes oc))"
proof -
  let ?st = "newOutputStreams (req_MaxOutputBytes req)"
  have lim: "lim_remaining (os_limiter ?st) = max 1 (req_MaxOutputBytes req)" "\<not> lim_truncated (os_limiter ?st)"
    "os_stdout ?st = []" "os_stderr ?st = []"
    by (simp_all add: newOutputStreams_def Let_def)
  have pos: "0 \<le> lim_remaining (os_limiter ?st)" by (simp add: lim)
  have out: "os_stdout (write_all (o_writes oc) ?st) = stream_of True kept"
    "os_stderr (write_all (o_writes oc) ?st) = stream_of False kept"
    using write_all_streams [OF pos, of "o_writes oc"] by (simp_all add: lim assms(4))
  have trunc: "lim_truncated (os_limiter (write_all (o_writes oc) ?st)) \<longleftrightarrow> length kept < length (tagged (o_writes oc))"
    using write_all_budget [OF pos assms(3)] by (auto simp: lim assms(4))
  note run = Run_def time_Now_def cmd_Run_def Let_def assms(1) assms(2) [symmetric] out trunc
  show "res_State (fst (Run L req w)) =
      (if o_deadline oc then CommandTimedOut else if o_err oc \<noteq> None then CommandFailed else CommandSucceeded)"
    and "res_ExitCode (fst (Run L req w)) =
      (if o_deadline oc then -1 else case o_err oc of None \<Rightarrow> 0 | Some (ExitError c) \<Rightarrow> c | Some StartError \<Rightarrow> -1)"
    and "res_Stdout (fst (Run L req w)) = RedactText L (stream_of True kept)"
    and "res_Stderr (fst (Run L req w)) = RedactText L (stream_of False kept)"
    and "res_OutputTruncated (fst (Run L req w)) \<longleftrightarrow> length kept < length (tagged (o_writes oc))"
    by (simp_all add: run split: option.split exec_error.split)
qed

text \<open>
  C6: one run of an action starts one process, the configured program with the action's arguments; the
  result's state and exit code follow from how the process ended, its two texts are the redacted parts
  of the first bytes of the whole output up to the shared budget, and the truncation flag says exactly
  whether there was more.
\<close>

theorem Run_result_of_outcome:
  assumes "Spec_Argv (req_Spec req) (req_Args req) = Inr argv"
    and "oc = w_exec w (w_execs w) (child_process req argv)"
    and "list_all (\<lambda>(_, p). p \<noteq> []) (o_writes oc)"
    and "kept = take (nat (max 1 (req_MaxOutputBytes req))) (tagged (o_writes oc))"
  shows "w_execs (snd (Run L req w)) = w_execs w @ [child_process req argv] \<and>
    res_State (fst (Run L req w)) =
      (if o_deadline oc then CommandTimedOut else if o_err oc \<noteq> None then CommandFailed else CommandSucceeded) \<and>
    res_ExitCode (fst (Run L req w)) =
      (if o_deadline oc then -1 else case o_err oc of None \<Rightarrow> 0 | Some (ExitError c) \<Rightarrow> c | Some StartError \<Rightarrow> -1) \<and>
    res_Stdout (fst (Run L req w)) = RedactText L (stream_of True kept) \<and>
    res_Stderr (fst (Run L req w)) = RedactText L (stream_of False kept) \<and>
    (res_OutputTruncated (fst (Run L req w)) \<longleftrightarrow> length kept < length (tagged (o_writes oc)))"
  by (intro conjI Run_outcome_parts [OF assms]) (simp add: Run_execs assms(1))

definition sample_request :: Request where
  "sample_request = command_request sample_handler sample_command (hd DefaultSpecs) [] (10 * Second)"

theorem Run_result_of_outcome_witness:
  "res_State (fst (Run sample_lib sample_request sample_world)) = CommandSucceeded \<and>
   w_execs (snd (Run sample_lib sample_request sample_world)) = [sample_process]"
proof -
  define oc where "oc = w_exec sample_world (w_execs sample_world) (child_process sample_request [''status'', ''--json''])"
  define kept where "kept = take (nat (max 1 (req_MaxOutputBytes sample_request))) (tagged (o_writes oc))"
  have argv: "Spec_Argv (req_Spec sample_request) (req_Args sample_request) = Inr [''status'', ''--json'']"
    by (simp add: sample_request_def Spec_Argv_def DefaultSpecs_def)
  have oc: "o_deadline oc = False" "o_err oc = None" "o_writes oc = [(True, ''ok'')]"
    by (simp_all add: oc_def sample_world_def)
  have p: "child_process sample_request [''status'', ''--json''] = sample_process"
    by (simp add: child_process_def sample_request_def command_request_def sample_handler_def sample_process_def
        effective_timeout_def DefaultSpecs_def)
  note R = Run_result_of_outcome [OF argv oc_def _ kept_def, of sample_lib]
  show ?thesis using R oc p by (simp add: sample_world_def)
qed

section \<open>Messages\<close>

text \<open>
  C13: a result that is marshalled and unmarshalled again comes back unchanged, as long as its texts
  are valid UTF-8, its instants have a JSON form that parses back, and its integers fit 64 bits.
\<close>

theorem ResultPayload_roundtrip:
  assumes "wf_ResultPayload L r"
  shows "\<exists>j. marshal_ResultPayload L r = Some j \<and> unmarshal_ResultPayload L (Some j) = Some r"
proof -
  have "marshal_ResultPayload L r \<noteq> None"
    using assms by (simp add: marshal_ResultPayload_def wf_ResultPayload_def time_ok_def)
  then show ?thesis using unmarshal_marshal_ResultPayload [OF assms] by auto
qed

theorem ResultPayload_roundtrip_witness:
  "\<exists>j. marshal_ResultPayload sample_lib (zero_ResultPayload\<lparr>res_CommandID := ''cmd-0001'', res_Stdout := ''ok''\<rparr>) = Some j \<and>
     unmarshal_ResultPayload sample_lib (Some j) = Some (zero_ResultPayload\<lparr>res_CommandID := ''cmd-0001'', res_Stdout := ''ok''\<rparr>)"
proof (rule ResultPayload_roundtrip)
  have plain: "text_ok sample_lib s" if "list_all is_ascii s" for s
    using that by (simp add: text_ok_def)
  have "list_all is_ascii ''cmd-0001''" "list_all is_ascii ''ok''" by code_simp+
  moreover have "time_ok sample_lib 0" by (simp add: time_ok_def sample_lib_def ParseInt_show_int int64_def json_time_ok_def)
  ultimately show "wf_ResultPayload sample_lib (zero_ResultPayload\<lparr>res_CommandID := ''cmd-0001'', res_Stdout := ''ok''\<rparr>)"
    by (simp add: wf_ResultPayload_def zero_ResultPayload_def plain int64_def)
qed

end
