(* ===== verification/Outbox_Record.thy ===== *)
theory Outbox_Record
  imports Audit_Log
begin

text \<open>
  internal/outbox/record.go: the record that keeps a result on disk until it is delivered, the
  redaction of its payload, and the name of its file.
\<close>

section \<open>Records\<close>

record Record =
  rec_RecordID :: string
  rec_CommandID :: string
  rec_CreatedAt :: time
  rec_UpdatedAt :: time
  rec_Attempts :: int
  rec_LastError :: string
  rec_NextRetryAt :: time
  rec_Envelope :: Envelope

definition zero_Record :: Record where
  "zero_Record = \<lparr>rec_RecordID = [], rec_CommandID = [], rec_CreatedAt = 0, rec_UpdatedAt = 0, rec_Attempts = 0,
     rec_LastError = [], rec_NextRetryAt = 0, rec_Envelope = zero_Envelope\<rparr>"

definition set_Record :: "golib \<Rightarrow> Record setter" where
  "set_Record L k j r =
     (if k = ''record_id'' then dec_string j (\<lambda>s. r\<lparr>rec_RecordID := s\<rparr>) r
      else if k = ''command_id'' then dec_string j (\<lambda>s. r\<lparr>rec_CommandID := s\<rparr>) r
      else if k = ''created_at'' then dec_time L j (\<lambda>t. r\<lparr>rec_CreatedAt := t\<rparr>) r
      else if k = ''updated_at'' then dec_time L j (\<lambda>t. r\<lparr>rec_UpdatedAt := t\<rparr>) r
      else if k = ''attempts'' then dec_int j (\<lambda>i. r\<lparr>rec_Attempts := i\<rparr>) r
      else if k = ''last_error'' then dec_string j (\<lambda>s. r\<lparr>rec_LastError := s\<rparr>) r
      else if k = ''next_retry_at'' then dec_time L j (\<lambda>t. r\<lparr>rec_NextRetryAt := t\<rparr>) r
      else if k = ''envelope'' then
        map_option (\<lambda>e. r\<lparr>rec_Envelope := e\<rparr>) (dec_struct (set_Envelope L) j (rec_Envelope r))
      else Some r)"

definition unmarshal_Record :: "golib \<Rightarrow> json \<Rightarrow> Record option" where
  "unmarshal_Record L j = dec_struct (set_Record L) j zero_Record"

definition marshal_Record :: "golib \<Rightarrow> Record \<Rightarrow> json option" where
  "marshal_Record L r =
     (case marshal_Envelope L (rec_Envelope r) of
        None \<Rightarrow> None
      | Some env \<Rightarrow>
          if json_time_ok (rec_CreatedAt r) \<and> json_time_ok (rec_UpdatedAt r) \<and> json_time_ok (rec_NextRetryAt r)
          then Some (JObj
           [(''record_id'', JStr (json_text L (rec_RecordID r))),
            (''command_id'', JStr (json_text L (rec_CommandID r))),
            (''created_at'', JStr (lib_time_text L (rec_CreatedAt r))),
            (''updated_at'', JStr (lib_time_text L (rec_UpdatedAt r))),
            (''attempts'', json_int (rec_Attempts r)),
            (''last_error'', JStr (json_text L (rec_LastError r))),
            (''next_retry_at'', JStr (lib_time_text L (rec_NextRetryAt r))),
            (''envelope'', env)])
          else None)"

section \<open>Building a record\<close>

datatype outbox_error =
    DirRequired
  | MkdirFailed os_error
  | ReadDirFailed os_error
  | FileError os_error
  | MarshalFailed
  | UnmarshalFailed
  | InvalidRecord
  | NotAResult

text \<open>The loop over the two text members of a result.\<close>

fun redact_texts :: "golib \<Rightarrow> string list \<Rightarrow> (string \<times> any) list \<Rightarrow> (string \<times> any) list" where
  "redact_texts L [] m = m"
| "redact_texts L (key # keys) m =
     redact_texts L keys
       (case map_of m key of Some (AString text) \<Rightarrow> map_put key (AString (RedactText L text)) m | _ \<Rightarrow> m)"

text \<open>A payload of null leaves the map nil, which is redacted to an empty one.\<close>

definition sanitizeEnvelope :: "golib \<Rightarrow> Envelope \<Rightarrow> Envelope" where
  "sanitizeEnvelope L env =
     (case (case env_Payload env of
              Some JNull \<Rightarrow> Some []
            | Some (JObj kvs) \<Rightarrow> to_entries L False [] kvs
            | _ \<Rightarrow> None) of
        None \<Rightarrow> env
      | Some payload \<Rightarrow>
          (case Redact L (AMap payload) of
             AMap out \<Rightarrow>
               env\<lparr>env_Payload := Some (of_any L (AMap (redact_texts L [''stdout'', ''stderr''] out)))\<rparr>
           | _ \<Rightarrow> env))"

definition commandIDFromEnvelope :: "golib \<Rightarrow> Envelope \<Rightarrow> outbox_error + string" where
  "commandIDFromEnvelope L env =
     (if env_CorrelationID env \<noteq> [] then Inr (env_CorrelationID env)
      else (case unmarshal_ResultPayload L (env_Payload env) of
              None \<Rightarrow> Inl UnmarshalFailed
            | Some result \<Rightarrow> Inr (res_CommandID result)))"

definition filename_safe :: "char \<Rightarrow> bool" where
  "filename_safe c \<longleftrightarrow> CHR ''A'' \<le> c \<and> c \<le> CHR ''Z'' \<or> CHR ''a'' \<le> c \<and> c \<le> CHR ''z'' \<or> is_digit c \<or>
     c = CHR ''.'' \<or> c = CHR ''_'' \<or> c = CHR ''-''"

text \<open>Every run of other characters is replaced by one underscore.\<close>

function replace_unsafe :: "string \<Rightarrow> string" where
  "replace_unsafe [] = []"
| "replace_unsafe (c # cs) =
     (if filename_safe c then c # replace_unsafe cs
      else CHR ''_'' # replace_unsafe (dropWhile (\<lambda>d. \<not> filename_safe d) cs))"
  by pat_completeness auto
termination
  by (relation "measure length") (auto simp: le_imp_less_Suc length_dropWhile_le)

definition sanitizeRecordID :: "string \<Rightarrow> string" where
  "sanitizeRecordID commandID =
     (let rid = Trim (replace_unsafe commandID) ''.-_'' in if rid = [] then ''unknown'' else rid)"

definition NewRecord :: "golib \<Rightarrow> Envelope \<Rightarrow> time \<Rightarrow> outbox_error + Record" where
  "NewRecord L env now =
     (if env_Type env \<noteq> MessageTypeResult then Inl NotAResult
      else let env = sanitizeEnvelope L env
           in (case commandIDFromEnvelope L env of
                 Inl e \<Rightarrow> Inl e
               | Inr commandID \<Rightarrow>
                   Inr \<lparr>rec_RecordID = sanitizeRecordID commandID, rec_CommandID = commandID, rec_CreatedAt = now,
                        rec_UpdatedAt = now, rec_Attempts = 0, rec_LastError = [], rec_NextRetryAt = now,
                        rec_Envelope = env\<rparr>))"

section \<open>The file name\<close>

lemma replace_unsafe_safe: "list_all filename_safe (replace_unsafe s)"
  by (induction s rule: replace_unsafe.induct) (auto simp: filename_safe_def)

lemma replace_unsafe_id: "list_all filename_safe s \<Longrightarrow> replace_unsafe s = s"
  by (induction s rule: replace_unsafe.induct) auto

lemma set_Trim: "set (Trim s cs) \<subseteq> set s"
  by (auto simp: Trim_def dest!: set_dropWhileD)

lemma hd_Trim: "Trim s cs \<noteq> [] \<Longrightarrow> hd (Trim s cs) \<notin> set cs \<and> last (Trim s cs) \<notin> set cs"
proof -
  define t where "t = dropWhile (\<lambda>c. c \<in> set cs) s"
  define u where "u = dropWhile (\<lambda>c. c \<in> set cs) (rev t)"
  assume "Trim s cs \<noteq> []"
  then have u: "u \<noteq> []" by (simp add: Trim_def t_def u_def)
  then have "hd u \<notin> set cs" using hd_dropWhile [of "\<lambda>c. c \<in> set cs" "rev t"] by (auto simp: u_def)
  moreover have "last u = hd t"
  proof -
    obtain v where "rev t = v @ u" using takeWhile_dropWhile_id [of "\<lambda>c. c \<in> set cs" "rev t"] u_def by metis
    then have "last (rev t) = last u" using u by simp
    then show ?thesis using u by (cases "t = []") (auto simp: u_def last_rev)
  qed
  moreover have "t \<noteq> []" using u by (auto simp: u_def)
  then have "hd t \<notin> set cs" using hd_dropWhile [of "\<lambda>c. c \<in> set cs" s] by (auto simp: t_def)
  ultimately show ?thesis using u by (simp add: Trim_def t_def [symmetric] u_def [symmetric] hd_rev last_rev)
qed

lemma sanitizeRecordID_not_Nil [simp]: "sanitizeRecordID s \<noteq> []"
  by (simp add: sanitizeRecordID_def Let_def)

lemma sanitizeRecordID_safe: "list_all filename_safe (sanitizeRecordID s)"
proof -
  have "list_all filename_safe ''unknown''" by (simp add: filename_safe_def)
  then show ?thesis
    using set_Trim [of "replace_unsafe s" "''.-_''"] replace_unsafe_safe [of s]
    by (auto simp: sanitizeRecordID_def Let_def list_all_iff)
qed

lemma Trim_id: "s = [] \<or> hd s \<notin> set cs \<and> last s \<notin> set cs \<Longrightarrow> Trim s cs = s"
proof (cases s)
  case (Cons c t)
  assume "s = [] \<or> hd s \<notin> set cs \<and> last s \<notin> set cs"
  then have "dropWhile (\<lambda>c. c \<in> set cs) s = s" "dropWhile (\<lambda>c. c \<in> set cs) (rev s) = rev s"
    using Cons by (simp, cases "rev s") (auto simp: hd_rev [symmetric])
  then show ?thesis by (simp add: Trim_def)
qed (simp add: Trim_def)

lemma sanitizeRecordID_ends: "hd (sanitizeRecordID s) \<notin> set ''.-_'' \<and> last (sanitizeRecordID s) \<notin> set ''.-_''"
  using hd_Trim [of "replace_unsafe s" "''.-_''"] by (auto simp: sanitizeRecordID_def Let_def)

lemma sanitizeRecordID_idem: "sanitizeRecordID (sanitizeRecordID s) = sanitizeRecordID s"
proof -
  have "replace_unsafe (sanitizeRecordID s) = sanitizeRecordID s"
    by (rule replace_unsafe_id [OF sanitizeRecordID_safe])
  then show ?thesis
    using Trim_id [of "sanitizeRecordID s" "''.-_''"] sanitizeRecordID_ends [of s]
    by (simp add: sanitizeRecordID_def [of "sanitizeRecordID s"] Let_def)
qed

lemma sanitizeRecordID_simple: "simple_name (sanitizeRecordID s)"
  using sanitizeRecordID_safe [of s] sanitizeRecordID_ends [of s]
  by (auto simp: simple_name_def list_all_iff filename_safe_def is_digit_def)

text \<open>A record carries the sanitized id of its command, and is of the type of results.\<close>

lemma sanitizeEnvelope_frame [simp]:
  "env_Type (sanitizeEnvelope L env) = env_Type env" "env_CorrelationID (sanitizeEnvelope L env) = env_CorrelationID env"
  "env_Version (sanitizeEnvelope L env) = env_Version env" "env_MessageID (sanitizeEnvelope L env) = env_MessageID env"
  "env_DeviceID (sanitizeEnvelope L env) = env_DeviceID env" "env_Timestamp (sanitizeEnvelope L env) = env_Timestamp env"
  by (auto simp: sanitizeEnvelope_def split: option.split json.split any.split)

lemma NewRecord_Inr:
  assumes "NewRecord L env now = Inr r"
  shows "rec_RecordID r = sanitizeRecordID (rec_CommandID r)" and "env_Type (rec_Envelope r) = MessageTypeResult"
    and "rec_Attempts r = 0" and "rec_CreatedAt r = now" and "rec_NextRetryAt r = now" and "rec_UpdatedAt r = now"
    and "rec_Envelope r = sanitizeEnvelope L env"
  using assms by (auto simp: NewRecord_def Let_def split: if_splits sum.splits)

section \<open>Round trip\<close>

text \<open>
  An error text may have been cut inside a rune, so it comes back as JSON repairs it; everything else
  of a well-formed record comes back unchanged.
\<close>

definition norm_Record :: "golib \<Rightarrow> Record \<Rightarrow> Record" where
  "norm_Record L r = r\<lparr>rec_LastError := json_text L (rec_LastError r)\<rparr>"

definition wf_Record :: "golib \<Rightarrow> Record \<Rightarrow> bool" where
  "wf_Record L r \<longleftrightarrow> text_ok L (rec_RecordID r) \<and> text_ok L (rec_CommandID r) \<and> time_ok L (rec_CreatedAt r) \<and>
     time_ok L (rec_UpdatedAt r) \<and> int64 (rec_Attempts r) \<and> time_ok L (rec_NextRetryAt r) \<and> wf_Envelope L (rec_Envelope r)"

lemma fold_record_names [simp]:
  "fold_name ''record_id'' = ''record_id''" "fold_name ''created_at'' = ''created_at''"
  "fold_name ''updated_at'' = ''updated_at''" "fold_name ''attempts'' = ''attempts''"
  "fold_name ''last_error'' = ''last_error''" "fold_name ''next_retry_at'' = ''next_retry_at''"
  "fold_name ''envelope'' = ''envelope''"
  by (code_simp+)

lemma set_Record_simps:
  "set_Record L ''record_id'' j r = dec_string j (\<lambda>s. r\<lparr>rec_RecordID := s\<rparr>) r"
  "set_Record L ''command_id'' j r = dec_string j (\<lambda>s. r\<lparr>rec_CommandID := s\<rparr>) r"
  "set_Record L ''created_at'' j r = dec_time L j (\<lambda>t. r\<lparr>rec_CreatedAt := t\<rparr>) r"
  "set_Record L ''updated_at'' j r = dec_time L j (\<lambda>t. r\<lparr>rec_UpdatedAt := t\<rparr>) r"
  "set_Record L ''attempts'' j r = dec_int j (\<lambda>i. r\<lparr>rec_Attempts := i\<rparr>) r"
  "set_Record L ''last_error'' j r = dec_string j (\<lambda>s. r\<lparr>rec_LastError := s\<rparr>) r"
  "set_Record L ''next_retry_at'' j r = dec_time L j (\<lambda>t. r\<lparr>rec_NextRetryAt := t\<rparr>) r"
  "set_Record L ''envelope'' j r =
     map_option (\<lambda>e. r\<lparr>rec_Envelope := e\<rparr>) (dec_struct (set_Envelope L) j (rec_Envelope r))"
  by (simp_all add: set_Record_def)

lemma marshal_Record_ok: "wf_Record L r \<Longrightarrow> \<exists>j. marshal_Record L r = Some j"
  by (auto simp: marshal_Record_def wf_Record_def wf_Envelope_def time_ok_def marshal_Envelope_def)

lemma unmarshal_marshal_Record:
  assumes wf: "wf_Record L r" and j: "marshal_Record L r = Some j"
  shows "unmarshal_Record L j = Some (norm_Record L r)"
proof -
  obtain env where env: "marshal_Envelope L (rec_Envelope r) = Some env"
    using j by (auto simp: marshal_Record_def split: option.splits)
  have "dec_struct (set_Envelope L) env zero_Envelope = Some (rec_Envelope r)"
    using unmarshal_marshal_Envelope [OF _ env] wf by (simp add: unmarshal_Envelope_def wf_Record_def)
  moreover have "j = the (marshal_Record L r)" using j by simp
  ultimately show ?thesis
    using wf
    by (simp add: wf_Record_def text_ok_def time_ok_def marshal_Record_def env unmarshal_Record_def
        dec_struct_def [where f = "set_Record L"] set_Record_simps dec_string_def dec_time_def zero_Record_def norm_Record_def)
qed

section \<open>What a record may hold\<close>

lemma stdout_not_sensitive: "\<not> isSensitiveKey L ''stdout''" "\<not> isSensitiveKey L ''stderr''"
proof -
  have "ToLower u ''stdout'' = ''stdout''" "ToLower u ''stderr'' = ''stderr''" for u
  proof -
    have ascii: "list_all is_ascii ''stdout''" "list_all is_ascii ''stderr''" by code_simp+
    have "map lower_byte ''stdout'' = ''stdout''" "map lower_byte ''stderr'' = ''stderr''" by code_simp+
    with ascii show "ToLower u ''stdout'' = ''stdout''" "ToLower u ''stderr'' = ''stderr''"
      by (simp_all only: ToLower_def map_case_ascii)
  qed
  then show "\<not> isSensitiveKey L ''stdout''" "\<not> isSensitiveKey L ''stderr''"
    by (simp_all add: isSensitiveKey_def Let_def suffix_to_prefix)
qed

lemma redacted_put:
  "redacted_entries L m \<Longrightarrow> \<not> isSensitiveKey L k \<Longrightarrow> redacted L a \<Longrightarrow> redacted_entries L (map_put k a m)"
  by (induction m) auto

lemma redact_texts_redacted:
  assumes "redacted_entries L m" and "list_all (\<lambda>k. \<not> isSensitiveKey L k) keys"
  shows "redacted_entries L (redact_texts L keys m)"
  using assms
proof (induction L keys m rule: redact_texts.induct)
  case (2 L key keys m)
  then show ?case by (auto simp: redacted_put split: option.split any.split)
qed simp

lemma map_of_redact_texts:
  "distinct keys \<Longrightarrow> map_of (redact_texts L keys m) k =
     (case map_of m k of
        Some (AString text) \<Rightarrow> Some (AString (if k \<in> set keys then RedactText L text else text))
      | r \<Rightarrow> r)"
  by (induction L keys m rule: redact_texts.induct) (auto split: option.split any.split)

text \<open>The payload of a record is redacted, and so are its two texts.\<close>

definition sanitized :: "golib \<Rightarrow> (string \<times> any) list \<Rightarrow> bool" where
  "sanitized L m \<longleftrightarrow> redacted_entries L m \<and>
     list_all (\<lambda>k. case map_of m k of Some (AString text) \<Rightarrow> RedactText L text = text | _ \<Rightarrow> True) [''stdout'', ''stderr'']"

lemma sanitizeEnvelope_payload:
  assumes "env_Payload env = Some (JObj kvs)" and "to_entries L False [] kvs = Some payload"
  shows "\<exists>m. env_Payload (sanitizeEnvelope L env) = Some (of_any L (AMap m)) \<and> sanitized L m \<and>
    (\<forall>k. map_of m k = (case map_of (Redact_entries L payload) k of
        Some (AString text) \<Rightarrow> Some (AString (if k \<in> {''stdout'', ''stderr''} then RedactText L text else text))
      | r \<Rightarrow> r))"
proof -
  let ?m = "redact_texts L [''stdout'', ''stderr''] (Redact_entries L payload)"
  have lookup: "map_of ?m k = (case map_of (Redact_entries L payload) k of
        Some (AString text) \<Rightarrow> Some (AString (if k \<in> {''stdout'', ''stderr''} then RedactText L text else text))
      | r \<Rightarrow> r)" for k
    using map_of_redact_texts [of "[''stdout'', ''stderr'']" L "Redact_entries L payload" k]
    by (simp del: redact_texts.simps split: option.split any.split)
  have "redacted_entries L ?m"
    by (rule redact_texts_redacted) (simp_all add: redacted_Redact stdout_not_sensitive)
  moreover have "case map_of ?m k of Some (AString text) \<Rightarrow> RedactText L text = text | _ \<Rightarrow> True"
    if "k = ''stdout'' \<or> k = ''stderr''" for k
    unfolding lookup using that by (auto simp: RedactText_idem split: option.split any.split)
  ultimately have "sanitized L ?m" by (simp add: sanitized_def del: redact_texts.simps)
  moreover have "env_Payload (sanitizeEnvelope L env) = Some (of_any L (AMap ?m))"
    using assms by (simp add: sanitizeEnvelope_def del: redact_texts.simps of_any.simps)
  ultimately show ?thesis using lookup by blast
qed

end
