(* ===== verification/Outbox.thy ===== *)
theory Outbox
  imports Outbox_Record Samples
begin

text \<open>
  internal/outbox/store.go: a directory of JSON files, one per undelivered result, written through a
  temporary file and a rename, with limits on their number and size. Every operation is translated
  with its system calls in their order, so each may fail at each of them.
\<close>

section \<open>State\<close>

definition DefaultMaxRecords :: int where "DefaultMaxRecords = 100"
definition DefaultMaxBytes :: int where "DefaultMaxBytes = 5 * 1024 * 1024"

record Store =
  st_dir :: string
  st_maxRecords :: int
  st_maxBytes :: int
  st_audit :: "Writer option"

record StoreOptions =
  so_Dir :: string
  so_MaxRecords :: int
  so_MaxBytes :: int
  so_Audit :: "Writer option"

section \<open>Files\<close>

definition store_path :: "Store \<Rightarrow> string \<Rightarrow> path" where
  "store_path s recordID = path_join (st_dir s) (recordID @ ''.json'')"

text \<open>readRecordFile after the file is read.\<close>

definition decode_record :: "golib \<Rightarrow> string \<Rightarrow> outbox_error + Record" where
  "decode_record L data =
     (case lib_parse L data of
        None \<Rightarrow> Inl UnmarshalFailed
      | Some j \<Rightarrow>
          (case unmarshal_Record L j of
             None \<Rightarrow> Inl UnmarshalFailed
           | Some r \<Rightarrow>
               if rec_RecordID r = [] \<or> rec_CommandID r = [] \<or> env_Type (rec_Envelope r) \<noteq> MessageTypeResult
               then Inl InvalidRecord else Inr r))"

definition readRecordFile :: "golib \<Rightarrow> path \<Rightarrow> world \<Rightarrow> (outbox_error + Record) \<times> world" where
  "readRecordFile L p w =
     (let (r, w) = os_ReadFile p w
      in ((case r of Inl e \<Rightarrow> Inl (FileError e) | Inr data \<Rightarrow> decode_record L data), w))"

definition syncDir :: "world \<Rightarrow> world" where
  "syncDir w =
     (let (e, w) = sys_unit w
      in if e \<noteq> None then w else let (_, w) = sys_unit w; (_, w) = sys_unit w in w)"

definition file_error :: "os_error \<Rightarrow> outbox_error option" where
  "file_error e = Some (FileError e)"

definition tmp_path :: "path \<Rightarrow> path" where
  "tmp_path p = path_append p ''.tmp''"

text \<open>The part of writeRecordAtomic after json.MarshalIndent.\<close>

definition write_file_atomic :: "path \<Rightarrow> string \<Rightarrow> world \<Rightarrow> outbox_error option \<times> world" where
  "write_file_atomic finalPath data w =
     (let tmpPath = tmp_path finalPath;
          (e, w) = os_OpenTrunc tmpPath 384 w
      in (case e of
            Some err \<Rightarrow> (file_error err, w)
          | None \<Rightarrow>
              (let (e, w) = file_Write tmpPath data w
               in (case e of
                     Some err \<Rightarrow> (file_error err, snd (sys_unit w))
                   | None \<Rightarrow>
                       (let (e, w) = sys_unit w
                        in (case e of
                              Some err \<Rightarrow> (file_error err, snd (sys_unit w))
                            | None \<Rightarrow>
                                (let (e, w) = sys_unit w
                                 in (case e of
                                       Some err \<Rightarrow> (file_error err, w)
                                     | None \<Rightarrow>
                                         (let (e, w) = os_Rename tmpPath finalPath w
                                          in (case e of
                                                Some err \<Rightarrow> (file_error err, w)
                                              | None \<Rightarrow> (None, syncDir w)))))))))))"

definition writeRecordAtomic :: "golib \<Rightarrow> Store \<Rightarrow> Record \<Rightarrow> world \<Rightarrow> outbox_error option \<times> world" where
  "writeRecordAtomic L s r w =
     (case marshal_Record L r of
        None \<Rightarrow> (Some MarshalFailed, w)
      | Some j \<Rightarrow> write_file_atomic (store_path s (rec_RecordID r)) (lib_marshal_indent L j) w)"

section \<open>Listing\<close>

text \<open>The loop of listLocked; an entry that cannot be read is skipped.\<close>

fun list_entries :: "golib \<Rightarrow> Store \<Rightarrow> (string \<times> node) list \<Rightarrow> world \<Rightarrow> Record list \<times> world" where
  "list_entries L s [] w = ([], w)"
| "list_entries L s ((name, nd) # entries) w =
     (if nd = FDir \<or> \<not> HasSuffix name ''.json'' then list_entries L s entries w
      else let (r, w) = readRecordFile L (path_join (st_dir s) name) w;
               (rs, w) = list_entries L s entries w
           in ((case r of Inl _ \<Rightarrow> rs | Inr r \<Rightarrow> r # rs), w))"

text \<open>sort.Slice by the time of creation; records of one instant keep the order of their names.\<close>

definition listLocked :: "golib \<Rightarrow> Store \<Rightarrow> world \<Rightarrow> (outbox_error + Record list) \<times> world" where
  "listLocked L s w =
     (let (r, w) = os_ReadDir (clean_path (st_dir s)) w
      in (case r of
            Inl e \<Rightarrow> (Inl (FileError e), w)
          | Inr entries \<Rightarrow>
              (let (records, w) = list_entries L s entries w in (Inr (sort_key rec_CreatedAt records), w))))"

definition node_size :: "node \<Rightarrow> int" where
  "node_size nd = (case nd of FDir \<Rightarrow> 0 | FFile m b \<Rightarrow> int (length b))"

fun total_size :: "Store \<Rightarrow> Record list \<Rightarrow> world \<Rightarrow> int \<times> world" where
  "total_size s [] w = (0, w)"
| "total_size s (r # rs) w =
     (let (info, w) = os_Stat (store_path s (rec_RecordID r)) w;
          (total, w) = total_size s rs w
      in ((case info of Inl _ \<Rightarrow> total | Inr nd \<Rightarrow> node_size nd + total), w))"

definition snapshotLocked :: "golib \<Rightarrow> Store \<Rightarrow> world \<Rightarrow> (outbox_error + Record list \<times> int) \<times> world" where
  "snapshotLocked L s w =
     (let (r, w) = listLocked L s w
      in (case r of
            Inl e \<Rightarrow> (Inl e, w)
          | Inr records \<Rightarrow> (let (total, w) = total_size s records w in (Inr (records, total), w))))"

section \<open>Limits\<close>

text \<open>
  The loop of enforceLimitsLocked has no bound of its own: \<^const>\<open>None\<close> stands for a call that
  does not return.
\<close>

partial_function (option) enforceLimitsLocked :: "golib \<Rightarrow> Store \<Rightarrow> world \<Rightarrow> (outbox_error option \<times> world) option" where
  "enforceLimitsLocked L s w =
     (let (r, w) = snapshotLocked L s w
      in (case r of
            Inl e \<Rightarrow> Some (Some e, w)
          | Inr (records, totalBytes) \<Rightarrow>
              if int (length records) \<le> st_maxRecords s \<and> totalBytes \<le> st_maxBytes s then Some (None, w)
              else (case records of
                      [] \<Rightarrow> Some (None, w)
                    | oldest # _ \<Rightarrow>
                        (let (e, w) = os_Remove (store_path s (rec_RecordID oldest)) w
                         in if e = Some ErrIO then Some (Some (FileError ErrIO), w)
                            else enforceLimitsLocked L s
                                   (writeAudit L (st_audit s)
                                     (zero_Event\<lparr>ev_Event := EventOutboxRecordDropped, ev_RecordID := rec_RecordID oldest,
                                        ev_CommandID := rec_CommandID oldest, ev_Attempts := rec_Attempts oldest,
                                        ev_ErrorCode := ''outbox_limit''\<rparr>) w)))))"

section \<open>Operations\<close>

fun load_entries :: "golib \<Rightarrow> Store \<Rightarrow> (string \<times> node) list \<Rightarrow> world \<Rightarrow> world" where
  "load_entries L s [] w = w"
| "load_entries L s ((name, nd) # entries) w =
     (let p = path_join (st_dir s) name
      in if nd = FDir then load_entries L s entries w
         else if HasSuffix name ''.tmp'' then load_entries L s entries (snd (os_Remove p w))
         else if \<not> HasSuffix name ''.json'' then load_entries L s entries w
         else let (r, w) = readRecordFile L p w
              in if is_ok r then load_entries L s entries w
                 else let w = snd (os_Rename p (path_append p ''.bad'') w);
                          w = writeAudit L (st_audit s)
                                (zero_Event\<lparr>ev_Event := EventOutboxRecordCorrupted,
                                   ev_RecordID := TrimSuffix name ''.json'', ev_ErrorCode := ''corrupted_record''\<rparr>) w
                      in load_entries L s entries w)"

definition Load :: "golib \<Rightarrow> Store \<Rightarrow> world \<Rightarrow> outbox_error option \<times> world" where
  "Load L s w =
     (let (e, w) = os_MkdirAll (clean_path (st_dir s)) w
      in (case e of
            Some err \<Rightarrow> (Some (MkdirFailed err), w)
          | None \<Rightarrow>
              (let (r, w) = os_ReadDir (clean_path (st_dir s)) w
               in (case r of
                     Inl err \<Rightarrow> (Some (ReadDirFailed err), w)
                   | Inr entries \<Rightarrow> (None, load_entries L s entries w)))))"

definition NewStore :: "golib \<Rightarrow> StoreOptions \<Rightarrow> world \<Rightarrow> (outbox_error + Store) \<times> world" where
  "NewStore L opts w =
     (if TrimSpace (so_Dir opts) = [] then (Inl DirRequired, w)
      else let s = \<lparr>st_dir = so_Dir opts,
                    st_maxRecords = (if so_MaxRecords opts \<le> 0 then DefaultMaxRecords else so_MaxRecords opts),
                    st_maxBytes = (if so_MaxBytes opts \<le> 0 then DefaultMaxBytes else so_MaxBytes opts),
                    st_audit = so_Audit opts\<rparr>;
               (e, w) = Load L s w
           in (case e of Some err \<Rightarrow> (Inl err, w) | None \<Rightarrow> (Inr s, w)))"

text \<open>A record that is saved again keeps when it was created and how its sending went.\<close>

definition keep_history :: "Record \<Rightarrow> outbox_error + Record \<Rightarrow> Record" where
  "keep_history r old =
     (case old of
        Inl _ \<Rightarrow> r
      | Inr prev \<Rightarrow> r\<lparr>rec_CreatedAt := rec_CreatedAt prev, rec_Attempts := rec_Attempts prev,
                  rec_LastError := rec_LastError prev, rec_NextRetryAt := rec_NextRetryAt prev\<rparr>)"

definition Save :: "golib \<Rightarrow> Store \<Rightarrow> Envelope \<Rightarrow> world \<Rightarrow> ((outbox_error + Record) \<times> world) option" where
  "Save L s env w =
     (let (now, w) = time_Now w
      in (case NewRecord L env now of
            Inl e \<Rightarrow> Some (Inl e, w)
          | Inr fresh \<Rightarrow>
              (let (old, w) = readRecordFile L (store_path s (rec_RecordID fresh)) w;
                   r = keep_history fresh old;
                   (e, w) = writeRecordAtomic L s r w
               in (case e of
                     Some err \<Rightarrow> Some (Inl err, w)
                   | None \<Rightarrow>
                       (let w = writeAudit L (st_audit s)
                                  (zero_Event\<lparr>ev_Event := EventOutboxRecordSaved, ev_RecordID := rec_RecordID r,
                                     ev_CommandID := rec_CommandID r, ev_Attempts := rec_Attempts r\<rparr>) w
                        in (case enforceLimitsLocked L s w of
                              None \<Rightarrow> None
                            | Some (Some err, w) \<Rightarrow> Some (Inl err, w)
                            | Some (None, w) \<Rightarrow> Some (Inr r, w)))))))"

fun due_loop :: "time \<Rightarrow> int \<Rightarrow> Record list \<Rightarrow> Record list \<Rightarrow> Record list" where
  "due_loop now limit due [] = due"
| "due_loop now limit due (r # rs) =
     (if time_IsZero (rec_NextRetryAt r) \<or> \<not> rec_NextRetryAt r > now
      then let due = due @ [r]
           in if limit > 0 \<and> int (length due) \<ge> limit then due else due_loop now limit due rs
      else due_loop now limit due rs)"

definition Due :: "golib \<Rightarrow> Store \<Rightarrow> time \<Rightarrow> int \<Rightarrow> world \<Rightarrow> (outbox_error + Record list) \<times> world" where
  "Due L s now limit w =
     (let (r, w) = listLocked L s w
      in ((case r of Inl e \<Rightarrow> Inl e | Inr records \<Rightarrow> Inr (due_loop now limit [] records)), w))"

definition All :: "golib \<Rightarrow> Store \<Rightarrow> world \<Rightarrow> (outbox_error + Record list) \<times> world" where
  "All L s w = listLocked L s w"

definition PendingCount :: "golib \<Rightarrow> Store \<Rightarrow> world \<Rightarrow> int \<times> world" where
  "PendingCount L s w =
     (let (r, w) = listLocked L s w in ((case r of Inl _ \<Rightarrow> 0 | Inr records \<Rightarrow> int (length records)), w))"

text \<open>The loop of retryDelay.\<close>

function retry_loop :: "int \<Rightarrow> int \<Rightarrow> duration \<Rightarrow> duration" where
  "retry_loop i attempts delay =
     (if i < attempts
      then let delay = delay * 2 in if delay \<ge> Minute then Minute else retry_loop (i + 1) attempts delay
      else delay)"
  by pat_completeness auto
termination
  by (relation "measure (\<lambda>(i, attempts, _). nat (attempts - i))") auto

declare retry_loop.simps [simp del]

definition retryDelay :: "int \<Rightarrow> duration" where
  "retryDelay attempts = (if attempts \<le> 0 then 5 * Second else retry_loop 1 attempts (5 * Second))"

definition retryJitter :: "duration \<Rightarrow> world \<Rightarrow> duration \<times> world" where
  "retryJitter delay w =
     (if delay \<le> 0 then (0, w)
      else let spread = quot delay 5
           in if spread \<le> 0 then (0, w)
              else let (r, w) = rand_Int (spread * 2 + 1) w
                   in ((case r of None \<Rightarrow> 0 | Some n \<Rightarrow> n - spread), w))"

definition shortError :: "string option \<Rightarrow> string" where
  "shortError err = (case err of None \<Rightarrow> [] | Some msg \<Rightarrow> if length msg > 200 then take 200 msg else msg)"

definition MarkFailure :: "golib \<Rightarrow> Store \<Rightarrow> string \<Rightarrow> string option \<Rightarrow> world \<Rightarrow> (outbox_error + Record) \<times> world" where
  "MarkFailure L s recordID sendErr w =
     (let (r, w) = readRecordFile L (store_path s recordID) w
      in (case r of
            Inl e \<Rightarrow> (Inl e, w)
          | Inr r \<Rightarrow>
              (let attempts = wrap64 (rec_Attempts r + 1);
                   (now, w) = time_Now w;
                   delay = retryDelay attempts;
                   (jitter, w) = retryJitter delay w;
                   r = r\<lparr>rec_Attempts := attempts, rec_UpdatedAt := now, rec_LastError := shortError sendErr,
                         rec_NextRetryAt := now + (delay + jitter)\<rparr>;
                   (e, w) = writeRecordAtomic L s r w
               in (case e of Some err \<Rightarrow> (Inl err, w) | None \<Rightarrow> (Inr r, w)))))"

definition Delete :: "golib \<Rightarrow> Store \<Rightarrow> string \<Rightarrow> world \<Rightarrow> outbox_error option \<times> world" where
  "Delete L s recordID w =
     (let (r, w) = readRecordFile L (store_path s recordID) w;
          (e, w) = os_Remove (store_path s recordID) w
      in if e = Some ErrIO then (Some (FileError ErrIO), w)
         else (None, writeAudit L (st_audit s)
                 (zero_Event\<lparr>ev_Event := EventOutboxRecordDeleted, ev_RecordID := recordID,
                    ev_CommandID := (case r of Inl _ \<Rightarrow> [] | Inr r \<Rightarrow> rec_CommandID r)\<rparr>) w))"

end
