(* ===== verification/Outbox_Files.thy ===== *)
theory Outbox_Files
  imports Outbox
begin

text \<open>
  The outbox directory as a map from record ids to records: what each system call and each helper of
  the store does to it, with and without failures, and the invariant that every record lies in the
  file of its own id.
\<close>

section \<open>System calls and files\<close>

lemma os_OpenTrunc_fs:
  "fst (os_OpenTrunc p m w) = None \<Longrightarrow> \<exists>m'. w_fs (snd (os_OpenTrunc p m w)) = map_put p (FFile m' []) (w_fs w)"
  "fst (os_OpenTrunc p m w) \<noteq> None \<Longrightarrow> w_fs (snd (os_OpenTrunc p m w)) = w_fs w"
  by (auto simp: os_OpenTrunc_def sys_call_def Let_def split: option.splits node.splits if_splits)

lemma file_Write_fs:
  assumes "map_of (w_fs w) p = Some (FFile m b)"
  shows "fst (file_Write p d w) = None \<Longrightarrow> w_fs (snd (file_Write p d w)) = map_put p (FFile m (b @ d)) (w_fs w)"
    and "\<exists>c. w_fs (snd (file_Write p d w)) = map_put p (FFile m c) (w_fs w)"
  using assms by (auto simp: file_Write_def sys_call_def Let_def split: option.splits)

lemma os_Rename_fs:
  "fst (os_Rename p q w) = None \<Longrightarrow>
     \<exists>n. map_of (w_fs w) p = Some n \<and> w_fs (snd (os_Rename p q w)) = map_put q n (map_del p (w_fs w))"
  "fst (os_Rename p q w) \<noteq> None \<Longrightarrow> w_fs (snd (os_Rename p q w)) = w_fs w"
  by (auto simp: os_Rename_def sys_call_def Let_def split: option.splits node.splits if_splits)

lemma os_Remove_fs:
  "fst (os_Remove p w) = None \<Longrightarrow> w_fs (snd (os_Remove p w)) = map_del p (w_fs w)"
  "fst (os_Remove p w) \<noteq> None \<Longrightarrow> w_fs (snd (os_Remove p w)) = w_fs w"
  by (auto simp: os_Remove_def sys_call_def Let_def split: option.splits node.splits if_splits)

lemma os_Remove_file:
  "map_of (w_fs w) p = Some (FFile m b) \<Longrightarrow> fst (os_Remove p w) = None \<or> fst (os_Remove p w) = Some ErrIO"
  by (auto simp: os_Remove_def sys_call_def Let_def split: option.splits)

text \<open>Without failures, each call answers what the files say.\<close>

lemma no_fault_calls:
  assumes "no_faults w"
  shows "fst (os_ReadFile p w) = (case map_of (w_fs w) p of None \<Rightarrow> Inl ErrNotExist | Some FDir \<Rightarrow> Inl ErrIO | Some (FFile m b) \<Rightarrow> Inr b)"
    and "map_of (w_fs w) p = Some FDir \<Longrightarrow> fst (os_ReadDir p w) = Inr (sort_key fst (children (w_fs w) p))"
    and "fst (os_Stat p w) = (case map_of (w_fs w) p of None \<Rightarrow> Inl ErrNotExist | Some n \<Rightarrow> Inr n)"
    and "map_of (w_fs w) p = Some (FFile m b) \<Longrightarrow> fst (os_Remove p w) = None"
    and "fst (sys_unit w) = None"
  using assms by (auto simp: no_faults_def sys_defs Let_def split: option.splits node.splits)

lemma no_faults_frame:
  "no_faults (snd (os_ReadFile p w)) = no_faults w" "no_faults (snd (os_ReadDir p w)) = no_faults w"
  "no_faults (snd (os_Stat p w)) = no_faults w" "no_faults (snd (os_Remove p w)) = no_faults w"
  "no_faults (snd (os_Rename p q w)) = no_faults w" "no_faults (snd (os_OpenTrunc p m w)) = no_faults w"
  "no_faults (snd (file_Write p d w)) = no_faults w" "no_faults (snd (sys_unit w)) = no_faults w"
  "no_faults (snd (time_Now w)) = no_faults w" "no_faults (writeAudit L wr e w) = no_faults w"
  "no_faults (snd (rand_Int b w)) = no_faults w" "no_faults (snd (os_MkdirAll p w)) = no_faults w"
  by (simp_all add: no_faults_def frame_simps)

section \<open>Writing a file\<close>

lemma syncDir_frame [frame_simps]:
  "w_fs (syncDir w) = w_fs w" "w_fault (syncDir w) = w_fault w" "w_execs (syncDir w) = w_execs w"
  "w_audit (syncDir w) = w_audit w"
  by (simp_all add: syncDir_def split_beta Let_def frame_simps)

lemmas write_steps = os_OpenTrunc_fs file_Write_fs os_Rename_fs

text \<open>
  Whatever fails, the file is the old one or the whole new one, and no other file but the temporary
  one is touched; on success it is the new one and the temporary one is gone.
\<close>

lemma write_file_atomic_fs:
  assumes ne: "tmp_path p \<noteq> p"
  shows "q \<noteq> p \<Longrightarrow> q \<noteq> tmp_path p \<Longrightarrow> map_of (w_fs (snd (write_file_atomic p d w))) q = map_of (w_fs w) q"
    and "fst (write_file_atomic p d w) \<noteq> None \<Longrightarrow> map_of (w_fs (snd (write_file_atomic p d w))) p = map_of (w_fs w) p"
    and "fst (write_file_atomic p d w) = None \<Longrightarrow> \<exists>m. map_of (w_fs (snd (write_file_atomic p d w))) p = Some (FFile m d)"
    and "fst (write_file_atomic p d w) = None \<Longrightarrow> map_of (w_fs (snd (write_file_atomic p d w))) (tmp_path p) = None"
    and "wf_map (w_fs w) \<Longrightarrow> wf_map (w_fs (snd (write_file_atomic p d w)))"
proof -
  define w1 where "w1 = snd (os_OpenTrunc (tmp_path p) 384 w)"
  define w2 where "w2 = snd (file_Write (tmp_path p) d w1)"
  define w3 where "w3 = snd (sys_unit w2)"
  define w4 where "w4 = snd (sys_unit w3)"
  define w5 where "w5 = snd (os_Rename (tmp_path p) p w4)"
  define e1 where "e1 = fst (os_OpenTrunc (tmp_path p) 384 w)"
  define e2 where "e2 = fst (file_Write (tmp_path p) d w1)"
  define e5 where "e5 = fst (os_Rename (tmp_path p) p w4)"
  have fe: "file_error x \<noteq> None" for x by (simp add: file_error_def)
  have eq: "write_file_atomic p d w =
      (case e1 of Some e \<Rightarrow> (file_error e, w1) | None \<Rightarrow>
       (case e2 of Some e \<Rightarrow> (file_error e, w3) | None \<Rightarrow>
        (case fst (sys_unit w2) of Some e \<Rightarrow> (file_error e, w4) | None \<Rightarrow>
         (case fst (sys_unit w3) of Some e \<Rightarrow> (file_error e, w4) | None \<Rightarrow>
          (case e5 of Some e \<Rightarrow> (file_error e, w5) | None \<Rightarrow> (None, syncDir w5))))))"
    by (simp add: write_file_atomic_def w1_def w2_def w3_def w4_def w5_def e1_def e2_def e5_def split_beta Let_def
        split: option.split)
  have f34: "w_fs w3 = w_fs w2" "w_fs w4 = w_fs w2" by (simp_all add: w3_def w4_def frame_simps)
  have step1: "if e1 = None then \<exists>m. w_fs w1 = map_put (tmp_path p) (FFile m []) (w_fs w) else w_fs w1 = w_fs w"
    using os_OpenTrunc_fs [of "tmp_path p" 384 w] by (auto simp: e1_def w1_def)
  have step2: "e1 = None \<Longrightarrow> \<exists>m c. w_fs w2 = map_put (tmp_path p) (FFile m c) (w_fs w1) \<and> (e2 = None \<longrightarrow> c = d)"
  proof -
    assume "e1 = None"
    then obtain m where "w_fs w1 = map_put (tmp_path p) (FFile m []) (w_fs w)" using step1 by auto
    then have "map_of (w_fs w1) (tmp_path p) = Some (FFile m [])" by simp
    from file_Write_fs [OF this, of d] show ?thesis by (cases e2) (auto simp: w2_def e2_def)
  qed
  have step5: "if e5 = None then \<exists>n. map_of (w_fs w2) (tmp_path p) = Some n \<and> w_fs w5 = map_put p n (map_del (tmp_path p) (w_fs w2))
      else w_fs w5 = w_fs w2"
    using os_Rename_fs [of "tmp_path p" p w4] by (auto simp: e5_def w5_def f34)
  have states: "w_fs (snd (write_file_atomic p d w)) = w_fs w \<and> fst (write_file_atomic p d w) \<noteq> None \<or>
      (\<exists>m c. w_fs (snd (write_file_atomic p d w)) = map_put (tmp_path p) (FFile m c) (w_fs w)) \<and>
        fst (write_file_atomic p d w) \<noteq> None \<or>
      (\<exists>m. w_fs (snd (write_file_atomic p d w)) =
          map_put p (FFile m d) (map_del (tmp_path p) (map_put (tmp_path p) (FFile m d) (w_fs w)))) \<and>
        fst (write_file_atomic p d w) = None"
    using step1 step2 step5
    by (cases e1; cases e2; cases "fst (sys_unit w2)"; cases "fst (sys_unit w3)"; cases e5)
       (auto simp: eq f34 fe syncDir_frame, blast+)
  show "q \<noteq> p \<Longrightarrow> q \<noteq> tmp_path p \<Longrightarrow> map_of (w_fs (snd (write_file_atomic p d w))) q = map_of (w_fs w) q"
    using states by auto
  show "fst (write_file_atomic p d w) \<noteq> None \<Longrightarrow> map_of (w_fs (snd (write_file_atomic p d w))) p = map_of (w_fs w) p"
    using states ne by auto
  show "fst (write_file_atomic p d w) = None \<Longrightarrow> \<exists>m. map_of (w_fs (snd (write_file_atomic p d w))) p = Some (FFile m d)"
    using states by auto
  show "fst (write_file_atomic p d w) = None \<Longrightarrow> map_of (w_fs (snd (write_file_atomic p d w))) (tmp_path p) = None"
    using states ne by auto
  show "wf_map (w_fs w) \<Longrightarrow> wf_map (w_fs (snd (write_file_atomic p d w)))"
    using states by auto
qed

section \<open>The directory as a map\<close>

abbreviation store_dir :: "Store \<Rightarrow> path" where
  "store_dir s \<equiv> clean_path (st_dir s)"

text \<open>The record a file holds, the record of an id, and the records as the store lists them.\<close>

definition file_record :: "golib \<Rightarrow> (path \<times> node) list \<Rightarrow> path \<Rightarrow> Record option" where
  "file_record L fs p =
     (case map_of fs p of
        Some (FFile m b) \<Rightarrow> (case decode_record L b of Inl _ \<Rightarrow> None | Inr r \<Rightarrow> Some r)
      | _ \<Rightarrow> None)"

definition stored :: "golib \<Rightarrow> Store \<Rightarrow> (path \<times> node) list \<Rightarrow> string \<Rightarrow> Record option" where
  "stored L s fs k = (if CHR ''/'' \<in> set k then None else file_record L fs (store_path s k))"

definition entry_record :: "golib \<Rightarrow> Store \<Rightarrow> (path \<times> node) list \<Rightarrow> string \<times> node \<Rightarrow> Record option" where
  "entry_record L s fs e =
     (if snd e = FDir \<or> \<not> HasSuffix (fst e) ''.json'' then None else file_record L fs (path_join (st_dir s) (fst e)))"

definition pending :: "golib \<Rightarrow> Store \<Rightarrow> (path \<times> node) list \<Rightarrow> Record list" where
  "pending L s fs =
     sort_key rec_CreatedAt (List.map_filter (entry_record L s fs) (sort_key fst (children fs (store_dir s))))"

text \<open>The invariant: a directory whose names are single components and whose records lie under their ids.\<close>

definition entry_ok :: "golib \<Rightarrow> Store \<Rightarrow> path \<times> node \<Rightarrow> bool" where
  "entry_ok L s = (\<lambda>(p, nd). snd p \<noteq> [] \<longrightarrow> simple_name (last (snd p)) \<and>
     (path_parent p = store_dir s \<and> HasSuffix (last (snd p)) ''.json'' \<longrightarrow>
       (case nd of
          FDir \<Rightarrow> True
        | FFile m b \<Rightarrow> (case decode_record L b of Inl _ \<Rightarrow> True | Inr r \<Rightarrow> rec_RecordID r @ ''.json'' = last (snd p)))))"

definition outbox_ok :: "golib \<Rightarrow> Store \<Rightarrow> (path \<times> node) list \<Rightarrow> bool" where
  "outbox_ok L s fs \<longleftrightarrow> st_dir s \<noteq> [] \<and> wf_map fs \<and> map_of fs (store_dir s) = Some FDir \<and> list_all (entry_ok L s) fs"

lemma json_name_simple: "CHR ''/'' \<notin> set k \<Longrightarrow> simple_name (k @ ''.json'')"
  by (auto simp: simple_name_def append_eq_Cons_conv)

lemma json_tmp_name_simple: "CHR ''/'' \<notin> set k \<Longrightarrow> simple_name (k @ ''.json.tmp'')"
  by (auto simp: simple_name_def append_eq_Cons_conv)

lemma store_path_eq:
  "st_dir s \<noteq> [] \<Longrightarrow> CHR ''/'' \<notin> set k \<Longrightarrow> store_path s k = (fst (store_dir s), snd (store_dir s) @ [k @ ''.json''])"
  by (simp add: store_path_def path_join_simple json_name_simple)

lemma tmp_path_eq:
  "st_dir s \<noteq> [] \<Longrightarrow> CHR ''/'' \<notin> set k \<Longrightarrow>
     tmp_path (store_path s k) = (fst (store_dir s), snd (store_dir s) @ [k @ ''.json.tmp''])"
  by (simp add: store_path_eq tmp_path_def path_append_def)

lemma tmp_not_store_path:
  assumes "st_dir s \<noteq> []" and "CHR ''/'' \<notin> set k" and "CHR ''/'' \<notin> set l"
  shows "store_path s k \<noteq> tmp_path (store_path s l)" and "tmp_path (store_path s l) \<noteq> store_path s k"
proof -
  have "k @ ''.json'' \<noteq> l @ ''.json.tmp''"
  proof
    assume "k @ ''.json'' = l @ ''.json.tmp''"
    then have "last (k @ ''.json'') = last (l @ ''.json.tmp'')" by (simp only:)
    then show False by simp
  qed
  then show "store_path s k \<noteq> tmp_path (store_path s l)" "tmp_path (store_path s l) \<noteq> store_path s k"
    unfolding tmp_path_eq [OF assms(1,3)] using assms by (auto simp: store_path_eq)
qed

lemma store_path_inj:
  "st_dir s \<noteq> [] \<Longrightarrow> CHR ''/'' \<notin> set k \<Longrightarrow> CHR ''/'' \<notin> set l \<Longrightarrow> store_path s k = store_path s l \<longleftrightarrow> k = l"
  by (simp add: store_path_eq)

lemma store_path_not_dir: "st_dir s \<noteq> [] \<Longrightarrow> CHR ''/'' \<notin> set k \<Longrightarrow> store_path s k \<noteq> store_dir s"
  by (auto simp: store_path_eq prod_eq_iff)

lemma tmp_path_not_dir: "st_dir s \<noteq> [] \<Longrightarrow> CHR ''/'' \<notin> set k \<Longrightarrow> tmp_path (store_path s k) \<noteq> store_dir s"
  unfolding tmp_path_eq by (auto simp: prod_eq_iff)

lemma store_path_entry:
  "st_dir s \<noteq> [] \<Longrightarrow> CHR ''/'' \<notin> set k \<Longrightarrow> snd (store_path s k) \<noteq> [] \<and> last (snd (store_path s k)) = k @ ''.json'' \<and>
     path_parent (store_path s k) = store_dir s"
  by (simp add: store_path_eq path_parent_def)

text \<open>A record that is stored is stored under its own id.\<close>

lemma stored_id:
  assumes ok: "outbox_ok L s fs" and r: "stored L s fs k = Some r"
  shows "rec_RecordID r = k" and "CHR ''/'' \<notin> set k"
proof -
  show k: "CHR ''/'' \<notin> set k" using r by (auto simp: stored_def split: if_splits)
  obtain m b where f: "map_of fs (store_path s k) = Some (FFile m b)" and d: "decode_record L b = Inr r"
    using r by (auto simp: stored_def file_record_def split: if_splits option.splits node.splits sum.splits)
  have "entry_ok L s (store_path s k, FFile m b)"
    using ok map_of_SomeD [OF f] by (auto simp: outbox_ok_def list_all_iff)
  then show "rec_RecordID r = k"
    using store_path_entry [of s k] ok k d by (auto simp: entry_ok_def outbox_ok_def suffix_def)
qed

lemma stored_nonempty: "stored L s fs k = Some r \<Longrightarrow> rec_RecordID r \<noteq> [] \<and> rec_CommandID r \<noteq> [] \<and> env_Type (rec_Envelope r) = MessageTypeResult"
  by (auto simp: stored_def file_record_def decode_record_def split: if_splits option.splits node.splits sum.splits)

text \<open>The entries of the directory are the files of the ids.\<close>

lemma children_path:
  assumes "(n, nd) \<in> set (children fs d)"
  obtains q where "(q, nd) \<in> set fs" and "snd q \<noteq> []" and "path_parent q = d" and "n = last (snd q)"
  using assms by (auto simp: children_def)

lemma children_mem: "(q, nd) \<in> set fs \<Longrightarrow> snd q \<noteq> [] \<Longrightarrow> (last (snd q), nd) \<in> set (children fs (path_parent q))"
  by (force simp: children_def)

lemma children_simple:
  assumes "outbox_ok L s fs" and "(n, nd) \<in> set (children fs d)"
  shows "simple_name n"
proof -
  obtain q where q: "(q, nd) \<in> set fs" "snd q \<noteq> []" "n = last (snd q)"
    using assms(2) by (rule children_path)
  have "entry_ok L s (q, nd)" using assms(1) q(1) by (simp add: outbox_ok_def list_all_iff)
  then show ?thesis using q by (simp add: entry_ok_def)
qed

lemma entry_record_stored:
  assumes ok: "outbox_ok L s fs" and e: "(n, nd) \<in> set (children fs (store_dir s))"
    and r: "entry_record L s fs (n, nd) = Some r"
  shows "stored L s fs (rec_RecordID r) = Some r" and "n = rec_RecordID r @ ''.json''"
proof -
  obtain q where q: "(q, nd) \<in> set fs" "snd q \<noteq> []" "path_parent q = store_dir s" "n = last (snd q)"
    using e by (rule children_path)
  have sn: "simple_name n" by (rule children_simple [OF ok e])
  from r obtain k where k: "n = k @ ''.json''" by (auto simp: entry_record_def suffix_def split: if_splits)
  have ks: "CHR ''/'' \<notin> set k" using sn k by (simp add: simple_name_def)
  have st: "stored L s fs k = Some r"
    using r ks by (simp add: entry_record_def stored_def store_path_def k split: if_splits)
  then show "stored L s fs (rec_RecordID r) = Some r" "n = rec_RecordID r @ ''.json''"
    using stored_id [OF ok st] k by simp_all
qed

lemma stored_entry:
  assumes ok: "outbox_ok L s fs" and r: "stored L s fs k = Some r"
  shows "\<exists>nd. (k @ ''.json'', nd) \<in> set (children fs (store_dir s)) \<and> entry_record L s fs (k @ ''.json'', nd) = Some r"
proof -
  have k: "CHR ''/'' \<notin> set k" using stored_id [OF ok r] by simp
  obtain m b where f: "map_of fs (store_path s k) = Some (FFile m b)"
    using r by (auto simp: stored_def file_record_def split: if_splits option.splits node.splits)
  have "(k @ ''.json'', FFile m b) \<in> set (children fs (store_dir s))"
    using children_mem [OF map_of_SomeD [OF f]] store_path_entry [of s k] ok k by (auto simp: outbox_ok_def)
  moreover have "entry_record L s fs (k @ ''.json'', FFile m b) = Some r"
    using r k by (simp add: entry_record_def stored_def store_path_def suffixI [OF refl])
  ultimately show ?thesis by blast
qed

lemma set_map_filter: "set (List.map_filter f xs) = {y. \<exists>x \<in> set xs. f x = Some y}"
  by (force simp: List.map_filter_def)

lemma set_pending: "outbox_ok L s fs \<Longrightarrow> set (pending L s fs) = {r. \<exists>k. stored L s fs k = Some r}"
  using entry_record_stored stored_entry by (fastforce simp: pending_def set_map_filter)

lemma distinct_map_filter_key:
  assumes "distinct (map fst xs)" and "\<And>x y. x \<in> set xs \<Longrightarrow> f x = Some y \<Longrightarrow> g y = fst x"
  shows "distinct (map g (List.map_filter f xs))"
  using assms
proof (induction xs)
  case (Cons x xs)
  show ?case
  proof (cases "f x")
    case None
    then show ?thesis using Cons by (simp add: List.map_filter_simps)
  next
    case (Some y)
    have "g y \<notin> g ` set (List.map_filter f xs)"
    proof
      assume "g y \<in> g ` set (List.map_filter f xs)"
      then obtain x' y' where "x' \<in> set xs" "f x' = Some y'" "g y = g y'" by (auto simp: set_map_filter)
      then have "fst x = fst x'" using Cons.prems(2) Some by (metis list.set_intros)
      then show False using Cons.prems(1) \<open>x' \<in> set xs\<close> by auto
    qed
    then show ?thesis using Cons Some by (simp add: List.map_filter_simps)
  qed
qed (simp add: List.map_filter_simps)

lemma distinct_children: "wf_map fs \<Longrightarrow> distinct (map fst (children fs d))"
proof -
  assume wf: "wf_map fs"
  have "distinct (map (\<lambda>e. last (snd (fst e))) (filter (\<lambda>(q, nd). snd q \<noteq> [] \<and> path_parent q = d) fs))"
  proof (rule distinct_map [THEN iffD2], intro conjI)
    show "distinct (filter (\<lambda>(q, nd). snd q \<noteq> [] \<and> path_parent q = d) fs)"
      using wf by (simp add: distinct_map distinct_filter)
    show "inj_on (\<lambda>e. last (snd (fst e))) (set (filter (\<lambda>(q, nd). snd q \<noteq> [] \<and> path_parent q = d) fs))"
    proof (rule inj_onI, clarsimp)
      fix a b n a' b' n'
      assume "((a, b), n) \<in> set fs" "((a', b'), n') \<in> set fs" "b \<noteq> []" "b' \<noteq> []"
        "d = path_parent (a, b)" "path_parent (a', b') = path_parent (a, b)" "last b = last b'"
      moreover from this have "(a, b) = (a', b')"
        by (metis append_butlast_last_id fst_conv path_parent_def snd_conv prod.inject)
      ultimately show "a = a' \<and> b = b' \<and> n = n'" using wf by (metis eq_key_imp_eq_value prod.inject)
    qed
  qed
  then show "distinct (map fst (children fs d))"
    by (simp add: children_def comp_def case_prod_beta)
qed

lemma distinct_sort_key_fst: "distinct (map fst xs) \<Longrightarrow> distinct (map fst (sort_key f xs))"
  by (metis distinct_map distinct_sort set_sort)

lemma distinct_pending_ids: "outbox_ok L s fs \<Longrightarrow> distinct (map rec_RecordID (pending L s fs))"
proof -
  assume ok: "outbox_ok L s fs"
  let ?es = "sort_key fst (children fs (store_dir s))"
  have "distinct (map fst ?es)"
    using ok by (intro distinct_sort_key_fst distinct_children) (simp add: outbox_ok_def)
  moreover have "rec_RecordID r @ ''.json'' = fst e" if "e \<in> set ?es" "entry_record L s fs e = Some r" for e r
    using entry_record_stored(2) [OF ok, of "fst e" "snd e"] that by simp
  ultimately have "distinct (map (\<lambda>r. rec_RecordID r @ ''.json'') (List.map_filter (entry_record L s fs) ?es))"
    by (rule distinct_map_filter_key)
  then have "distinct (map rec_RecordID (List.map_filter (entry_record L s fs) ?es))"
    by (auto simp: distinct_map inj_on_def)
  then show ?thesis by (simp add: pending_def distinct_map)
qed

lemma sorted_pending: "sorted (map rec_CreatedAt (pending L s fs))"
  by (simp add: pending_def)

text \<open>Taking a file away takes its record away and leaves the order of the others.\<close>

lemma children_del: "children (map_del p fs) d = (if snd p \<noteq> [] \<and> path_parent p = d
    then filter (\<lambda>e. fst e \<noteq> last (snd p)) (children fs d) else children fs d)"
proof -
  have step: "filter (\<lambda>(q, nd). snd q \<noteq> [] \<and> path_parent q = d) (map_del p fs) =
      filter (\<lambda>(q, nd). q \<noteq> p) (filter (\<lambda>(q, nd). snd q \<noteq> [] \<and> path_parent q = d) fs)"
    by (auto simp: AList.delete_eq filter_filter case_prod_beta intro: filter_cong)
  have key: "q \<noteq> p \<longleftrightarrow> last (snd q) \<noteq> last (snd p)"
    if "snd q \<noteq> []" "path_parent q = d" "snd p \<noteq> []" "path_parent p = d" for q
    using that by (metis append_butlast_last_id fst_conv path_parent_def prod_eq_iff snd_conv)
  show ?thesis
    unfolding children_def step
    by (auto simp: filter_map filter_filter comp_def case_prod_beta key intro!: arg_cong [where f = "map _"] filter_cong)
qed

lemma map_filter_filter:
  assumes "\<And>e. e \<in> set es \<Longrightarrow> Q e \<Longrightarrow> f' e = f e"
    and "\<And>e r. e \<in> set es \<Longrightarrow> f e = Some r \<Longrightarrow> Q e \<longleftrightarrow> P r"
  shows "List.map_filter f' (filter Q es) = filter P (List.map_filter f es)"
  using assms
proof (induction es)
  case (Cons e es)
  have IH: "List.map_filter f' (filter Q es) = filter P (List.map_filter f es)"
    using Cons by (intro Cons.IH) auto
  show ?case
    using IH Cons.prems [of e] by (cases "f e") (auto simp: List.map_filter_simps)
qed (simp add: List.map_filter_simps)

lemma pending_del:
  assumes ok: "outbox_ok L s fs" and k: "CHR ''/'' \<notin> set k"
  shows "pending L s (map_del (store_path s k) fs) = filter (\<lambda>r. rec_RecordID r \<noteq> k) (pending L s fs)"
proof -
  let ?p = "store_path s k" and ?es = "sort_key fst (children fs (store_dir s))"
  have dir: "st_dir s \<noteq> []" using ok by (simp add: outbox_ok_def)
  have es: "sort_key fst (children (map_del ?p fs) (store_dir s)) = filter (\<lambda>e. fst e \<noteq> k @ ''.json'') ?es"
    using store_path_entry [OF dir k] by (simp add: children_del filter_sort)
  have "List.map_filter (entry_record L s (map_del ?p fs)) (filter (\<lambda>e. fst e \<noteq> k @ ''.json'') ?es) =
      filter (\<lambda>r. rec_RecordID r \<noteq> k) (List.map_filter (entry_record L s fs) ?es)"
  proof (rule map_filter_filter)
    fix e assume e: "e \<in> set ?es" and ne: "fst e \<noteq> k @ ''.json''"
    have "path_join (st_dir s) (fst e) \<noteq> ?p"
    proof -
      have "simple_name (fst e)"
        using e children_simple [OF ok, of "fst e" "snd e"] by simp
      then show ?thesis using ne path_join_inj [OF dir _ json_name_simple [OF k]] by (simp add: store_path_def)
    qed
    then show "entry_record L s (map_del ?p fs) e = entry_record L s fs e"
      by (simp add: entry_record_def file_record_def)
  next
    fix e r assume "e \<in> set ?es" and "entry_record L s fs e = Some r"
    then show "fst e \<noteq> k @ ''.json'' \<longleftrightarrow> rec_RecordID r \<noteq> k"
      using entry_record_stored(2) [OF ok, of "fst e" "snd e" r] by simp
  qed
  then show ?thesis by (simp add: pending_def es filter_sort)
qed

lemma stored_del:
  assumes "st_dir s \<noteq> []" and "CHR ''/'' \<notin> set k"
  shows "stored L s (map_del (store_path s k) fs) = (stored L s fs)(k := None)"
proof
  fix l
  show "stored L s (map_del (store_path s k) fs) l = ((stored L s fs)(k := None)) l"
    using store_path_inj [OF assms(1), of l k] assms by (auto simp: stored_def file_record_def)
qed

lemma entries_ok_iff:
  "wf_map fs \<Longrightarrow> list_all (entry_ok L s) fs \<longleftrightarrow> (\<forall>p nd. map_of fs p = Some nd \<longrightarrow> entry_ok L s (p, nd))"
  by (auto simp: list_all_iff dest: map_of_SomeD)

lemma outbox_ok_del:
  assumes "outbox_ok L s fs" and "CHR ''/'' \<notin> set k"
  shows "outbox_ok L s (map_del (store_path s k) fs)"
  using assms store_path_not_dir [of s k] by (auto simp: outbox_ok_def entries_ok_iff)

text \<open>A write at the path of an id keeps the invariant when what it may leave there does.\<close>

lemma outbox_ok_write:
  assumes ok: "outbox_ok L s fs" and k: "CHR ''/'' \<notin> set k" and wf: "wf_map fs'"
    and others: "\<And>q. q \<noteq> store_path s k \<Longrightarrow> q \<noteq> tmp_path (store_path s k) \<Longrightarrow> map_of fs' q = map_of fs q"
    and final: "map_of fs' (store_path s k) = map_of fs (store_path s k) \<or>
      (\<exists>m b r. map_of fs' (store_path s k) = Some (FFile m b) \<and> (decode_record L b = Inr r \<longrightarrow> rec_RecordID r = k) \<and>
        (is_ok (decode_record L b) \<longrightarrow> decode_record L b = Inr r))"
  shows "outbox_ok L s fs'"
proof -
  have dir: "st_dir s \<noteq> []" using ok by (simp add: outbox_ok_def)
  have "entry_ok L s (q, nd)" if q: "map_of fs' q = Some nd" for q nd
  proof -
    have old: "map_of fs q' = Some nd' \<Longrightarrow> entry_ok L s (q', nd')" for q' nd'
      using ok unfolding outbox_ok_def using entries_ok_iff by blast
    consider "q = store_path s k" | "q = tmp_path (store_path s k)" | "q \<noteq> store_path s k" "q \<noteq> tmp_path (store_path s k)"
      by blast
    then show ?thesis
    proof cases
      case 1
      have "entry_ok L s (store_path s k, FFile m b)"
        if "decode_record L b = Inr r \<longrightarrow> rec_RecordID r = k" "is_ok (decode_record L b) \<longrightarrow> decode_record L b = Inr r" for m b r
        using that store_path_entry [OF dir k] json_name_simple [OF k]
        by (cases "decode_record L b") (auto simp: entry_ok_def)
      then show ?thesis using final old [of "store_path s k" nd] q 1 by auto
    next
      case 2
      have "\<not> HasSuffix (k @ ''.json.tmp'') ''.json''" by (simp add: suffix_to_prefix)
      then show ?thesis
        using 2 json_tmp_name_simple [OF k] by (simp add: entry_ok_def tmp_path_eq [OF dir k])
    next
      case 3
      then show ?thesis using others old q by auto
    qed
  qed
  moreover have "map_of fs' (store_dir s) = Some FDir"
    using others [of "store_dir s"] store_path_not_dir [OF dir k] tmp_path_not_dir [OF dir k] ok
    by (auto simp: outbox_ok_def)
  ultimately show ?thesis using ok wf by (auto simp: outbox_ok_def entries_ok_iff)
qed

section \<open>Reading the directory\<close>

lemma readRecordFile_frame [frame_simps]:
  "w_fs (snd (readRecordFile L p w)) = w_fs w" "w_fault (snd (readRecordFile L p w)) = w_fault w"
  "w_execs (snd (readRecordFile L p w)) = w_execs w" "w_audit (snd (readRecordFile L p w)) = w_audit w"
  by (simp_all add: readRecordFile_def split_beta Let_def frame_simps)

lemma readRecordFile_Inr: "fst (readRecordFile L p w) = Inr r \<Longrightarrow> file_record L (w_fs w) p = Some r"
  by (auto simp: readRecordFile_def file_record_def os_ReadFile_def sys_call_def Let_def
      split: sum.splits option.splits node.splits)

lemma readRecordFile_iff: "no_faults w \<Longrightarrow> fst (readRecordFile L p w) = Inr r \<longleftrightarrow> file_record L (w_fs w) p = Some r"
  by (auto simp: readRecordFile_def file_record_def no_fault_calls split_beta Let_def
      split: sum.splits option.splits node.splits)

lemma readRecordFile_case:
  assumes "no_faults w"
  shows "(case fst (readRecordFile L p w) of Inl _ \<Rightarrow> None | Inr r \<Rightarrow> Some r) = file_record L (w_fs w) p"
proof (cases "fst (readRecordFile L p w)")
  case (Inl e)
  then have "file_record L (w_fs w) p \<noteq> Some r" for r
    using readRecordFile_iff [OF assms, of L p r] by simp
  then show ?thesis using Inl by (cases "file_record L (w_fs w) p") auto
next
  case (Inr r)
  then show ?thesis using readRecordFile_iff [OF assms, of L p r] by simp
qed

lemma list_entries_frame [frame_simps]:
  "w_fs (snd (list_entries L s es w)) = w_fs w" "w_fault (snd (list_entries L s es w)) = w_fault w"
  "w_execs (snd (list_entries L s es w)) = w_execs w" "w_audit (snd (list_entries L s es w)) = w_audit w"
  by (induction es arbitrary: w) (auto simp: split_beta Let_def frame_simps)

text \<open>One entry: what is listed, what the rest sees, and what the entry holds.\<close>

lemma list_entries_step:
  assumes "\<not> (nd = FDir \<or> \<not> HasSuffix name ''.json'')"
  shows "fst (list_entries L s ((name, nd) # es) w) =
      (case fst (readRecordFile L (path_join (st_dir s) name) w) of Inl _ \<Rightarrow> [] | Inr r \<Rightarrow> [r]) @
      fst (list_entries L s es (snd (readRecordFile L (path_join (st_dir s) name) w)))"
    and "entry_record L s fs (name, nd) = file_record L fs (path_join (st_dir s) name)"
  using assms by (auto simp: split_beta Let_def entry_record_def split: sum.split)

lemma list_entries_skip:
  assumes "nd = FDir \<or> \<not> HasSuffix name ''.json''"
  shows "list_entries L s ((name, nd) # es) w = list_entries L s es w" and "entry_record L s fs (name, nd) = None"
  using assms by (auto simp: entry_record_def)

lemma map_filter_Cons: "List.map_filter f (x # xs) = (case f x of None \<Rightarrow> [] | Some y \<Rightarrow> [y]) @ List.map_filter f xs"
  by (simp add: List.map_filter_simps split: option.split)

lemma list_entries_subseq:
  "subseq (fst (list_entries L s es w)) (List.map_filter (entry_record L s (w_fs w)) es)"
proof (induction es arbitrary: w)
  case (Cons e es)
  obtain name nd where e: "e = (name, nd)" by fastforce
  let ?r = "readRecordFile L (path_join (st_dir s) name) w"
  show ?case
  proof (cases "nd = FDir \<or> \<not> HasSuffix name ''.json''")
    case True
    then show ?thesis using Cons.IH [of w] by (simp only: e list_entries_skip map_filter_Cons option.case append.simps)
  next
    case False
    have "subseq (fst (list_entries L s es (snd ?r))) (List.map_filter (entry_record L s (w_fs w)) es)"
      using Cons.IH [of "snd ?r"] by (simp add: frame_simps)
    then show ?thesis
      unfolding e map_filter_Cons list_entries_step [OF False]
      using readRecordFile_Inr [of L "path_join (st_dir s) name" w]
      by (cases "fst ?r"; cases "file_record L (w_fs w) (path_join (st_dir s) name)") (auto simp: list_emb_Cons)
  qed
qed simp

lemma list_entries_subset:
  "set (fst (list_entries L s es w)) \<subseteq> set (List.map_filter (entry_record L s (w_fs w)) es)"
  using list_entries_subseq [of L s es w] by (metis subseq_conv_nths set_nths_subset)

lemma list_entries_eq:
  "no_faults w \<Longrightarrow> fst (list_entries L s es w) = List.map_filter (entry_record L s (w_fs w)) es"
proof (induction es arbitrary: w)
  case (Cons e es)
  obtain name nd where e: "e = (name, nd)" by fastforce
  let ?r = "readRecordFile L (path_join (st_dir s) name) w"
  show ?case
  proof (cases "nd = FDir \<or> \<not> HasSuffix name ''.json''")
    case True
    then show ?thesis
      using Cons.IH [OF Cons.prems] by (simp only: e list_entries_skip map_filter_Cons option.case append.simps)
  next
    case False
    have "no_faults (snd ?r)" using Cons.prems by (simp add: no_faults_def frame_simps)
    from Cons.IH [OF this]
    have "fst (list_entries L s es (snd ?r)) = List.map_filter (entry_record L s (w_fs w)) es"
      by (simp add: frame_simps)
    then show ?thesis
      unfolding e map_filter_Cons list_entries_step [OF False] readRecordFile_case [OF Cons.prems, symmetric]
      by (simp split: sum.split)
  qed
qed (simp add: List.map_filter_simps)

lemma listLocked_frame [frame_simps]:
  "w_fs (snd (listLocked L s w)) = w_fs w" "w_fault (snd (listLocked L s w)) = w_fault w"
  "w_execs (snd (listLocked L s w)) = w_execs w" "w_audit (snd (listLocked L s w)) = w_audit w"
  by (simp_all add: listLocked_def split_beta Let_def frame_simps split: sum.split)

lemma listLocked_subset: "fst (listLocked L s w) = Inr rs \<Longrightarrow> set rs \<subseteq> set (pending L s (w_fs w))"
proof -
  assume "fst (listLocked L s w) = Inr rs"
  then obtain es where es: "fst (os_ReadDir (store_dir s) w) = Inr es"
    and rs: "rs = sort_key rec_CreatedAt (fst (list_entries L s es (snd (os_ReadDir (store_dir s) w))))"
    by (auto simp: listLocked_def split_beta Let_def split: sum.splits)
  have "es = sort_key fst (children (w_fs w) (store_dir s))"
    using es by (auto simp: os_ReadDir_def sys_call_def Let_def split: option.splits node.splits)
  then show ?thesis
    using list_entries_subset [of L s es "snd (os_ReadDir (store_dir s) w)"]
    by (auto simp: rs pending_def frame_simps)
qed

lemma listLocked_distinct:
  assumes ok: "outbox_ok L s (w_fs w)" and rs: "fst (listLocked L s w) = Inr rs"
  shows "distinct (map rec_RecordID rs)"
proof -
  obtain es where es: "fst (os_ReadDir (store_dir s) w) = Inr es"
    and rs': "rs = sort_key rec_CreatedAt (fst (list_entries L s es (snd (os_ReadDir (store_dir s) w))))"
    using rs by (auto simp: listLocked_def split_beta Let_def split: sum.splits)
  have es': "es = sort_key fst (children (w_fs w) (store_dir s))"
    using es by (auto simp: os_ReadDir_def sys_call_def Let_def split: option.splits node.splits)
  have "distinct (map rec_RecordID (List.map_filter (entry_record L s (w_fs w)) es))"
    using distinct_pending_ids [OF ok] by (simp add: pending_def es' distinct_map)
  then have "distinct (map rec_RecordID (fst (list_entries L s es (snd (os_ReadDir (store_dir s) w)))))"
    using subseq_map [OF list_entries_subseq, of rec_RecordID L s es "snd (os_ReadDir (store_dir s) w)"]
    by (auto simp: frame_simps subseq_conv_nths)
  then show ?thesis by (simp add: rs' distinct_map)
qed

lemma listLocked_eq:
  assumes "no_faults w" and "map_of (w_fs w) (store_dir s) = Some FDir"
  shows "fst (listLocked L s w) = Inr (pending L s (w_fs w))"
  using assms
  by (simp add: listLocked_def split_beta Let_def no_fault_calls list_entries_eq no_faults_frame frame_simps pending_def)

definition record_size :: "Store \<Rightarrow> (path \<times> node) list \<Rightarrow> Record \<Rightarrow> int" where
  "record_size s fs r = (case map_of fs (store_path s (rec_RecordID r)) of None \<Rightarrow> 0 | Some nd \<Rightarrow> node_size nd)"

lemma total_size_frame [frame_simps]:
  "w_fs (snd (total_size s rs w)) = w_fs w" "w_fault (snd (total_size s rs w)) = w_fault w"
  "w_execs (snd (total_size s rs w)) = w_execs w" "w_audit (snd (total_size s rs w)) = w_audit w"
  by (induction rs arbitrary: w) (auto simp: split_beta Let_def frame_simps)

lemma total_size_eq: "no_faults w \<Longrightarrow> fst (total_size s rs w) = sum_list (map (record_size s (w_fs w)) rs)"
proof (induction rs arbitrary: w)
  case (Cons r rs)
  then show ?case
    by (auto simp: split_beta Let_def no_fault_calls no_faults_frame frame_simps record_size_def split: option.splits)
qed simp

lemma snapshotLocked_frame [frame_simps]:
  "w_fs (snd (snapshotLocked L s w)) = w_fs w" "w_fault (snd (snapshotLocked L s w)) = w_fault w"
  "w_execs (snd (snapshotLocked L s w)) = w_execs w" "w_audit (snd (snapshotLocked L s w)) = w_audit w"
  by (simp_all add: snapshotLocked_def split_beta Let_def frame_simps split: sum.split)

end
