(* ===== verification/Outbox_Limits.thy ===== *)
theory Outbox_Limits
  imports Outbox_Files
begin

text \<open>
  The loop that enforces the limits of the outbox: it returns under every pattern of failures, and
  without failures it drops the oldest records until the rest fits.
\<close>

section \<open>The specification\<close>

definition within_limits :: "Store \<Rightarrow> (Record \<Rightarrow> int) \<Rightarrow> Record list \<Rightarrow> bool" where
  "within_limits s sz rs \<longleftrightarrow> int (length rs) \<le> st_maxRecords s \<and> sum_list (map sz rs) \<le> st_maxBytes s"

fun trim_oldest :: "Store \<Rightarrow> (Record \<Rightarrow> int) \<Rightarrow> Record list \<Rightarrow> Record list" where
  "trim_oldest s sz [] = []"
| "trim_oldest s sz (r # rs) = (if within_limits s sz (r # rs) then r # rs else trim_oldest s sz rs)"

lemma trim_oldest_id: "within_limits s sz rs \<Longrightarrow> trim_oldest s sz rs = rs"
  by (cases rs) auto

lemma trim_oldest_suffix: "suffix (trim_oldest s sz rs) rs"
  by (induction rs) (auto intro: suffix_ConsI)

lemma trim_oldest_within:
  "0 \<le> st_maxRecords s \<Longrightarrow> 0 \<le> st_maxBytes s \<Longrightarrow> within_limits s sz (trim_oldest s sz rs)"
  by (induction rs) (auto simp: within_limits_def)

text \<open>No longer suffix fits.\<close>

lemma trim_oldest_longest:
  "suffix qs rs \<Longrightarrow> within_limits s sz qs \<Longrightarrow> length qs \<le> length (trim_oldest s sz rs)"
proof (induction rs)
  case (Cons r rs)
  then show ?case by (auto simp: suffix_Cons dest: suffix_length_le)
qed simp

lemma trim_oldest_cong: "(\<And>r. r \<in> set rs \<Longrightarrow> f r = g r) \<Longrightarrow> trim_oldest s f rs = trim_oldest s g rs"
proof (induction rs)
  case (Cons r rs)
  then have "map f (r # rs) = map g (r # rs)" by simp
  then have "within_limits s f (r # rs) = within_limits s g (r # rs)" by (simp only: within_limits_def)
  then show ?case using Cons by simp
qed simp

section \<open>Steps of the loop\<close>

lemma pending_file:
  assumes "outbox_ok L s fs" and "r \<in> set (pending L s fs)"
  obtains m b where "map_of fs (store_path s (rec_RecordID r)) = Some (FFile m b)"
    and "stored L s fs (rec_RecordID r) = Some r" and "CHR ''/'' \<notin> set (rec_RecordID r)"
proof -
  obtain k where k: "stored L s fs k = Some r" using assms by (auto simp: set_pending)
  have "rec_RecordID r = k" "CHR ''/'' \<notin> set k" using stored_id [OF assms(1) k] by simp_all
  moreover obtain m b where "map_of fs (store_path s k) = Some (FFile m b)"
    using k by (auto simp: stored_def file_record_def split: if_splits option.splits node.splits)
  ultimately show thesis using that k by simp
qed

definition after_drop :: "golib \<Rightarrow> Store \<Rightarrow> Record \<Rightarrow> world \<Rightarrow> world" where
  "after_drop L s oldest w =
     writeAudit L (st_audit s)
       (zero_Event\<lparr>ev_Event := EventOutboxRecordDropped, ev_RecordID := rec_RecordID oldest,
          ev_CommandID := rec_CommandID oldest, ev_Attempts := rec_Attempts oldest,
          ev_ErrorCode := ''outbox_limit''\<rparr>)
       (snd (os_Remove (store_path s (rec_RecordID oldest)) w))"

lemma enforce_unfold:
  "enforceLimitsLocked L s w =
     (let w' = snd (snapshotLocked L s w)
      in case fst (snapshotLocked L s w) of
           Inl e \<Rightarrow> Some (Some e, w')
         | Inr (records, totalBytes) \<Rightarrow>
             if int (length records) \<le> st_maxRecords s \<and> totalBytes \<le> st_maxBytes s then Some (None, w')
             else (case records of
                     [] \<Rightarrow> Some (None, w')
                   | oldest # _ \<Rightarrow>
                       if fst (os_Remove (store_path s (rec_RecordID oldest)) w') = Some ErrIO
                       then Some (Some (FileError ErrIO), snd (os_Remove (store_path s (rec_RecordID oldest)) w'))
                       else enforceLimitsLocked L s (after_drop L s oldest w')))"
  by (subst enforceLimitsLocked.simps) (simp add: after_drop_def split_beta Let_def split: sum.split list.split)

lemma snapshotLocked_subset:
  "fst (snapshotLocked L s w) = Inr (rs, bytes) \<Longrightarrow> set rs \<subseteq> set (pending L s (w_fs w))"
  by (auto simp: snapshotLocked_def split_beta Let_def split: sum.splits dest!: listLocked_subset)

lemma snapshotLocked_eq:
  assumes "no_faults w" and "map_of (w_fs w) (store_dir s) = Some FDir"
  shows "fst (snapshotLocked L s w) =
    Inr (pending L s (w_fs w), sum_list (map (record_size s (w_fs w)) (pending L s (w_fs w))))"
proof -
  have "no_faults (snd (listLocked L s w))" using assms(1) by (simp add: no_faults_def frame_simps)
  then show ?thesis
    by (simp add: snapshotLocked_def split_beta Let_def listLocked_eq [OF assms] total_size_eq frame_simps)
qed

text \<open>Dropping a listed record: the call fails and nothing changes, or its file is gone.\<close>

lemma drop_step:
  assumes ok: "outbox_ok L s (w_fs w)" and r: "r \<in> set (pending L s (w_fs w))"
    and err: "fst (os_Remove (store_path s (rec_RecordID r)) w) \<noteq> Some ErrIO"
  shows "w_fs (after_drop L s r w) = map_del (store_path s (rec_RecordID r)) (w_fs w)"
    and "outbox_ok L s (w_fs (after_drop L s r w))"
    and "length (w_fs (after_drop L s r w)) < length (w_fs w)"
    and "stored L s (w_fs (after_drop L s r w)) = (stored L s (w_fs w))(rec_RecordID r := None)"
proof -
  obtain m b where f: "map_of (w_fs w) (store_path s (rec_RecordID r)) = Some (FFile m b)"
    and k: "CHR ''/'' \<notin> set (rec_RecordID r)"
    using pending_file [OF ok r] by metis
  have "fst (os_Remove (store_path s (rec_RecordID r)) w) = None"
    using os_Remove_file [OF f] err by blast
  then show fs: "w_fs (after_drop L s r w) = map_del (store_path s (rec_RecordID r)) (w_fs w)"
    by (simp add: after_drop_def frame_simps os_Remove_fs(1))
  show "outbox_ok L s (w_fs (after_drop L s r w))" by (simp add: fs outbox_ok_del [OF ok k])
  have "store_path s (rec_RecordID r) \<in> fst ` set (w_fs w)" using map_of_SomeD [OF f] by force
  moreover have "wf_map (w_fs w)" using ok by (simp add: outbox_ok_def)
  ultimately have "length (w_fs (after_drop L s r w)) = length (w_fs w) - 1" by (simp add: fs length_map_del)
  moreover have "0 < length (w_fs w)" using f by (cases "w_fs w") auto
  ultimately show "length (w_fs (after_drop L s r w)) < length (w_fs w)" by linarith
  show "stored L s (w_fs (after_drop L s r w)) = (stored L s (w_fs w))(rec_RecordID r := None)"
    using ok k by (simp add: fs stored_del outbox_ok_def)
qed

lemma after_drop_frame:
  "w_execs (after_drop L s r w) = w_execs w" "w_fault (after_drop L s r w) = w_fault w"
  "no_faults (after_drop L s r w) = no_faults w"
  "clean_log L w \<Longrightarrow> clean_log L (after_drop L s r w)"
proof -
  show "clean_log L w \<Longrightarrow> clean_log L (after_drop L s r w)"
    unfolding after_drop_def by (rule log.sink_clean) (simp add: clean_log_def frame_simps)
qed (simp_all add: after_drop_def frame_simps no_faults_frame)

section \<open>The loop returns\<close>

definition enforced :: "golib \<Rightarrow> Store \<Rightarrow> world \<Rightarrow> world \<Rightarrow> bool" where
  "enforced L s w w' \<longleftrightarrow> outbox_ok L s (w_fs w') \<and> stored L s (w_fs w') \<subseteq>\<^sub>m stored L s (w_fs w) \<and>
     w_execs w' = w_execs w \<and> w_fault w' = w_fault w \<and> (clean_log L w \<longrightarrow> clean_log L w')"

lemma enforced_refl: "outbox_ok L s (w_fs w) \<Longrightarrow> w_fs w' = w_fs w \<Longrightarrow> w_execs w' = w_execs w \<Longrightarrow>
    w_fault w' = w_fault w \<Longrightarrow> w_audit w' = w_audit w \<Longrightarrow> enforced L s w w'"
  by (simp add: enforced_def clean_log_def)

lemma enforce_returns:
  "outbox_ok L s (w_fs w) \<Longrightarrow> \<exists>e w'. enforceLimitsLocked L s w = Some (e, w') \<and> enforced L s w w'"
proof (induction "length (w_fs w)" arbitrary: w rule: less_induct)
  case less
  let ?w = "snd (snapshotLocked L s w)"
  have frame: "w_fs ?w = w_fs w" "w_execs ?w = w_execs w" "w_fault ?w = w_fault w" "w_audit ?w = w_audit w"
    by (simp_all add: frame_simps)
  have here: "enforced L s w ?w" using less.prems frame by (intro enforced_refl)
  show ?case
  proof (cases "fst (snapshotLocked L s w)")
    case (Inl e)
    then show ?thesis using here by (simp add: enforce_unfold [of L s w])
  next
    case (Inr x)
    obtain rs bytes where x: "x = (rs, bytes)" by fastforce
    show ?thesis
    proof (cases "int (length rs) \<le> st_maxRecords s \<and> bytes \<le> st_maxBytes s \<or> rs = []")
      case True
      then show ?thesis using here Inr by (auto simp: x enforce_unfold [of L s w] Let_def)
    next
      case False
      then obtain r rest where rs: "rs = r # rest" by (cases rs) auto
      let ?rm = "os_Remove (store_path s (rec_RecordID r)) ?w"
      have r: "r \<in> set (pending L s (w_fs ?w))"
        using snapshotLocked_subset [of L s w rs bytes] Inr x rs frame by auto
      have ok: "outbox_ok L s (w_fs ?w)" using less.prems frame by simp
      have eq: "enforceLimitsLocked L s w =
          (if fst ?rm = Some ErrIO then Some (Some (FileError ErrIO), snd ?rm)
           else enforceLimitsLocked L s (after_drop L s r ?w))"
        using False Inr by (auto simp: x rs enforce_unfold [of L s w] Let_def)
      show ?thesis
      proof (cases "fst ?rm = Some ErrIO")
        case True
        then have "enforced L s w (snd ?rm)"
          using less.prems frame by (intro enforced_refl) (simp_all add: frame_simps os_Remove_fs(2))
        then show ?thesis using True by (simp add: eq)
      next
        case no_err: False
        note step = drop_step [OF ok r no_err]
        obtain e w' where w': "enforceLimitsLocked L s (after_drop L s r ?w) = Some (e, w')"
          and enf: "enforced L s (after_drop L s r ?w) w'"
          using less.hyps [OF _ step(2)] step(3) frame by auto
        have "(stored L s (w_fs w))(rec_RecordID r := None) \<subseteq>\<^sub>m stored L s (w_fs w)" by (auto simp: map_le_def)
        then have "stored L s (w_fs w') \<subseteq>\<^sub>m stored L s (w_fs w)"
          using enf map_le_trans frame by (fastforce simp: enforced_def step(4))
        moreover have "clean_log L w \<Longrightarrow> clean_log L (after_drop L s r ?w)"
          using frame by (intro after_drop_frame(4)) (simp add: clean_log_def)
        ultimately have "enforced L s w w'"
          using enf frame by (simp add: enforced_def after_drop_frame)
        then show ?thesis using no_err w' by (simp add: eq)
      qed
    qed
  qed
qed

section \<open>Without failures\<close>

lemma record_size_del:
  assumes "st_dir s \<noteq> []" and "CHR ''/'' \<notin> set k" and "CHR ''/'' \<notin> set (rec_RecordID r)" and "rec_RecordID r \<noteq> k"
  shows "record_size s (map_del (store_path s k) fs) r = record_size s fs r"
  using assms store_path_inj [of s "rec_RecordID r" k] by (simp add: record_size_def)

lemma distinct_hd: "distinct (map f (r # rs)) \<Longrightarrow> x \<in> set rs \<Longrightarrow> f x \<noteq> f r"
  by (metis distinct.simps(2) image_eqI list.map(2) set_map)

lemma pending_del_hd:
  assumes ok: "outbox_ok L s fs" and p: "pending L s fs = r # rs"
  shows "pending L s (map_del (store_path s (rec_RecordID r)) fs) = rs"
proof -
  have k: "CHR ''/'' \<notin> set (rec_RecordID r)" using pending_file [OF ok, of r] p by (metis list.set_intros(1))
  have "filter (\<lambda>x. rec_RecordID x \<noteq> rec_RecordID r) rs = rs"
    using distinct_hd [OF distinct_pending_ids [OF ok, unfolded p]] by (intro filter_True) blast
  then show ?thesis by (simp add: pending_del [OF ok k] p)
qed

lemma enforce_exact:
  "outbox_ok L s (w_fs w) \<Longrightarrow> no_faults w \<Longrightarrow>
   \<exists>w'. enforceLimitsLocked L s w = Some (None, w') \<and>
     pending L s (w_fs w') = trim_oldest s (record_size s (w_fs w)) (pending L s (w_fs w))"
proof (induction "length (w_fs w)" arbitrary: w rule: less_induct)
  case less
  let ?w = "snd (snapshotLocked L s w)" and ?P = "pending L s (w_fs w)" and ?sz = "record_size s (w_fs w)"
  have frame: "w_fs ?w = w_fs w" "no_faults ?w" using less.prems by (simp_all add: frame_simps no_faults_def)
  have dir: "st_dir s \<noteq> []" "map_of (w_fs w) (store_dir s) = Some FDir" using less.prems(1) by (auto simp: outbox_ok_def)
  have snap: "fst (snapshotLocked L s w) = Inr (?P, sum_list (map ?sz ?P))"
    using snapshotLocked_eq [OF less.prems(2) dir(2)] by simp
  show ?case
  proof (cases "within_limits s ?sz ?P \<or> ?P = []")
    case True
    then have "enforceLimitsLocked L s w = Some (None, ?w)"
      by (auto simp: enforce_unfold [of L s w] snap within_limits_def Let_def split: list.split)
    moreover have "trim_oldest s ?sz ?P = ?P" using True trim_oldest_id by auto
    ultimately show ?thesis using frame by simp
  next
    case False
    then obtain r rs where P: "?P = r # rs" by (cases ?P) auto
    have r: "r \<in> set (pending L s (w_fs ?w))" by (simp add: frame P)
    have ok: "outbox_ok L s (w_fs ?w)" using less.prems frame by simp
    obtain m b where f: "map_of (w_fs w) (store_path s (rec_RecordID r)) = Some (FFile m b)"
      and k: "CHR ''/'' \<notin> set (rec_RecordID r)"
      using pending_file [OF less.prems(1), of r] P by (metis list.set_intros(1))
    have rm: "fst (os_Remove (store_path s (rec_RecordID r)) ?w) = None"
      using no_fault_calls(4) [OF frame(2)] f frame by simp
    note step = drop_step [OF ok r, unfolded rm, simplified]
    have rest: "pending L s (w_fs (after_drop L s r ?w)) = rs"
      using pending_del_hd [OF less.prems(1) P] by (simp add: step(1) frame)
    have "?sz x = record_size s (w_fs (after_drop L s r ?w)) x" if x: "x \<in> set rs" for x
    proof -
      have "rec_RecordID x \<noteq> rec_RecordID r"
        using distinct_hd [OF distinct_pending_ids [OF less.prems(1), unfolded P] x] .
      moreover have "CHR ''/'' \<notin> set (rec_RecordID x)"
        using pending_file [OF less.prems(1), of x] P x by (metis list.set_intros(2))
      ultimately show ?thesis using record_size_del [OF dir(1) k, of x] by (simp add: step(1) frame)
    qed
    then have same: "trim_oldest s ?sz rs = trim_oldest s (record_size s (w_fs (after_drop L s r ?w))) rs"
      by (rule trim_oldest_cong)
    obtain w' where "enforceLimitsLocked L s (after_drop L s r ?w) = Some (None, w')"
      and "pending L s (w_fs w') = trim_oldest s (record_size s (w_fs (after_drop L s r ?w))) rs"
      using less.hyps [OF _ step(2)] step(3) frame rest by (auto simp: after_drop_frame)
    moreover have "enforceLimitsLocked L s w = enforceLimitsLocked L s (after_drop L s r ?w)"
      using False by (auto simp: enforce_unfold [of L s w] snap P within_limits_def Let_def rm)
    ultimately show ?thesis using False P same by (auto simp: trim_oldest_id)
  qed
qed

section \<open>Without the invariant\<close>

text \<open>A record under a name that is not its id is listed for ever: its removal removes nothing.\<close>

lemma enforce_stuck:
  assumes nf: "no_faults w" and dir: "map_of (w_fs w) (store_dir s) = Some FDir"
    and pend: "pending L s (w_fs w) = r # rs" and gone: "map_of (w_fs w) (store_path s (rec_RecordID r)) = None"
    and over: "\<not> within_limits s (record_size s (w_fs w)) (r # rs)"
  shows "enforceLimitsLocked L s w = None"
proof (rule ccontr)
  define stuck where "stuck v \<longleftrightarrow> no_faults v \<and> w_fs v = w_fs w" for v
  assume "enforceLimitsLocked L s w \<noteq> None"
  then obtain y where "enforceLimitsLocked L s w = Some y" by auto
  then have "\<not> (L = L \<and> s = s \<and> stuck w)"
  proof (rule enforceLimitsLocked.raw_induct [where P = "\<lambda>L' s' v y. \<not> (L' = L \<and> s' = s \<and> stuck v)", rotated])
    fix f L' s' v res
    assume IH: "\<And>L' s' v res. f L' s' v = Some res \<Longrightarrow> \<not> (L' = L \<and> s' = s \<and> stuck v)"
      and body: "(let (r, w) = snapshotLocked L' s' v
        in case r of Inl e \<Rightarrow> Some (Some e, w)
           | Inr (records, totalBytes) \<Rightarrow>
               if int (length records) \<le> st_maxRecords s' \<and> totalBytes \<le> st_maxBytes s' then Some (None, w)
               else case records of [] \<Rightarrow> Some (None, w)
                    | oldest # _ \<Rightarrow>
                        let (e, w) = os_Remove (store_path s' (rec_RecordID oldest)) w
                        in if e = Some ErrIO then Some (Some (FileError ErrIO), w)
                           else f L' s' (writeAudit L' (st_audit s')
                                   (zero_Event\<lparr>ev_Event := EventOutboxRecordDropped, ev_RecordID := rec_RecordID oldest,
                                      ev_CommandID := rec_CommandID oldest, ev_Attempts := rec_Attempts oldest,
                                      ev_ErrorCode := ''outbox_limit''\<rparr>) w)) = Some res"
    show "\<not> (L' = L \<and> s' = s \<and> stuck v)"
    proof
      assume same: "L' = L \<and> s' = s \<and> stuck v"
      then have v: "no_faults v" "w_fs v = w_fs w" by (simp_all add: stuck_def)
      have snap: "fst (snapshotLocked L s v) = Inr (r # rs, sum_list (map (record_size s (w_fs w)) (r # rs)))"
        using snapshotLocked_eq [of v s L] v dir pend by simp
      let ?v1 = "snd (snapshotLocked L s v)"
      have v1: "no_faults ?v1" "w_fs ?v1 = w_fs w" using v by (simp_all add: no_faults_def frame_simps)
      let ?rm = "os_Remove (store_path s (rec_RecordID r)) ?v1"
      have rm: "fst ?rm = Some ErrNotExist"
        using v1 gone by (simp add: os_Remove_def sys_call_def no_faults_def Let_def)
      have v2: "no_faults (snd ?rm)" "w_fs (snd ?rm) = w_fs w"
        using v1 rm by (simp_all add: no_faults_frame os_Remove_fs(2))
      have "\<exists>ev. f L s (writeAudit L (st_audit s) ev (snd ?rm)) = Some res"
        using body over rm unfolding same [THEN conjunct1] same [THEN conjunct2, THEN conjunct1]
        by (auto simp: split_beta Let_def snap within_limits_def split: if_splits)
      then obtain ev where "f L s (writeAudit L (st_audit s) ev (snd ?rm)) = Some res" by blast
      from IH [OF this] show False using v2 by (simp add: stuck_def no_faults_frame frame_simps)
    qed
  qed
  then show False using nf by (simp add: stuck_def)
qed

end
