(* ===== verification/Outbox_Store.thy ===== *)
theory Outbox_Store
  imports Outbox_Limits
begin

text \<open>
  The operations of the outbox as updates of the map from ids to records, under every pattern of
  failing system calls.
\<close>

section \<open>Records that survive their JSON form\<close>

definition codec_at :: "golib \<Rightarrow> Record \<Rightarrow> bool" where
  "codec_at L r = (case marshal_Record L r of None \<Rightarrow> False | Some j \<Rightarrow> lib_parse L (lib_marshal_indent L j) = Some j)"

text \<open>json.Unmarshal undoes json.MarshalIndent on the records that carry an envelope.\<close>

definition carries :: "golib \<Rightarrow> Envelope \<Rightarrow> bool" where
  "carries L env \<longleftrightarrow> (\<forall>r. rec_Envelope r = env \<longrightarrow> wf_Record L r \<longrightarrow> codec_at L r)"

definition good_record :: "golib \<Rightarrow> Record \<Rightarrow> bool" where
  "good_record L r \<longleftrightarrow> wf_Record L r \<and> carries L (rec_Envelope r) \<and> rec_RecordID r \<noteq> [] \<and> rec_CommandID r \<noteq> [] \<and>
     CHR ''/'' \<notin> set (rec_RecordID r) \<and> env_Type (rec_Envelope r) = MessageTypeResult"

lemma good_norm [simp]: "good_record L (norm_Record L r) = good_record L r"
  by (simp add: good_record_def norm_Record_def wf_Record_def)

lemma norm_Record_simps [simp]:
  "rec_RecordID (norm_Record L r) = rec_RecordID r" "rec_CommandID (norm_Record L r) = rec_CommandID r"
  "rec_CreatedAt (norm_Record L r) = rec_CreatedAt r" "rec_Attempts (norm_Record L r) = rec_Attempts r"
  "rec_NextRetryAt (norm_Record L r) = rec_NextRetryAt r" "rec_Envelope (norm_Record L r) = rec_Envelope r"
  by (simp_all add: norm_Record_def)

lemma decode_written:
  assumes "good_record L r" and "marshal_Record L r = Some j"
  shows "decode_record L (lib_marshal_indent L j) = Inr (norm_Record L r)"
proof -
  have "codec_at L r" using assms(1) by (auto simp: good_record_def carries_def)
  then have "lib_parse L (lib_marshal_indent L j) = Some j" using assms(2) by (simp add: codec_at_def)
  moreover have "unmarshal_Record L j = Some (norm_Record L r)"
    using unmarshal_marshal_Record [OF _ assms(2)] assms(1) by (simp add: good_record_def)
  ultimately show ?thesis using assms(1) by (simp add: decode_record_def good_record_def)
qed

section \<open>Writing a record\<close>

lemma write_file_atomic_frame [frame_simps]:
  "w_execs (snd (write_file_atomic p d w)) = w_execs w" "w_audit (snd (write_file_atomic p d w)) = w_audit w"
  "w_fault (snd (write_file_atomic p d w)) = w_fault w"
  by (simp_all add: write_file_atomic_def split_beta Let_def frame_simps split: option.split)

lemma writeRecordAtomic_frame [frame_simps]:
  "w_execs (snd (writeRecordAtomic L s r w)) = w_execs w" "w_audit (snd (writeRecordAtomic L s r w)) = w_audit w"
  "w_fault (snd (writeRecordAtomic L s r w)) = w_fault w"
  by (simp_all add: writeRecordAtomic_def frame_simps split: option.split)

lemma stored_write:
  assumes dir: "st_dir s \<noteq> []" and k: "CHR ''/'' \<notin> set k"
    and others: "\<And>q. q \<noteq> store_path s k \<Longrightarrow> q \<noteq> tmp_path (store_path s k) \<Longrightarrow> map_of fs' q = map_of fs q"
  shows "stored L s fs' = (stored L s fs)(k := file_record L fs' (store_path s k))"
proof
  fix l
  show "stored L s fs' l = ((stored L s fs)(k := file_record L fs' (store_path s k))) l"
    using others [of "store_path s l"] store_path_inj [OF dir, of l k] tmp_not_store_path [OF dir, of l k] k
    by (auto simp: stored_def file_record_def)
qed

lemma writeRecordAtomic_effect:
  assumes ok: "outbox_ok L s (w_fs w)" and good: "good_record L r"
  defines "w' \<equiv> snd (writeRecordAtomic L s r w)"
  shows "outbox_ok L s (w_fs w')"
    and "stored L s (w_fs w') = (if fst (writeRecordAtomic L s r w) = None
      then (stored L s (w_fs w))(rec_RecordID r \<mapsto> norm_Record L r) else stored L s (w_fs w))"
proof -
  let ?p = "store_path s (rec_RecordID r)"
  have dir: "st_dir s \<noteq> []" and wf: "wf_map (w_fs w)" using ok by (simp_all add: outbox_ok_def)
  have k: "CHR ''/'' \<notin> set (rec_RecordID r)" using good by (simp add: good_record_def)
  obtain j where j: "marshal_Record L r = Some j"
    using good marshal_Record_ok by (auto simp: good_record_def)
  let ?d = "lib_marshal_indent L j"
  have eq: "writeRecordAtomic L s r w = write_file_atomic ?p ?d w" by (simp add: writeRecordAtomic_def j)
  note dec = decode_written [OF good j]
  note fs = write_file_atomic_fs [OF tmp_not_store_path(2) [OF dir k k], where d = ?d and w = w, folded eq w'_def]
  show "outbox_ok L s (w_fs w')"
  proof (rule outbox_ok_write [OF ok k fs(5) [OF wf]])
    show "\<And>q. q \<noteq> ?p \<Longrightarrow> q \<noteq> tmp_path ?p \<Longrightarrow> map_of (w_fs w') q = map_of (w_fs w) q" by (rule fs(1))
    show "map_of (w_fs w') ?p = map_of (w_fs w) ?p \<or>
      (\<exists>m b r'. map_of (w_fs w') ?p = Some (FFile m b) \<and> (decode_record L b = Inr r' \<longrightarrow> rec_RecordID r' = rec_RecordID r) \<and>
        (is_ok (decode_record L b) \<longrightarrow> decode_record L b = Inr r'))"
      using fs(2,3) dec by (cases "fst (writeRecordAtomic L s r w)") fastforce+
  qed
  have "stored L s (w_fs w') = (stored L s (w_fs w))(rec_RecordID r := file_record L (w_fs w') ?p)"
    using fs(1) by (rule stored_write [OF dir k])
  moreover have "file_record L (w_fs w') ?p = (if fst (writeRecordAtomic L s r w) = None
      then Some (norm_Record L r) else stored L s (w_fs w) (rec_RecordID r))"
    using fs(2,3) dec k by (auto simp: file_record_def stored_def)
  ultimately show "stored L s (w_fs w') = (if fst (writeRecordAtomic L s r w) = None
      then (stored L s (w_fs w))(rec_RecordID r \<mapsto> norm_Record L r) else stored L s (w_fs w))"
    by auto
qed

text \<open>Without failures, and with no directory in the way, a record is written.\<close>

definition writable :: "Store \<Rightarrow> (path \<times> node) list \<Rightarrow> string \<Rightarrow> bool" where
  "writable s fs k \<longleftrightarrow> map_of fs (store_path s k) \<noteq> Some FDir \<and> map_of fs (tmp_path (store_path s k)) \<noteq> Some FDir"

lemma write_file_atomic_ok:
  assumes nf: "no_faults w" and dir: "map_of (w_fs w) (path_parent p) = Some FDir"
    and tmp: "path_parent (tmp_path p) = path_parent p" "tmp_path p \<noteq> p"
    and free: "map_of (w_fs w) p \<noteq> Some FDir" "map_of (w_fs w) (tmp_path p) \<noteq> Some FDir"
  shows "fst (write_file_atomic p d w) = None"
proof -
  define w1 where "w1 = snd (os_OpenTrunc (tmp_path p) 384 w)"
  define w2 where "w2 = snd (file_Write (tmp_path p) d w1)"
  have call: "fst (sys_call v) = None" if "no_faults v" for v using that by (simp add: sys_call_def no_faults_def)
  have nf1: "no_faults w1" and nf2: "no_faults w2" using nf by (simp_all add: w1_def w2_def no_faults_frame)
  have e1: "fst (os_OpenTrunc (tmp_path p) 384 w) = None"
    using dir tmp free call [OF nf] by (auto simp: os_OpenTrunc_def split_beta Let_def frame_simps split: option.splits node.splits)
  then obtain m where fs1: "w_fs w1 = map_put (tmp_path p) (FFile m []) (w_fs w)"
    using os_OpenTrunc_fs(1) [of "tmp_path p" 384 w] by (auto simp: w1_def)
  have e2: "fst (file_Write (tmp_path p) d w1) = None"
    using call [OF nf1] fs1 by (simp add: file_Write_def split_beta Let_def frame_simps)
  then have fs2: "w_fs w2 = map_put (tmp_path p) (FFile m d) (w_fs w)"
    using file_Write_fs(1) [of w1 "tmp_path p" m "[]" d] fs1 by (simp add: w2_def)
  define w4 where "w4 = snd (sys_unit (snd (sys_unit w2)))"
  have e3: "fst (sys_unit w2) = None" "fst (sys_unit (snd (sys_unit w2))) = None" and nf4: "no_faults w4"
    using nf2 by (simp_all add: no_fault_calls no_faults_frame w4_def)
  have fs4: "w_fs w4 = map_put (tmp_path p) (FFile m d) (w_fs w)" by (simp add: w4_def frame_simps fs2)
  have "path_parent p \<noteq> tmp_path p" using dir free by auto
  then have "fst (os_Rename (tmp_path p) p w4) = None"
    using call [OF nf4] dir free tmp by (simp add: os_Rename_def split_beta Let_def frame_simps fs4)
  then show ?thesis
    using e1 e2 e3 by (simp add: write_file_atomic_def split_beta Let_def w1_def [symmetric] w2_def [symmetric] w4_def [symmetric])
qed

lemma writeRecordAtomic_ok:
  assumes ok: "outbox_ok L s (w_fs w)" and good: "good_record L r" and nf: "no_faults w"
    and free: "writable s (w_fs w) (rec_RecordID r)"
  shows "fst (writeRecordAtomic L s r w) = None"
proof -
  have dir: "st_dir s \<noteq> []" using ok by (simp add: outbox_ok_def)
  have k: "CHR ''/'' \<notin> set (rec_RecordID r)" using good by (simp add: good_record_def)
  obtain j where j: "marshal_Record L r = Some j"
    using good marshal_Record_ok by (auto simp: good_record_def)
  have parent: "path_parent (store_path s (rec_RecordID r)) = store_dir s"
    "path_parent (tmp_path (store_path s (rec_RecordID r))) = store_dir s"
    by (simp_all add: tmp_path_eq [OF dir k]) (simp_all add: store_path_eq [OF dir k] path_parent_def)
  have "fst (write_file_atomic (store_path s (rec_RecordID r)) (lib_marshal_indent L j) w) = None"
    using ok free parent tmp_not_store_path(2) [OF dir k k]
    by (intro write_file_atomic_ok nf) (auto simp: outbox_ok_def writable_def)
  then show ?thesis by (simp add: writeRecordAtomic_def j)
qed

section \<open>The delay before a retry\<close>

lemma retry_loop_eq:
  "1 \<le> i \<Longrightarrow> i \<le> n \<Longrightarrow> 0 < d \<Longrightarrow> d < Minute \<Longrightarrow> retry_loop i n d = min Minute (d * 2 ^ nat (n - i))"
proof (induction i n d rule: retry_loop.induct)
  case (1 i n d)
  show ?case
  proof (cases "i < n")
    case False
    then show ?thesis using 1 by (subst retry_loop.simps) simp
  next
    case True
    have pow: "d * 2 ^ nat (n - i) = d * 2 * 2 ^ nat (n - (i + 1))"
    proof -
      have "nat (n - i) = Suc (nat (n - (i + 1)))" using True by simp
      then show ?thesis by simp
    qed
    show ?thesis
    proof (cases "d * 2 \<ge> Minute")
      case big: True
      have "d * 2 \<le> d * 2 * 2 ^ nat (n - (i + 1))"
        using "1.prems"(3) by (simp add: mult_le_cancel_left1)
      then have "Minute \<le> d * 2 ^ nat (n - i)" using big pow by linarith
      then show ?thesis using True big by (subst retry_loop.simps) simp
    next
      case small: False
      then have "retry_loop (i + 1) n (d * 2) = min Minute (d * 2 * 2 ^ nat (n - (i + 1)))"
        using "1.IH" [OF True refl] "1.prems" True by simp
      then show ?thesis unfolding pow using True small by (subst retry_loop.simps) simp
    qed
  qed
qed

lemma retryDelay_eq: "retryDelay n = (if n \<le> 0 then 5 * Second else min Minute (5 * Second * 2 ^ nat (n - 1)))"
  by (simp add: retryDelay_def retry_loop_eq)

lemma retryDelay_range: "5 * Second \<le> retryDelay n \<and> retryDelay n \<le> Minute"
proof (cases "n \<le> 0")
  case False
  have "(1 :: int) \<le> 2 ^ nat (n - 1)" by simp
  then show ?thesis using False by (simp add: retryDelay_eq)
qed (simp add: retryDelay_eq)

lemma retryJitter_range:
  assumes "0 \<le> d"
  shows "- (d div 5) \<le> fst (retryJitter d w)" and "fst (retryJitter d w) \<le> d div 5"
proof -
  have q: "quot d 5 = d div 5" using assms by (cases "d = 0") (simp_all add: quot_def)
  define r where "r = rand_Int (d div 5 * 2 + 1) w"
  have "\<bar>fst (retryJitter d w)\<bar> \<le> d div 5"
  proof (cases "d div 5 \<le> 0 \<or> d \<le> 0")
    case True
    then show ?thesis using assms by (auto simp: retryJitter_def q Let_def)
  next
    case False
    have "0 \<le> n \<and> n < d div 5 * 2 + 1" if "fst r = Some n" for n
      using rand_Int_range [of "d div 5 * 2 + 1" w n] False that by (simp add: r_def)
    then have "\<bar>case fst r of None \<Rightarrow> 0 | Some n \<Rightarrow> n - d div 5\<bar> \<le> d div 5"
      using False by (cases "fst r") force+
    then show ?thesis using False by (auto simp: retryJitter_def q Let_def split_beta r_def)
  qed
  then show "- (d div 5) \<le> fst (retryJitter d w)" "fst (retryJitter d w) \<le> d div 5" by linarith+
qed

lemma retryJitter_frame [frame_simps]:
  "w_fs (snd (retryJitter d w)) = w_fs w" "w_execs (snd (retryJitter d w)) = w_execs w"
  "w_audit (snd (retryJitter d w)) = w_audit w" "w_fault (snd (retryJitter d w)) = w_fault w"
  "w_clock (snd (retryJitter d w)) = w_clock w"
  by (simp_all add: retryJitter_def Let_def split_beta frame_simps)

section \<open>MarkFailure and Delete\<close>

text \<open>What MarkFailure writes for a record, at an instant and with a jitter.\<close>

definition failed_record :: "string option \<Rightarrow> time \<Rightarrow> duration \<Rightarrow> Record \<Rightarrow> Record" where
  "failed_record sendErr now jitter r =
     r\<lparr>rec_Attempts := wrap64 (rec_Attempts r + 1), rec_UpdatedAt := now, rec_LastError := shortError sendErr,
       rec_NextRetryAt := now + (retryDelay (wrap64 (rec_Attempts r + 1)) + jitter)\<rparr>"

text \<open>The instants at which a failure may be noted have a JSON form, and so have those a retry may get.\<close>

definition clock_ok :: "golib \<Rightarrow> world \<Rightarrow> bool" where
  "clock_ok L w \<longleftrightarrow> (\<forall>n. \<forall>d \<in> {0..72 * Second}. time_ok L (w_clock w n + d))"

lemma failed_record_good:
  assumes "good_record L r" and "clock_ok L w"
    and "jitter = fst (retryJitter (retryDelay (wrap64 (rec_Attempts r + 1))) v)"
  shows "good_record L (failed_record e (w_clock w n) jitter r)"
proof -
  let ?d = "retryDelay (wrap64 (rec_Attempts r + 1))"
  have d: "5 * Second \<le> ?d" "?d \<le> Minute" using retryDelay_range by simp_all
  have j: "- (?d div 5) \<le> jitter" "jitter \<le> ?d div 5"
    using retryJitter_range [of ?d v] d assms(3) by simp_all
  have "0 \<le> ?d + jitter" "?d + jitter \<le> 72 * Second" using j d by linarith+
  then have "time_ok L (w_clock w n + (?d + jitter))" using assms(2) by (auto simp: clock_ok_def)
  moreover have "time_ok L (w_clock w n + 0)" using assms(2) unfolding clock_ok_def by fastforce
  ultimately show ?thesis using assms(1) by (simp add: good_record_def wf_Record_def failed_record_def)
qed

lemma MarkFailure_eq:
  "MarkFailure L s k e w =
     (let (r, w1) = readRecordFile L (store_path s k) w
      in case r of
           Inl err \<Rightarrow> (Inl err, w1)
         | Inr r \<Rightarrow>
             (let now = fst (time_Now w1);
                  jit = retryJitter (retryDelay (wrap64 (rec_Attempts r + 1))) (snd (time_Now w1));
                  wr = writeRecordAtomic L s (failed_record e now (fst jit) r) (snd jit)
              in ((case fst wr of Some err \<Rightarrow> Inl err | None \<Rightarrow> Inr (failed_record e now (fst jit) r)), snd wr)))"
  by (simp add: MarkFailure_def failed_record_def split_beta Let_def split: sum.split option.split)

lemma readRecordFile_clock: "w_clock (snd (readRecordFile L p w)) = w_clock w"
  by (auto simp: readRecordFile_def os_ReadFile_def sys_call_def Let_def split: option.split node.split)

lemma MarkFailure_effect:
  fixes e :: "string option"
  assumes ok: "outbox_ok L s (w_fs w)" and clock: "clock_ok L w" and k: "CHR ''/'' \<notin> set k"
    and good: "\<And>r. stored L s (w_fs w) k = Some r \<Longrightarrow> good_record L r"
  defines "w' \<equiv> snd (MarkFailure L s k e w)"
  shows "outbox_ok L s (w_fs w')"
    and "case fst (MarkFailure L s k e w) of
        Inl _ \<Rightarrow> stored L s (w_fs w') = stored L s (w_fs w)
      | Inr r' \<Rightarrow> \<exists>r n jitter. stored L s (w_fs w) k = Some r \<and> r' = failed_record e (w_clock w n) jitter r \<and>
          \<bar>jitter\<bar> \<le> retryDelay (wrap64 (rec_Attempts r + 1)) div 5 \<and> good_record L r' \<and>
          stored L s (w_fs w') = (stored L s (w_fs w))(k \<mapsto> norm_Record L r')"
    and "w_execs w' = w_execs w" and "w_audit w' = w_audit w" and "w_fault w' = w_fault w"
proof -
  let ?rd = "readRecordFile L (store_path s k) w"
  have fr: "w_fs (snd ?rd) = w_fs w" by (simp add: frame_simps)
  show "w_execs w' = w_execs w" "w_audit w' = w_audit w" "w_fault w' = w_fault w"
    by (simp_all add: w'_def MarkFailure_eq split_beta Let_def frame_simps split: sum.split)
  have both: "outbox_ok L s (w_fs w') \<and> (case fst (MarkFailure L s k e w) of
        Inl _ \<Rightarrow> stored L s (w_fs w') = stored L s (w_fs w)
      | Inr r' \<Rightarrow> \<exists>r n jitter. stored L s (w_fs w) k = Some r \<and> r' = failed_record e (w_clock w n) jitter r \<and>
          \<bar>jitter\<bar> \<le> retryDelay (wrap64 (rec_Attempts r + 1)) div 5 \<and> good_record L r' \<and>
          stored L s (w_fs w') = (stored L s (w_fs w))(k \<mapsto> norm_Record L r'))"
  proof (cases "fst ?rd")
    case (Inl err)
    then show ?thesis using ok fr by (simp add: w'_def MarkFailure_eq split_beta Let_def)
  next
    case (Inr r)
    have st: "stored L s (w_fs w) k = Some r"
      using readRecordFile_Inr [OF Inr] k by (simp add: stored_def)
    have id: "rec_RecordID r = k" using stored_id(1) [OF ok st] .
    let ?d = "retryDelay (wrap64 (rec_Attempts r + 1))"
    define w1 where "w1 = snd ?rd"
    define jit where "jit = retryJitter ?d (snd (time_Now w1))"
    define r' where "r' = failed_record e (fst (time_Now w1)) (fst jit) r"
    have now: "fst (time_Now w1) = w_clock w (w_reads w1)"
      by (simp add: time_Now_def w1_def readRecordFile_clock)
    have g: "good_record L r'"
      unfolding r'_def now using failed_record_good [OF good [OF st] clock, of "fst jit"] by (simp add: jit_def)
    have fs: "w_fs (snd jit) = w_fs w" by (simp add: jit_def w1_def frame_simps)
    note wr = writeRecordAtomic_effect [OF ok [folded fs] g, unfolded fs]
    have eq: "MarkFailure L s k e w = (case fst (writeRecordAtomic L s r' (snd jit)) of
        Some err \<Rightarrow> (Inl err, snd (writeRecordAtomic L s r' (snd jit)))
      | None \<Rightarrow> (Inr r', snd (writeRecordAtomic L s r' (snd jit))))"
      by (simp add: MarkFailure_eq split_beta Let_def Inr r'_def jit_def w1_def split: option.split)
    have "\<bar>fst jit\<bar> \<le> ?d div 5"
      using retryJitter_range [of ?d "snd (time_Now w1)"] retryDelay_range [of "wrap64 (rec_Attempts r + 1)"]
      by (simp add: jit_def)
    moreover have "rec_RecordID r' = k" by (simp add: r'_def failed_record_def id)
    ultimately show ?thesis
      using wr st g unfolding w'_def eq
      by (cases "fst (writeRecordAtomic L s r' (snd jit))") (auto simp: r'_def now)
  qed
  then show "outbox_ok L s (w_fs w')" and "case fst (MarkFailure L s k e w) of
        Inl _ \<Rightarrow> stored L s (w_fs w') = stored L s (w_fs w)
      | Inr r' \<Rightarrow> \<exists>r n jitter. stored L s (w_fs w) k = Some r \<and> r' = failed_record e (w_clock w n) jitter r \<and>
          \<bar>jitter\<bar> \<le> retryDelay (wrap64 (rec_Attempts r + 1)) div 5 \<and> good_record L r' \<and>
          stored L s (w_fs w') = (stored L s (w_fs w))(k \<mapsto> norm_Record L r')" by auto
qed

lemma Delete_effect:
  assumes ok: "outbox_ok L s (w_fs w)" and k: "CHR ''/'' \<notin> set k"
  defines "w' \<equiv> snd (Delete L s k w)"
  shows "outbox_ok L s (w_fs w')"
    and "stored L s (w_fs w') = (if fst (Delete L s k w) = None then (stored L s (w_fs w))(k := None) else stored L s (w_fs w))"
    and "w_execs w' = w_execs w" and "w_fault w' = w_fault w" and "clean_log L w \<Longrightarrow> clean_log L w'"
proof -
  let ?w1 = "snd (readRecordFile L (store_path s k) w)"
  let ?rm = "os_Remove (store_path s k) ?w1"
  have fr: "w_fs ?w1 = w_fs w" by (simp add: frame_simps)
  have dir: "st_dir s \<noteq> []" using ok by (simp add: outbox_ok_def)
  have fs: "w_fs w' = w_fs (snd ?rm)" "fst (Delete L s k w) = None \<longleftrightarrow> fst ?rm \<noteq> Some ErrIO"
    "w_execs w' = w_execs w" "w_fault w' = w_fault w"
    by (simp_all add: w'_def Delete_def split_beta Let_def frame_simps)
  have gone: "map_of (w_fs w) (store_path s k) = None" if "fst ?rm = Some ErrNotExist"
    using that fr by (auto simp: os_Remove_def sys_call_def Let_def split: option.splits node.splits if_splits)
  have cases: "w_fs w' = map_del (store_path s k) (w_fs w) \<and> fst ?rm = None \<or>
      w_fs w' = w_fs w \<and> fst ?rm = Some ErrIO \<or>
      w_fs w' = w_fs w \<and> fst ?rm = Some ErrNotExist \<and> map_of (w_fs w) (store_path s k) = None"
    using os_Remove_fs [of "store_path s k" ?w1] gone fr fs(1)
    by (cases "fst ?rm"; cases "the (fst ?rm)") auto
  show "outbox_ok L s (w_fs w')" using cases outbox_ok_del [OF ok k] ok by auto
  have "stored L s (w_fs w) k = None" if "map_of (w_fs w) (store_path s k) = None"
    using that by (simp add: stored_def file_record_def)
  then show "stored L s (w_fs w') = (if fst (Delete L s k w) = None then (stored L s (w_fs w))(k := None) else stored L s (w_fs w))"
    using cases stored_del [OF dir k, of L "w_fs w"] unfolding fs(2) by (auto simp: fun_eq_iff)
  show "w_execs w' = w_execs w" "w_fault w' = w_fault w" using fs by simp_all
  show "clean_log L w'" if "clean_log L w"
  proof -
    have "clean_log L (snd ?rm)" using that by (simp add: clean_log_def frame_simps)
    then show ?thesis by (simp add: w'_def Delete_def split_beta Let_def log.sink_clean)
  qed
qed

section \<open>Save\<close>

text \<open>The record Save writes: the new one with the history of the one it replaces.\<close>

definition saves :: "golib \<Rightarrow> Store \<Rightarrow> Envelope \<Rightarrow> world \<Rightarrow> Record \<Rightarrow> bool" where
  "saves L s env w r \<longleftrightarrow> (\<exists>fresh. NewRecord L env (fst (time_Now w)) = Inr fresh \<and>
     r = keep_history fresh (fst (readRecordFile L (store_path s (rec_RecordID fresh)) (snd (time_Now w)))))"

lemma keep_history_simps [simp]:
  "rec_RecordID (keep_history r o1) = rec_RecordID r" "rec_CommandID (keep_history r o1) = rec_CommandID r"
  "rec_Envelope (keep_history r o1) = rec_Envelope r" "rec_UpdatedAt (keep_history r o1) = rec_UpdatedAt r"
  by (auto simp: keep_history_def split: sum.split)

definition saved_event :: "Record \<Rightarrow> Event" where
  "saved_event r = zero_Event\<lparr>ev_Event := EventOutboxRecordSaved, ev_RecordID := rec_RecordID r,
     ev_CommandID := rec_CommandID r, ev_Attempts := rec_Attempts r\<rparr>"

text \<open>The world before the write, and the world before the limits are enforced.\<close>

definition before_write :: "golib \<Rightarrow> Store \<Rightarrow> Record \<Rightarrow> world \<Rightarrow> world" where
  "before_write L s r w = snd (readRecordFile L (store_path s (rec_RecordID r)) (snd (time_Now w)))"

lemma before_write_frame:
  "w_fs (before_write L s r w) = w_fs w" "w_execs (before_write L s r w) = w_execs w"
  "w_audit (before_write L s r w) = w_audit w" "w_fault (before_write L s r w) = w_fault w"
  by (simp_all add: before_write_def frame_simps)

lemma Save_unfold:
  assumes "saves L s env w r"
  shows "Save L s env w =
    (let wr = writeRecordAtomic L s r (before_write L s r w)
     in case fst wr of
          Some err \<Rightarrow> Some (Inl err, snd wr)
        | None \<Rightarrow> map_option (\<lambda>(e, w'). ((case e of Some err \<Rightarrow> Inl err | None \<Rightarrow> Inr r), w'))
                    (enforceLimitsLocked L s (writeAudit L (st_audit s) (saved_event r) (snd wr))))"
  using assms
  by (auto simp: saves_def Save_def before_write_def saved_event_def split_beta Let_def split: option.split)

lemma Save_effect:
  assumes ok: "outbox_ok L s (w_fs w)" and r: "saves L s env w r" and good: "good_record L r"
  shows "\<exists>res w'. Save L s env w = Some (res, w') \<and> outbox_ok L s (w_fs w') \<and>
    w_execs w' = w_execs w \<and> w_fault w' = w_fault w \<and> (clean_log L w \<longrightarrow> clean_log L w') \<and>
    (case res of
       Inr r' \<Rightarrow> r' = r \<and> stored L s (w_fs w') \<subseteq>\<^sub>m (stored L s (w_fs w))(rec_RecordID r \<mapsto> norm_Record L r)
     | Inl _ \<Rightarrow> stored L s (w_fs w') = stored L s (w_fs w) \<or>
         stored L s (w_fs w') \<subseteq>\<^sub>m (stored L s (w_fs w))(rec_RecordID r \<mapsto> norm_Record L r))"
proof -
  define w0 where "w0 = before_write L s r w"
  define wr where "wr = writeRecordAtomic L s r w0"
  have f0: "w_fs w0 = w_fs w" "w_execs w0 = w_execs w" "w_audit w0 = w_audit w" "w_fault w0 = w_fault w"
    by (simp_all add: w0_def before_write_frame)
  note eff = writeRecordAtomic_effect [OF ok [folded f0(1)] good, unfolded f0 wr_def [symmetric]]
  have fwr: "w_execs (snd wr) = w_execs w" "w_audit (snd wr) = w_audit w" "w_fault (snd wr) = w_fault w"
    by (simp_all add: wr_def frame_simps f0)
  show ?thesis
  proof (cases "fst wr")
    case (Some err)
    then have "Save L s env w = Some (Inl err, snd wr)" by (simp add: Save_unfold [OF r] wr_def w0_def)
    then show ?thesis using eff Some fwr by (simp add: clean_log_def)
  next
    case None
    let ?w1 = "writeAudit L (st_audit s) (saved_event r) (snd wr)"
    obtain e w' where enf: "enforceLimitsLocked L s ?w1 = Some (e, w')" "enforced L s ?w1 w'"
      using enforce_returns [of L s ?w1] eff by (auto simp: frame_simps)
    then have "Save L s env w = Some ((case e of Some err \<Rightarrow> Inl err | None \<Rightarrow> Inr r), w')"
      using None by (simp add: Save_unfold [OF r] wr_def w0_def)
    moreover have "clean_log L w \<Longrightarrow> clean_log L ?w1"
      by (rule log.sink_clean) (simp add: clean_log_def fwr)
    ultimately show ?thesis
      using enf eff None fwr by (cases e) (auto simp: enforced_def frame_simps)
  qed
qed

text \<open>Without failures: the record is stored, then the oldest are dropped until the rest fits.\<close>

lemma Save_exact:
  assumes ok: "outbox_ok L s (w_fs w)" and r: "saves L s env w r" and good: "good_record L r"
    and nf: "no_faults w" and free: "writable s (w_fs w) (rec_RecordID r)"
  shows "\<exists>fs w'. Save L s env w = Some (Inr r, w') \<and> outbox_ok L s fs \<and>
    stored L s fs = (stored L s (w_fs w))(rec_RecordID r \<mapsto> norm_Record L r) \<and>
    pending L s (w_fs w') = trim_oldest s (record_size s fs) (pending L s fs)"
proof -
  define w0 where "w0 = before_write L s r w"
  define wr where "wr = writeRecordAtomic L s r w0"
  have f0: "w_fs w0 = w_fs w" "w_fault w0 = w_fault w" by (simp_all add: w0_def before_write_frame)
  have "no_faults w0" using nf f0 by (simp add: no_faults_def)
  then have wrote: "fst wr = None"
    unfolding wr_def using writeRecordAtomic_ok [of L s w0 r] ok good free f0 by simp
  note eff = writeRecordAtomic_effect [OF ok [folded f0(1)] good, unfolded f0 wr_def [symmetric]]
  let ?w1 = "writeAudit L (st_audit s) (saved_event r) (snd wr)"
  have "no_faults ?w1" using nf f0 by (simp add: no_faults_def frame_simps wr_def)
  then obtain w' where "enforceLimitsLocked L s ?w1 = Some (None, w')"
    and "pending L s (w_fs w') = trim_oldest s (record_size s (w_fs ?w1)) (pending L s (w_fs ?w1))"
    using enforce_exact [of L s ?w1] eff(1) by (auto simp: frame_simps)
  then have "Save L s env w = Some (Inr r, w')"
    and "pending L s (w_fs w') = trim_oldest s (record_size s (w_fs (snd wr))) (pending L s (w_fs (snd wr)))"
    using wrote by (simp_all add: Save_unfold [OF r] wr_def w0_def frame_simps)
  then show ?thesis using eff wrote by (intro exI [of _ "w_fs (snd wr)"] exI [of _ w']) simp
qed

lemma Save_rejects: "NewRecord L env (fst (time_Now w)) = Inl e \<Longrightarrow> Save L s env w = Some (Inl e, snd (time_Now w))"
  by (simp add: Save_def split_beta)

section \<open>Due\<close>

definition is_due :: "time \<Rightarrow> Record \<Rightarrow> bool" where
  "is_due now r \<longleftrightarrow> time_IsZero (rec_NextRetryAt r) \<or> rec_NextRetryAt r \<le> now"

lemma due_loop_eq:
  assumes "limit \<le> 0 \<or> int (length due) < limit"
  shows "due_loop now limit due rs = due @
    (if limit \<le> 0 then filter (is_due now) rs else take (nat (limit - int (length due))) (filter (is_due now) rs))"
  using assms
proof (induction now limit due rs rule: due_loop.induct)
  case (2 now limit due r rs)
  show ?case
  proof (cases "is_due now r")
    case True
    have t: "nat (limit - int (length due)) = Suc (nat (limit - int (length due) - 1))"
      if "int (length due) < limit" using that by linarith
    show ?thesis
      using True 2 by (auto simp: is_due_def Let_def t algebra_simps)
  next
    case False
    then show ?thesis using 2 by (auto simp: is_due_def)
  qed
qed simp

lemma Due_frame [frame_simps]:
  "w_fs (snd (Due L s now n w)) = w_fs w" "w_fault (snd (Due L s now n w)) = w_fault w"
  "w_execs (snd (Due L s now n w)) = w_execs w" "w_audit (snd (Due L s now n w)) = w_audit w"
  by (simp_all add: Due_def split_beta Let_def frame_simps)

lemma Due_subset: "fst (Due L s now n w) = Inr rs \<Longrightarrow> set rs \<subseteq> set (pending L s (w_fs w))"
proof -
  assume "fst (Due L s now n w) = Inr rs"
  then obtain ps where ps: "fst (listLocked L s w) = Inr ps" and rs: "rs = due_loop now n [] ps"
    by (auto simp: Due_def split_beta Let_def split: sum.splits)
  have "rs = (if n \<le> 0 then filter (is_due now) ps else take (nat n) (filter (is_due now) ps))"
    unfolding rs using due_loop_eq [of n "[]" now ps] by (cases "n \<le> 0") simp_all
  then have "set rs \<subseteq> set ps" by (auto dest: in_set_takeD split: if_splits)
  then show ?thesis using listLocked_subset [OF ps] by simp
qed

lemma Due_distinct:
  assumes ok: "outbox_ok L s (w_fs w)" and rs: "fst (Due L s now n w) = Inr rs"
  shows "distinct (map rec_RecordID rs)"
proof -
  obtain ps where ps: "fst (listLocked L s w) = Inr ps" and rs': "rs = due_loop now n [] ps"
    using rs by (auto simp: Due_def split_beta Let_def split: sum.splits)
  have "rs = (if n \<le> 0 then filter (is_due now) ps else take (nat n) (filter (is_due now) ps))"
    unfolding rs' using due_loop_eq [of n "[]" now ps] by (cases "n \<le> 0") simp_all
  then show ?thesis
    using listLocked_distinct [OF ok ps] by (simp add: distinct_map_filter take_map [symmetric])
qed

end
