(* ===== verification/Dispatcher.thy ===== *)
theory Dispatcher
  imports Outbox_Store
begin

text \<open>
  internal/transport/result_dispatcher.go: results go into the outbox first and leave it when a sender
  has accepted them. A sender is a parameter: it may do anything to the network and answers with an
  error or with none. Each operation also returns the calls of a sender it made, in their order.
\<close>

section \<open>State\<close>

type_synonym ResultSender = "Record \<Rightarrow> world \<Rightarrow> string option \<times> world"
type_synonym send_event = "Record \<times> string \<times> string option"

record ResultDispatcher =
  disp_store :: Store
  disp_audit :: "Writer option"
  disp_wsSender :: "ResultSender option"
  disp_pullSender :: "ResultSender option"
  disp_sending :: bool

datatype dispatcher_error = RequiresStore

definition NewResultDispatcher :: "Store option \<Rightarrow> Writer option \<Rightarrow> dispatcher_error + ResultDispatcher" where
  "NewResultDispatcher store auditor =
     (case store of
        None \<Rightarrow> Inl RequiresStore
      | Some s \<Rightarrow> Inr \<lparr>disp_store = s, disp_audit = auditor, disp_wsSender = None, disp_pullSender = None,
                       disp_sending = False\<rparr>)"

definition SetWebSocketSender :: "ResultSender option \<Rightarrow> ResultDispatcher \<Rightarrow> ResultDispatcher" where
  "SetWebSocketSender f d = d\<lparr>disp_wsSender := f\<rparr>"

definition SetPullSender :: "ResultSender option \<Rightarrow> ResultDispatcher \<Rightarrow> ResultDispatcher" where
  "SetPullSender f d = d\<lparr>disp_pullSender := f\<rparr>"

definition sender :: "ResultDispatcher \<Rightarrow> (ResultSender \<times> string) option" where
  "sender d =
     (case disp_wsSender d of
        Some f \<Rightarrow> Some (f, ''websocket'')
      | None \<Rightarrow> (case disp_pullSender d of Some f \<Rightarrow> Some (f, ''pull'') | None \<Rightarrow> None))"

section \<open>Dispatching\<close>

definition send_event_of :: "string \<Rightarrow> Record \<Rightarrow> string \<Rightarrow> string \<Rightarrow> Event" where
  "send_event_of kind r transportName code =
     zero_Event\<lparr>ev_Event := kind, ev_RecordID := rec_RecordID r, ev_CommandID := rec_CommandID r,
       ev_Attempts := rec_Attempts r, ev_Transport := transportName, ev_ErrorCode := code\<rparr>"

text \<open>
  The loop of DispatchOnce over the due records, for an audit sink and the two operations of a store
  it calls. The context is asked before each record.
\<close>

fun dispatch_loop ::
  "(Event \<Rightarrow> world \<Rightarrow> world) \<Rightarrow> (string \<Rightarrow> string option \<Rightarrow> world \<Rightarrow> ('e + Record) \<times> world) \<Rightarrow>
   (string \<Rightarrow> world \<Rightarrow> 'e option \<times> world) \<Rightarrow> (world \<Rightarrow> bool) \<Rightarrow> (ResultSender \<times> string) option \<Rightarrow>
   Record list \<Rightarrow> world \<Rightarrow> 'e option \<times> send_event list \<times> world" where
  "dispatch_loop aud mark del ctx snder [] w = (None, [], w)"
| "dispatch_loop aud mark del ctx snder (r # rs) w =
     (if ctx w then (None, [], w)
      else (case snder of
              None \<Rightarrow> (None, [], w)
            | Some (send, transportName) \<Rightarrow>
                (let w = aud (send_event_of EventOutboxRecordSendStarted r transportName []) w;
                     (err, w) = send r w
                 in (case err of
                       Some msg \<Rightarrow>
                         (let (updated, w) = mark (rec_RecordID r) (Some msg) w
                          in (case updated of
                                Inl e \<Rightarrow> (Some e, [(r, transportName, err)], w)
                              | Inr updated \<Rightarrow>
                                  (let w = aud (send_event_of EventOutboxRecordSendFailed updated transportName ''send_failed'') w;
                                       (e, sent, w) = dispatch_loop aud mark del ctx snder rs w
                                   in (e, (r, transportName, err) # sent, w))))
                     | None \<Rightarrow>
                         (let w = aud (send_event_of EventOutboxRecordSendSucceeded r transportName []) w;
                              (e, w) = del (rec_RecordID r) w
                          in (case e of
                                Some e \<Rightarrow> (Some e, [(r, transportName, err)], w)
                              | None \<Rightarrow>
                                  (let (e, sent, w) = dispatch_loop aud mark del ctx snder rs w
                                   in (e, (r, transportName, err) # sent, w))))))))"

definition DispatchOnce ::
  "golib \<Rightarrow> (world \<Rightarrow> bool) \<Rightarrow> ResultDispatcher \<times> world \<Rightarrow> outbox_error option \<times> send_event list \<times> ResultDispatcher \<times> world" where
  "DispatchOnce L ctx dw =
     (let (d, w) = dw
      in if disp_sending d then (None, [], d, w)
         else let d = d\<lparr>disp_sending := True\<rparr>;
                  (now, w) = time_Now w;
                  (records, w) = Due L (disp_store d) now 16 w;
                  (e, sent, w) =
                    (case records of
                       Inl err \<Rightarrow> (Some err, [], w)
                     | Inr rs \<Rightarrow> dispatch_loop (writeAudit L (disp_audit d)) (MarkFailure L (disp_store d))
                                  (Delete L (disp_store d)) ctx (sender d) rs w);
                  d = d\<lparr>disp_sending := False\<rparr>
              in (e, sent, d, w))"

text \<open>Save may not return; then neither does Enqueue.\<close>

definition Enqueue ::
  "golib \<Rightarrow> (world \<Rightarrow> bool) \<Rightarrow> Envelope \<Rightarrow> ResultDispatcher \<times> world \<Rightarrow>
   (outbox_error option \<times> send_event list \<times> ResultDispatcher \<times> world) option" where
  "Enqueue L ctx env dw =
     (let (d, w) = dw
      in (case Save L (disp_store d) env w of
            None \<Rightarrow> None
          | Some (Inl e, w) \<Rightarrow> Some (Some e, [], d, w)
          | Some (Inr _, w) \<Rightarrow> Some (DispatchOnce L ctx (d, w))))"

text \<open>Run, up to the n-th tick; the error of a round is dropped.\<close>

fun Dispatcher_Run :: "golib \<Rightarrow> (world \<Rightarrow> bool) \<Rightarrow> nat \<Rightarrow> ResultDispatcher \<times> world \<Rightarrow> send_event list \<times> ResultDispatcher \<times> world" where
  "Dispatcher_Run L ctx 0 dw = ([], dw)"
| "Dispatcher_Run L ctx (Suc n) dw =
     (if ctx (snd dw) then ([], dw)
      else let (_, sent, dw) = DispatchOnce L ctx dw; (more, dw) = Dispatcher_Run L ctx n dw in (sent @ more, dw))"

definition Dispatcher_PendingCount :: "golib \<Rightarrow> ResultDispatcher \<Rightarrow> world \<Rightarrow> int \<times> world" where
  "Dispatcher_PendingCount L d w = PendingCount L (disp_store d) w"

section \<open>What the loop relies on from a store\<close>

locale result_store =
  fixes inv :: "world \<Rightarrow> bool"
    and entries :: "world \<Rightarrow> string \<Rightarrow> Record option"
    and aud :: "Event \<Rightarrow> world \<Rightarrow> world"
    and mark :: "string \<Rightarrow> string option \<Rightarrow> world \<Rightarrow> ('e + Record) \<times> world"
    and del :: "string \<Rightarrow> world \<Rightarrow> 'e option \<times> world"
  assumes aud_keeps: "inv w \<Longrightarrow> inv (aud ev w) \<and> entries (aud ev w) = entries w"
    and mark_inv: "inv w \<Longrightarrow> entries w k \<noteq> None \<Longrightarrow> inv (snd (mark k msg w))"
    and mark_dom: "inv w \<Longrightarrow> entries w k \<noteq> None \<Longrightarrow> dom (entries (snd (mark k msg w))) = dom (entries w)"
    and mark_other: "inv w \<Longrightarrow> entries w k \<noteq> None \<Longrightarrow> l \<noteq> k \<Longrightarrow> entries (snd (mark k msg w)) l = entries w l"
    and del_inv: "inv w \<Longrightarrow> entries w k \<noteq> None \<Longrightarrow> inv (snd (del k w))"
    and del_entries: "inv w \<Longrightarrow> entries w k \<noteq> None \<Longrightarrow>
      entries (snd (del k w)) = (if fst (del k w) = None then (entries w)(k := None) else entries w)"
begin

definition quiet :: "ResultSender \<Rightarrow> bool" where
  "quiet send \<longleftrightarrow> (\<forall>r w. inv w \<longrightarrow> inv (snd (send r w)) \<and> entries (snd (send r w)) = entries w)"

definition accepted_ids :: "send_event list \<Rightarrow> string set" where
  "accepted_ids sent = {rec_RecordID r | r t. (r, t, None) \<in> set sent}"

lemma accepted_ids_simps [simp]:
  "accepted_ids [] = {}"
  "accepted_ids ((r, t, e) # sent) = (if e = None then insert (rec_RecordID r) (accepted_ids sent) else accepted_ids sent)"
  by (auto simp: accepted_ids_def)

text \<open>A record leaves the store only after a sender accepted it, and none appears.\<close>

lemma dispatch_loop_keeps:
  assumes "inv w" and "distinct (map rec_RecordID rs)" and "rec_RecordID ` set rs \<subseteq> dom (entries w)"
    and "case snder of None \<Rightarrow> True | Some (send, _) \<Rightarrow> quiet send"
    and "dispatch_loop aud mark del ctx snder rs w = (e, sent, w')"
  shows "inv w' \<and> dom (entries w') \<subseteq> dom (entries w) \<and> dom (entries w) - dom (entries w') \<subseteq> accepted_ids sent \<and>
    accepted_ids sent \<subseteq> rec_RecordID ` set rs \<and> (\<forall>k. k \<notin> rec_RecordID ` set rs \<longrightarrow> entries w' k = entries w k)"
  using assms
proof (induction rs arbitrary: w e sent w')
  case (Cons r rs)
  let ?k = "rec_RecordID r"
  show ?case
  proof (cases "ctx w \<or> snder = None")
    case True
    then have "dispatch_loop aud mark del ctx snder (r # rs) w = (None, [], w)" by auto
    then show ?thesis using Cons.prems by simp
  next
    case False
    then obtain send t where sd: "snder = Some (send, t)" by (cases snder) auto
    define w1 where "w1 = aud (send_event_of EventOutboxRecordSendStarted r t []) w"
    define w2 where "w2 = snd (send r w1)"
    have 2: "inv w2" "entries w2 = entries w"
      using Cons.prems(1,4) aud_keeps sd by (auto simp: w1_def w2_def quiet_def)
    have k: "entries w2 ?k \<noteq> None" using Cons.prems(3) 2 by (auto simp: dom_def)
    have rest: "distinct (map rec_RecordID rs)" "?k \<notin> rec_RecordID ` set rs" using Cons.prems(2) by simp_all
    show ?thesis
    proof (cases "fst (send r w1)")
      case (Some msg)
      define w3 where "w3 = snd (mark ?k (Some msg) w2)"
      have 3: "inv w3" "dom (entries w3) = dom (entries w)" "\<And>l. l \<noteq> ?k \<Longrightarrow> entries w3 l = entries w l"
        using mark_inv [OF 2(1) k] mark_dom [OF 2(1) k] mark_other [OF 2(1) k] 2(2) by (simp_all add: w3_def)
      show ?thesis
      proof (cases "fst (mark ?k (Some msg) w2)")
        case (Inl err)
        then have "w' = w3" "sent = [(r, t, Some msg)]"
          using Cons.prems(5) False Some by (simp_all add: sd split_beta Let_def w1_def w2_def w3_def)
        then show ?thesis using 3 by auto
      next
        case (Inr updated)
        define w4 where "w4 = aud (send_event_of EventOutboxRecordSendFailed updated t ''send_failed'') w3"
        have 4: "inv w4" "entries w4 = entries w3" using aud_keeps 3(1) by (simp_all add: w4_def)
        obtain e' sent' v where rec: "dispatch_loop aud mark del ctx snder rs w4 = (e', sent', v)" by (metis prod_cases3)
        have sent: "sent = (r, t, Some msg) # sent'" and v: "v = w'"
          using Cons.prems(5) False Some Inr rec by (auto simp: sd split_beta Let_def w1_def w2_def w3_def w4_def)
        have "rec_RecordID ` set rs \<subseteq> dom (entries w4)" using Cons.prems(3) 3(2) 4(2) by auto
        from Cons.IH [OF 4(1) rest(1) this Cons.prems(4) rec [unfolded v]] show ?thesis using 3 4 sent by auto
      qed
    next
      case None
      define w3 where "w3 = aud (send_event_of EventOutboxRecordSendSucceeded r t []) w2"
      have 3: "inv w3" "entries w3 = entries w" using aud_keeps 2 by (simp_all add: w3_def)
      define w4 where "w4 = snd (del ?k w3)"
      have k3: "entries w3 ?k \<noteq> None" using k 2 3 by simp
      have 4: "inv w4" "entries w4 = (if fst (del ?k w3) = None then (entries w)(?k := None) else entries w)"
        using del_inv [OF 3(1) k3] del_entries [OF 3(1) k3] 3(2) by (simp_all add: w4_def)
      show ?thesis
      proof (cases "fst (del ?k w3)")
        case (Some err)
        then have "w' = w4" "sent = [(r, t, None)]"
          using Cons.prems(5) False None by (simp_all add: sd split_beta Let_def w1_def w2_def w3_def w4_def)
        then show ?thesis using 4 Some by auto
      next
        case ok: None
        obtain e' sent' v where rec: "dispatch_loop aud mark del ctx snder rs w4 = (e', sent', v)" by (metis prod_cases3)
        have sent: "sent = (r, t, None) # sent'" and v: "v = w'"
          using Cons.prems(5) False None ok rec by (auto simp: sd split_beta Let_def w1_def w2_def w3_def w4_def)
        have "rec_RecordID ` set rs \<subseteq> dom (entries w4)" 
          using Cons.prems(3) 4(2) ok rest(2) by (auto simp del: image_subset_iff simp: subset_iff image_iff)
        note IH = Cons.IH [OF 4(1) rest(1) this Cons.prems(4) rec [unfolded v]]
        have dom4: "dom (entries w4) = dom (entries w) - {?k}" and other: "\<And>l. l \<noteq> ?k \<Longrightarrow> entries w4 l = entries w l"
          using 4(2) ok by auto
        have acc: "accepted_ids sent = insert ?k (accepted_ids sent')" using sent by simp
        have "dom (entries w) - dom (entries w') \<subseteq> accepted_ids sent" using IH unfolding acc dom4 by blast
        moreover have "\<forall>l. l \<notin> rec_RecordID ` set (r # rs) \<longrightarrow> entries w' l = entries w l" using IH other by simp
        ultimately show ?thesis using IH acc dom4 by auto
      qed
    qed
  qed
qed simp

end

section \<open>The outbox is such a store\<close>

lemma sys_clock_frame [frame_simps]:
  "w_clock (snd (os_ReadFile p w)) = w_clock w" "w_clock (snd (os_ReadDir p w)) = w_clock w"
  "w_clock (snd (os_Stat p w)) = w_clock w" "w_clock (snd (os_Remove p w)) = w_clock w"
  "w_clock (snd (os_Rename p q w)) = w_clock w" "w_clock (snd (os_OpenTrunc p m w)) = w_clock w"
  "w_clock (snd (file_Write p d w)) = w_clock w" "w_clock (snd (sys_unit w)) = w_clock w"
  by (auto simp: sys_defs Let_def split: option.splits node.splits)

lemma store_clock_frame [frame_simps]:
  "w_clock (snd (readRecordFile L p w)) = w_clock w" "w_clock (syncDir w) = w_clock w"
  "w_clock (snd (write_file_atomic p d w)) = w_clock w" "w_clock (snd (writeRecordAtomic L s r w)) = w_clock w"
  "w_clock (snd (list_entries L s es w)) = w_clock w" "w_clock (snd (listLocked L s w)) = w_clock w"
  "w_clock (snd (Due L s now n w)) = w_clock w" "w_clock (snd (MarkFailure L s k e w)) = w_clock w"
  "w_clock (snd (Delete L s k w)) = w_clock w"
proof -
  show rd: "w_clock (snd (readRecordFile L p w)) = w_clock w" for p w by (rule readRecordFile_clock)
  show sy: "w_clock (syncDir w) = w_clock w" for w by (simp add: syncDir_def split_beta Let_def frame_simps)
  show at: "w_clock (snd (write_file_atomic p d w)) = w_clock w" for p d w
    by (simp add: write_file_atomic_def split_beta Let_def frame_simps sy split: option.split)
  show wr: "w_clock (snd (writeRecordAtomic L s r w)) = w_clock w" for r w
    by (simp add: writeRecordAtomic_def at split: option.split)
  show le: "w_clock (snd (list_entries L s es w)) = w_clock w" for es w
    by (induction es arbitrary: w) (auto simp: split_beta Let_def rd)
  show ll: "w_clock (snd (listLocked L s w)) = w_clock w" for w
    by (simp add: listLocked_def split_beta Let_def frame_simps le split: sum.split)
  show "w_clock (snd (Due L s now n w)) = w_clock w" by (simp add: Due_def split_beta Let_def ll)
  show "w_clock (snd (MarkFailure L s k e w)) = w_clock w"
    by (simp add: MarkFailure_eq split_beta Let_def rd wr frame_simps split: sum.split)
  show "w_clock (snd (Delete L s k w)) = w_clock w"
    by (simp add: Delete_def split_beta Let_def rd frame_simps)
qed

text \<open>The state in which the agent keeps its outbox.\<close>

definition outbox_inv :: "golib \<Rightarrow> Store \<Rightarrow> world \<Rightarrow> bool" where
  "outbox_inv L s w \<longleftrightarrow> outbox_ok L s (w_fs w) \<and> clock_ok L w \<and>
     (\<forall>k r. stored L s (w_fs w) k = Some r \<longrightarrow> good_record L r)"

lemma outbox_inv_cong:
  "w_fs w' = w_fs w \<Longrightarrow> w_clock w' = w_clock w \<Longrightarrow> outbox_inv L s w' = outbox_inv L s w"
  by (simp add: outbox_inv_def clock_ok_def)

lemma MarkFailure_inv:
  fixes e :: "string option"
  assumes inv: "outbox_inv L s w" and k: "stored L s (w_fs w) k \<noteq> None"
  defines "w' \<equiv> snd (MarkFailure L s k e w)"
  shows "outbox_inv L s w'" and "dom (stored L s (w_fs w')) = dom (stored L s (w_fs w))"
    and "l \<noteq> k \<Longrightarrow> stored L s (w_fs w') l = stored L s (w_fs w) l"
proof -
  have ok: "outbox_ok L s (w_fs w)" and clock: "clock_ok L w"
    and good: "\<And>k r. stored L s (w_fs w) k = Some r \<Longrightarrow> good_record L r"
    using inv by (auto simp: outbox_inv_def)
  have ks: "CHR ''/'' \<notin> set k" using k stored_id(2) [OF ok] by blast
  note eff = MarkFailure_effect [OF ok clock ks good [of k], where e = e, folded w'_def]
  have cases: "stored L s (w_fs w') = stored L s (w_fs w) \<or>
      (\<exists>r'. good_record L r' \<and> stored L s (w_fs w') = (stored L s (w_fs w))(k \<mapsto> r'))"
  proof (cases "fst (MarkFailure L s k e w)")
    case (Inl err)
    then show ?thesis using eff(2) by simp
  next
    case (Inr r')
    then have "good_record L r'" "stored L s (w_fs w') = (stored L s (w_fs w))(k \<mapsto> norm_Record L r')"
      using eff(2) by auto
    then show ?thesis using good_norm by blast
  qed
  show "outbox_inv L s w'"
    using eff(1) cases clock good
    by (auto simp: outbox_inv_def clock_ok_def w'_def store_clock_frame split: if_splits)
  show "dom (stored L s (w_fs w')) = dom (stored L s (w_fs w))" using cases k by (auto split: if_splits)
  show "l \<noteq> k \<Longrightarrow> stored L s (w_fs w') l = stored L s (w_fs w) l" using cases by auto
qed

lemma Delete_inv:
  assumes inv: "outbox_inv L s w" and k: "stored L s (w_fs w) k \<noteq> None"
  shows "outbox_inv L s (snd (Delete L s k w))"
    and "stored L s (w_fs (snd (Delete L s k w))) =
      (if fst (Delete L s k w) = None then (stored L s (w_fs w))(k := None) else stored L s (w_fs w))"
proof -
  have ok: "outbox_ok L s (w_fs w)" using inv by (simp add: outbox_inv_def)
  have ks: "CHR ''/'' \<notin> set k" using k stored_id(2) [OF ok] by blast
  note eff = Delete_effect [OF ok ks]
  show "stored L s (w_fs (snd (Delete L s k w))) =
      (if fst (Delete L s k w) = None then (stored L s (w_fs w))(k := None) else stored L s (w_fs w))"
    by (rule eff(2))
  then show "outbox_inv L s (snd (Delete L s k w))"
    using eff(1) inv by (auto simp: outbox_inv_def clock_ok_def store_clock_frame split: if_splits)
qed

interpretation outbox: result_store "outbox_inv L s" "\<lambda>w. stored L s (w_fs w)" "writeAudit L wr" "MarkFailure L s" "Delete L s"
  for L s wr
proof
  show "outbox_inv L s w \<Longrightarrow> outbox_inv L s (writeAudit L wr e w) \<and> stored L s (w_fs (writeAudit L wr e w)) = stored L s (w_fs w)" for w e
    using outbox_inv_cong [of "writeAudit L wr e w" w L s] by (simp add: frame_simps)
qed (rule MarkFailure_inv Delete_inv; assumption)+

lemma DispatchOnce_keeps:
  assumes inv: "outbox_inv L (disp_store d) w"
    and quiet: "case sender d of None \<Rightarrow> True | Some (send, _) \<Rightarrow> outbox.quiet L (disp_store d) send"
    and run: "DispatchOnce L ctx (d, w) = (e, sent, d', w')"
  shows "outbox_inv L (disp_store d) w' \<and>
    dom (stored L (disp_store d) (w_fs w')) \<subseteq> dom (stored L (disp_store d) (w_fs w)) \<and>
    dom (stored L (disp_store d) (w_fs w)) - dom (stored L (disp_store d) (w_fs w')) \<subseteq> outbox.accepted_ids sent"
proof (cases "disp_sending d")
  case True
  then show ?thesis using run inv by (simp add: DispatchOnce_def)
next
  case False
  let ?s = "disp_store d" and ?w1 = "snd (time_Now w)"
  let ?due = "Due L (disp_store d) (fst (time_Now w)) 16 (snd (time_Now w))"
  have fr: "w_fs (snd ?due) = w_fs w" "w_clock (snd ?due) = w_clock w" by (simp_all add: frame_simps)
  have inv1: "outbox_inv L ?s (snd ?due)" using inv outbox_inv_cong [OF fr] by simp
  show ?thesis
  proof (cases "fst ?due")
    case (Inl err)
    then have "w' = snd ?due" "sent = []"
      using run False by (simp_all add: DispatchOnce_def split_beta Let_def)
    then show ?thesis using inv1 fr by simp
  next
    case (Inr rs)
    have ok: "outbox_ok L ?s (w_fs w)" using inv by (simp add: outbox_inv_def)
    have "set rs \<subseteq> set (pending L ?s (w_fs w))" using Due_subset [OF Inr] by (simp add: frame_simps)
    then have dom: "rec_RecordID ` set rs \<subseteq> dom (stored L ?s (w_fs (snd ?due)))"
      using set_pending [OF ok] stored_id(1) [OF ok] fr by (fastforce simp: dom_def)
    have dist: "distinct (map rec_RecordID rs)"
      using Due_distinct [OF _ Inr] ok by (simp add: frame_simps)
    have sd: "sender (d\<lparr>disp_sending := True\<rparr>) = sender d" by (simp add: sender_def split: option.split)
    obtain e' sent' v where loop: "dispatch_loop (writeAudit L (disp_audit d)) (MarkFailure L ?s) (Delete L ?s) ctx (sender d) rs (snd ?due) =
        (e', sent', v)" by (metis prod_cases3)
    then have "w' = v" "sent = sent'"
      using run False Inr by (simp_all add: DispatchOnce_def split_beta Let_def sd)
    then show ?thesis
      using outbox.dispatch_loop_keeps [OF inv1 dist dom quiet loop] fr by simp
  qed
qed

end
