(* ===== verification/Delivery_Properties.thy ===== *)
theory Delivery_Properties
  imports Dispatcher
begin

text \<open>
  The promises of the path a result takes: what is written to disk and when, what the limits drop,
  when a record is due again, and that nothing leaves the outbox before a sender has accepted it.
\<close>

section \<open>A sample outbox\<close>

definition sample_store :: Store where
  "sample_store = \<lparr>st_dir = ''/o'', st_maxRecords = 2, st_maxBytes = 100000, st_audit = None\<rparr>"

definition outbox_world :: world where
  "outbox_world = sample_world\<lparr>w_fs := [((True, []), FDir), ((True, [''o'']), FDir)]\<rparr>"

definition sample_envelope :: Envelope where
  "sample_envelope = zero_Envelope\<lparr>env_Type := MessageTypeResult, env_CorrelationID := ''cmd-0001'',
     env_Payload := Some (JObj [])\<rparr>"

definition sample_record :: Record where
  "sample_record = \<lparr>rec_RecordID = ''cmd-0001'', rec_CommandID = ''cmd-0001'', rec_CreatedAt = Second,
     rec_UpdatedAt = Second, rec_Attempts = 0, rec_LastError = [], rec_NextRetryAt = Second,
     rec_Envelope = sample_envelope\<rparr>"

lemma sample_simps [simp]:
  "st_dir sample_store = ''/o''" "rec_RecordID sample_record = ''cmd-0001''" "rec_CommandID sample_record = ''cmd-0001''"
  "rec_Envelope sample_record = sample_envelope" "env_Type sample_envelope = MessageTypeResult"
  "env_CorrelationID sample_envelope = ''cmd-0001''" "env_Payload sample_envelope = Some (JObj [])"
  by (simp_all add: sample_store_def sample_record_def sample_envelope_def)

lemma sample_dir [simp]: "clean_path ''/o'' = (True, [''o''])"
  by (simp add: clean_path_def)

lemma sample_path: "store_path sample_store ''cmd-0001'' = (True, [''o'', ''cmd-0001.json''])"
  using store_path_eq [of sample_store "''cmd-0001''"] by (simp add: sample_dir)

lemma sample_outbox_ok: "outbox_ok L sample_store (w_fs outbox_world)"
  by (simp add: outbox_ok_def sample_dir outbox_world_def entry_ok_def path_parent_def simple_name_def suffix_def)

lemma ascii_text_ok: "list_all is_ascii s \<Longrightarrow> text_ok L s"
  by (simp add: text_ok_def)

lemma sample_time_ok: "int64 t \<Longrightarrow> json_time_ok t \<Longrightarrow> time_ok sample_lib t"
  by (simp add: time_ok_def sample_lib_def ParseInt_show_int)

lemma sample_carries: "carries sample_lib env"
proof (unfold carries_def, intro allI impI)
  fix r assume "wf_Record sample_lib r"
  then obtain j where "marshal_Record sample_lib r = Some j" using marshal_Record_ok by blast
  then show "codec_at sample_lib r" by (simp add: codec_at_def) (simp add: sample_lib_def)
qed

lemma sample_ascii: "list_all is_ascii ''cmd-0001''" "list_all is_ascii ''result''"
  by (code_simp+)

lemma sample_good: "good_record sample_lib sample_record"
proof -
  have t: "time_ok sample_lib 0" "time_ok sample_lib Second"
    by (rule sample_time_ok; simp add: int64_def json_time_ok_def)+
  have "text_ok sample_lib ''cmd-0001''" "text_ok sample_lib ''result''" "text_ok sample_lib []"
    using sample_ascii by (auto intro: ascii_text_ok)
  then have "wf_Record sample_lib sample_record"
    using t by (simp add: wf_Record_def sample_record_def wf_Envelope_def sample_envelope_def zero_Envelope_def
        MessageTypeResult_def int64_def)
  then show ?thesis
    by (simp add: good_record_def sample_carries)
qed

lemma sample_new_record: "NewRecord sample_lib sample_envelope Second = Inr sample_record"
proof -
  have id: "sanitizeRecordID ''cmd-0001'' = ''cmd-0001''" by code_simp
  have "sanitizeEnvelope sample_lib sample_envelope = sample_envelope"
    by (simp add: sanitizeEnvelope_def sample_envelope_def)
  then show ?thesis
    by (simp add: NewRecord_def commandIDFromEnvelope_def sample_record_def id)
qed

lemma sample_saves: "saves sample_lib sample_store sample_envelope outbox_world sample_record"
proof -
  have "fst (time_Now outbox_world) = Second" by (simp add: time_Now_def outbox_world_def sample_world_def)
  moreover have "\<exists>e. fst (readRecordFile sample_lib (store_path sample_store ''cmd-0001'') (snd (time_Now outbox_world))) = Inl e"
    by (simp add: sample_path readRecordFile_def os_ReadFile_def sys_call_def time_Now_def outbox_world_def sample_world_def Let_def)
  ultimately show ?thesis
    using sample_new_record by (auto simp: saves_def keep_history_def)
qed

section \<open>Writing\<close>

text \<open>
  C17: writing a record is atomic under every pattern of failing system calls: when it reports success
  the file holds the whole new text and no temporary file is left, when it reports an error the file is
  as before; no other file but the temporary one is touched.
\<close>

theorem record_write_atomic:
  assumes "st_dir s \<noteq> []" and "CHR ''/'' \<notin> set (rec_RecordID r)"
    and "writeRecordAtomic L s r w = (e, w')"
    and "p = store_path s (rec_RecordID r)"
  shows "(\<forall>q. q \<noteq> p \<longrightarrow> q \<noteq> tmp_path p \<longrightarrow> map_of (w_fs w') q = map_of (w_fs w) q) \<and>
    (if e = None
     then \<exists>j m. marshal_Record L r = Some j \<and> map_of (w_fs w') p = Some (FFile m (lib_marshal_indent L j)) \<and>
       map_of (w_fs w') (tmp_path p) = None
     else map_of (w_fs w') p = map_of (w_fs w) p)"
proof (cases "marshal_Record L r")
  case None
  then show ?thesis using assms(3) by (auto simp: writeRecordAtomic_def)
next
  case (Some j)
  then have "write_file_atomic p (lib_marshal_indent L j) w = (e, w')"
    using assms(3,4) by (simp add: writeRecordAtomic_def)
  then show ?thesis
    using write_file_atomic_fs [of p, where d = "lib_marshal_indent L j" and w = w]
      tmp_not_store_path(2) [OF assms(1,2,2)] assms(4) Some
    by auto
qed

theorem record_write_atomic_witness:
  "\<exists>j m. map_of (w_fs (snd (writeRecordAtomic sample_lib sample_store sample_record outbox_world)))
      (True, [''o'', ''cmd-0001.json'']) = Some (FFile m (lib_marshal_indent sample_lib j))"
proof -
  have free: "writable sample_store (w_fs outbox_world) (rec_RecordID sample_record)"
    by (simp add: writable_def sample_record_def sample_path tmp_path_def path_append_def outbox_world_def)
  have "no_faults outbox_world" by (simp add: no_faults_def outbox_world_def sample_world_def)
  then have "fst (writeRecordAtomic sample_lib sample_store sample_record outbox_world) = None"
    using writeRecordAtomic_ok [OF sample_outbox_ok sample_good _ free] by simp
  then show ?thesis
    using record_write_atomic [of sample_store sample_record sample_lib outbox_world None
        "snd (writeRecordAtomic sample_lib sample_store sample_record outbox_world)" "store_path sample_store ''cmd-0001''"]
    by (auto simp: prod_eq_iff sample_path)
qed

section \<open>Saving\<close>



lemma sample_writable: "writable sample_store (w_fs outbox_world) ''cmd-0001''"
  by (simp add: writable_def sample_path tmp_path_def path_append_def outbox_world_def)

lemma sample_no_faults: "no_faults outbox_world"
  by (simp add: no_faults_def outbox_world_def sample_world_def)

text \<open>
  C16: when no system call fails, a saved result is in the outbox under its id with the history of the
  record it replaces, and then the limits keep the longest list of newest records that fits: what stays
  is a suffix of the records in their order of creation, within both limits, and no longer suffix is.
\<close>

theorem Save_keeps_newest:
  assumes "outbox_ok L s (w_fs w)" and "saves L s env w r" and "good_record L r"
    and "no_faults w" and "writable s (w_fs w) (rec_RecordID r)"
    and "0 < st_maxRecords s" and "0 < st_maxBytes s"
  shows "\<exists>fs w'. Save L s env w = Some (Inr r, w') \<and>
    stored L s fs = (stored L s (w_fs w))(rec_RecordID r \<mapsto> norm_Record L r) \<and>
    set (pending L s fs) = ran (stored L s fs) \<and> sorted (map rec_CreatedAt (pending L s fs)) \<and>
    suffix (pending L s (w_fs w')) (pending L s fs) \<and>
    within_limits s (record_size s fs) (pending L s (w_fs w')) \<and>
    (\<forall>qs. suffix qs (pending L s fs) \<longrightarrow> within_limits s (record_size s fs) qs \<longrightarrow>
       length qs \<le> length (pending L s (w_fs w')))"
proof -
  obtain fs w' where save: "Save L s env w = Some (Inr r, w')" and ok: "outbox_ok L s fs"
    and st: "stored L s fs = (stored L s (w_fs w))(rec_RecordID r \<mapsto> norm_Record L r)"
    and pend: "pending L s (w_fs w') = trim_oldest s (record_size s fs) (pending L s fs)"
    using Save_exact [OF assms(1-5)] by blast
  have "set (pending L s fs) = ran (stored L s fs)" by (auto simp: set_pending [OF ok] ran_def)
  moreover have "within_limits s (record_size s fs) (trim_oldest s (record_size s fs) (pending L s fs))"
    using assms(6,7) by (intro trim_oldest_within) simp_all
  ultimately show ?thesis
    using save st sorted_pending trim_oldest_suffix trim_oldest_longest
    by (intro exI [of _ fs] exI [of _ w'] conjI allI impI) (simp_all add: pend)
qed

theorem Save_keeps_newest_witness:
  "\<exists>w'. Save sample_lib sample_store sample_envelope outbox_world = Some (Inr sample_record, w')"
  using Save_keeps_newest [OF sample_outbox_ok sample_saves sample_good sample_no_faults]
  by (auto simp: sample_writable) (auto simp: sample_store_def)

text \<open>
  C18: enforcing the limits of the outbox terminates under every pattern of failing system calls as long
  as every record lies in the file of its own id; it only ever removes records.
\<close>

theorem enforceLimits_terminates:
  assumes "outbox_ok L s (w_fs w)"
  shows "\<exists>e w'. enforceLimitsLocked L s w = Some (e, w') \<and> outbox_ok L s (w_fs w') \<and>
    stored L s (w_fs w') \<subseteq>\<^sub>m stored L s (w_fs w)"
  using enforce_returns [OF assms] by (auto simp: enforced_def)

theorem enforceLimits_terminates_witness:
  "\<exists>e w'. enforceLimitsLocked sample_lib sample_store outbox_world = Some (e, w')"
  using enforceLimits_terminates [OF sample_outbox_ok] by blast

text \<open>
  C19: without that invariant it does not terminate: when the limits are exceeded and the oldest record
  names an id whose file does not exist, removing it removes nothing and the loop starts again.
\<close>

theorem enforceLimits_diverges:
  assumes "no_faults w" and "map_of (w_fs w) (store_dir s) = Some FDir"
    and "pending L s (w_fs w) = r # rs" and "map_of (w_fs w) (store_path s (rec_RecordID r)) = None"
    and "\<not> within_limits s (record_size s (w_fs w)) (r # rs)"
  shows "enforceLimitsLocked L s w = None"
  using assms by (rule enforce_stuck)

definition misnamed_text :: string where
  "misnamed_text = lib_marshal_indent sample_lib (the (marshal_Record sample_lib sample_record))"

definition misnamed_world :: world where
  "misnamed_world = sample_world\<lparr>w_fs := [((True, []), FDir), ((True, [''o'']), FDir),
     ((True, [''o'', ''a.json'']), FFile 384 misnamed_text), ((True, [''o'', ''b.json'']), FFile 384 misnamed_text)]\<rparr>"

lemma misnamed_decodes: "decode_record sample_lib misnamed_text = Inr sample_record"
proof -
  obtain j where "marshal_Record sample_lib sample_record = Some j"
    using marshal_Record_ok sample_good by (auto simp: good_record_def)
  then have "decode_record sample_lib misnamed_text = Inr (norm_Record sample_lib sample_record)"
    using decode_written [OF sample_good] by (simp add: misnamed_text_def)
  then show ?thesis by (simp add: norm_Record_def sample_record_def)
qed

theorem enforceLimits_diverges_witness:
  "enforceLimitsLocked sample_lib (sample_store\<lparr>st_maxRecords := 1\<rparr>) misnamed_world = None"
proof (rule enforceLimits_diverges)
  let ?s = "sample_store\<lparr>st_maxRecords := 1\<rparr>"
  have join: "path_join ''/o'' ''a.json'' = (True, [''o'', ''a.json''])" "path_join ''/o'' ''b.json'' = (True, [''o'', ''b.json''])"
    by (simp_all add: path_join_simple simple_name_def)
  have "suffix ''.json'' ''a.json''" "suffix ''.json'' ''b.json''" by (simp_all add: suffix_to_prefix)
  then show "pending sample_lib ?s (w_fs misnamed_world) = [sample_record, sample_record]"
    by (simp add: pending_def misnamed_world_def children_def path_parent_def List.map_filter_simps
        entry_record_def file_record_def join misnamed_decodes)
  have "store_path ?s ''cmd-0001'' = (True, [''o'', ''cmd-0001.json''])"
    using sample_path by (simp add: store_path_def)
  then show "map_of (w_fs misnamed_world) (store_path ?s (rec_RecordID sample_record)) = None"
    by (simp add: misnamed_world_def)
  show "no_faults misnamed_world" by (simp add: no_faults_def misnamed_world_def sample_world_def)
  show "map_of (w_fs misnamed_world) (clean_path (st_dir ?s)) = Some FDir" by (simp add: misnamed_world_def)
  show "\<not> within_limits ?s (record_size ?s (w_fs misnamed_world)) [sample_record, sample_record]"
    by (simp add: within_limits_def)
qed

section \<open>Failures and retries\<close>

text \<open>
  The delay before the n-th retry is five seconds doubled with each attempt and capped at one
  minute, and never under five seconds.
\<close>

theorem retryDelay_closed_form:
  "retryDelay n = (if n \<le> 0 then 5 * Second else min Minute (5 * Second * 2 ^ nat (n - 1))) \<and>
   5 * Second \<le> retryDelay n \<and> retryDelay n \<le> Minute"
  by (simp only: retryDelay_eq [symmetric] retryDelay_range simp_thms)

text \<open>
  C21: noting a failed delivery keeps the record in the outbox under every pattern of failing system
  calls: either nothing has changed, or the record has one attempt more, a bounded error text, and is
  due again after the delay for its attempts, give or take a fifth. No other record is touched.
\<close>

theorem MarkFailure_keeps_record:
  assumes "outbox_inv L s w" and "stored L s (w_fs w) k = Some r"
    and "MarkFailure L s k msg w = (res, w')"
  shows "outbox_inv L s w' \<and>
    (case res of
       Inl _ \<Rightarrow> stored L s (w_fs w') = stored L s (w_fs w)
     | Inr r' \<Rightarrow> stored L s (w_fs w') = (stored L s (w_fs w))(k \<mapsto> norm_Record L r') \<and>
         rec_Attempts r' = wrap64 (rec_Attempts r + 1) \<and> rec_Envelope r' = rec_Envelope r \<and>
         rec_CreatedAt r' = rec_CreatedAt r \<and> length (rec_LastError r') \<le> 200 \<and>
         \<bar>rec_NextRetryAt r' - rec_UpdatedAt r' - retryDelay (rec_Attempts r')\<bar> \<le> retryDelay (rec_Attempts r') div 5)"
proof -
  have ok: "outbox_ok L s (w_fs w)" "clock_ok L w" and good: "good_record L r"
    using assms by (auto simp: outbox_inv_def)
  have ks: "CHR ''/'' \<notin> set k" using stored_id(2) [OF ok(1) assms(2)] .
  have inv: "outbox_inv L s w'" using MarkFailure_inv(1) [OF assms(1), of k msg] assms(2,3) by simp
  note eff = MarkFailure_effect(2) [OF ok ks, of msg]
  show ?thesis
  proof (cases res)
    case (Inl e)
    then show ?thesis using eff good inv assms(2,3) by simp
  next
    case (Inr r')
    then obtain n jitter where "r' = failed_record msg (w_clock w n) jitter r"
      and "\<bar>jitter\<bar> \<le> retryDelay (wrap64 (rec_Attempts r + 1)) div 5"
      and "stored L s (w_fs w') = (stored L s (w_fs w))(k \<mapsto> norm_Record L r')"
      using eff good assms(2,3) by auto
    then show ?thesis using inv Inr by (auto simp: failed_record_def shortError_def split: option.split)
  qed
qed

definition stored_world :: world where
  "stored_world = sample_world\<lparr>w_fs := [((True, []), FDir), ((True, [''o'']), FDir),
     ((True, [''o'', ''cmd-0001.json'']), FFile 384 misnamed_text)]\<rparr>"

lemma stored_world_stored:
  "stored sample_lib sample_store (w_fs stored_world) k = (if k = ''cmd-0001'' then Some sample_record else None)"
proof (cases "CHR ''/'' \<in> set k")
  case True
  then show ?thesis by (auto simp: stored_def)
next
  case False
  have "k @ ''.json'' = ''cmd-0001.json'' \<longleftrightarrow> k = ''cmd-0001''"
    using append_same_eq [of k "''.json''" "''cmd-0001''"] by simp
  then show ?thesis
    using False store_path_eq [of sample_store k]
    by (simp add: stored_def file_record_def stored_world_def misnamed_decodes)
qed

lemma stored_world_inv: "outbox_inv sample_lib sample_store stored_world"
proof -
  have ok: "outbox_ok sample_lib sample_store (w_fs stored_world)"
    by (simp add: outbox_ok_def stored_world_def entry_ok_def path_parent_def simple_name_def misnamed_decodes suffix_to_prefix)
  have "clock_ok sample_lib stored_world"
    unfolding clock_ok_def
    by (intro allI ballI sample_time_ok) (simp_all add: stored_world_def sample_world_def int64_def json_time_ok_def)
  then show ?thesis using ok sample_good by (simp add: outbox_inv_def stored_world_stored)
qed

theorem MarkFailure_keeps_record_witness:
  "outbox_inv sample_lib sample_store (snd (MarkFailure sample_lib sample_store ''cmd-0001'' (Some ''offline'') stored_world))"
  using MarkFailure_keeps_record [OF stored_world_inv, of "''cmd-0001''" sample_record "Some ''offline''"
      "fst (MarkFailure sample_lib sample_store ''cmd-0001'' (Some ''offline'') stored_world)"
      "snd (MarkFailure sample_lib sample_store ''cmd-0001'' (Some ''offline'') stored_world)"]
  by (simp add: stored_world_stored)

text \<open>
  C20: a result in the outbox is offered again exactly when its time has come: without failing calls,
  Due lists the records whose next attempt is unset or not in the future, oldest first, and at most as
  many as asked for.
\<close>

theorem Due_exact:
  assumes "no_faults w" and "map_of (w_fs w) (store_dir s) = Some FDir"
  shows "fst (Due L s now limit w) =
    Inr (let due = filter (\<lambda>r. rec_NextRetryAt r = 0 \<or> rec_NextRetryAt r \<le> now) (pending L s (w_fs w))
         in if limit \<le> 0 then due else take (nat limit) due) \<and>
    sorted (map rec_CreatedAt (pending L s (w_fs w))) \<and> w_fs (snd (Due L s now limit w)) = w_fs w"
proof -
  have "due_loop now limit [] rs = (if limit \<le> 0 then filter (is_due now) rs else take (nat limit) (filter (is_due now) rs))" for rs
    using due_loop_eq [of limit "[]" now rs] by (cases "limit \<le> 0") simp_all
  moreover have "is_due now = (\<lambda>r. rec_NextRetryAt r = 0 \<or> rec_NextRetryAt r \<le> now)"
    by (auto simp: is_due_def time_IsZero_def)
  ultimately show ?thesis
    by (simp add: Due_def split_beta Let_def listLocked_eq [OF assms] sorted_pending frame_simps)
qed

theorem Due_exact_witness: "\<exists>rs. fst (Due sample_lib sample_store Second 16 misnamed_world) = Inr rs"
  using Due_exact [of misnamed_world sample_store sample_lib Second 16]
  by (simp add: misnamed_world_def no_faults_def sample_world_def)

section \<open>What a record holds\<close>

text \<open>
  C22: what the outbox keeps of a result on disk is redacted: every sensitive key of the payload holds
  the marker, at any depth, and no line of its two texts holds a sensitive word; the other members are
  those of the payload.
\<close>

theorem outbox_payload_sanitized:
  assumes "env_Payload env = Some (JObj kvs)" and "to_entries L False [] kvs = Some payload"
    and "NewRecord L env now = Inr r"
  shows "\<exists>m. env_Payload (rec_Envelope r) = Some (of_any L (AMap m)) \<and> sanitized L m \<and>
    (\<forall>k. map_of m k = (case map_of (Redact_entries L payload) k of
        Some (AString text) \<Rightarrow> Some (AString (if k \<in> {''stdout'', ''stderr''} then RedactText L text else text))
      | a \<Rightarrow> a))"
  using sanitizeEnvelope_payload [OF assms(1,2)] NewRecord_Inr(7) [OF assms(3)] by simp

theorem outbox_payload_sanitized_witness:
  "\<exists>m. env_Payload (rec_Envelope sample_record) = Some (of_any sample_lib (AMap m)) \<and> sanitized sample_lib m"
proof -
  have "env_Payload sample_envelope = Some (JObj [])" "to_entries sample_lib False [] [] = Some []" by simp_all
  from outbox_payload_sanitized [OF this sample_new_record] show ?thesis by blast
qed


section \<open>Delivery\<close>

text \<open>
  C14: no result is lost between the outbox and the network: whatever the senders answer and whatever
  system calls fail, a round of the dispatcher takes a record out of the outbox only when a sender has
  accepted that very record in this round, and puts none in.
\<close>

theorem dispatch_loses_nothing:
  assumes "outbox_inv L (disp_store d) w"
    and "case sender d of
        None \<Rightarrow> True
      | Some (send, _) \<Rightarrow> \<forall>r v. outbox_inv L (disp_store d) v \<longrightarrow> outbox_inv L (disp_store d) (snd (send r v)) \<and>
          stored L (disp_store d) (w_fs (snd (send r v))) = stored L (disp_store d) (w_fs v)"
    and "DispatchOnce L ctx (d, w) = (e, sent, d', w')"
  shows "outbox_inv L (disp_store d) w' \<and>
    dom (stored L (disp_store d) (w_fs w')) \<subseteq> dom (stored L (disp_store d) (w_fs w)) \<and>
    (\<forall>k. stored L (disp_store d) (w_fs w) k \<noteq> None \<and> stored L (disp_store d) (w_fs w') k = None \<longrightarrow>
       (\<exists>r t. (r, t, None) \<in> set sent \<and> rec_RecordID r = k))"
proof -
  have "case sender d of None \<Rightarrow> True | Some (send, _) \<Rightarrow> outbox.quiet L (disp_store d) send"
    using assms(2) by (auto simp: outbox.quiet_def split: option.splits)
  from DispatchOnce_keeps [OF assms(1) this assms(3)]
  have "outbox_inv L (disp_store d) w'"
    and sub: "dom (stored L (disp_store d) (w_fs w')) \<subseteq> dom (stored L (disp_store d) (w_fs w))"
    and acc: "dom (stored L (disp_store d) (w_fs w)) - dom (stored L (disp_store d) (w_fs w')) \<subseteq> outbox.accepted_ids sent"
    by auto
  moreover have "\<exists>r t. (r, t, None) \<in> set sent \<and> rec_RecordID r = k"
    if "stored L (disp_store d) (w_fs w) k \<noteq> None" "stored L (disp_store d) (w_fs w') k = None" for k
  proof -
    have "k \<in> outbox.accepted_ids sent" using that acc by (auto simp: dom_def)
    then show ?thesis unfolding outbox.accepted_ids_def by auto
  qed
  ultimately show ?thesis by blast
qed

definition sample_dispatcher :: ResultDispatcher where
  "sample_dispatcher = \<lparr>disp_store = sample_store, disp_audit = None, disp_wsSender = Some (\<lambda>r w. (Some ''offline'', w)),
     disp_pullSender = None, disp_sending = False\<rparr>"

theorem dispatch_loses_nothing_witness:
  "outbox_inv sample_lib sample_store (snd (snd (snd (DispatchOnce sample_lib (\<lambda>_. False) (sample_dispatcher, stored_world)))))"
proof -
  let ?r = "DispatchOnce sample_lib (\<lambda>_. False) (sample_dispatcher, stored_world)"
  have st: "disp_store sample_dispatcher = sample_store" by (simp add: sample_dispatcher_def)
  have "?r = (fst ?r, fst (snd ?r), fst (snd (snd ?r)), snd (snd (snd ?r)))" by simp
  from dispatch_loses_nothing [OF _ _ this] show ?thesis
    using stored_world_inv by (simp add: st) (simp add: sender_def sample_dispatcher_def)
qed

end
