(* ===== verification/Auth.thy ===== *)
theory Auth
  imports Samples
begin

unbundle bit_operations_syntax

text \<open>
  internal/auth/hmac.go: the canonical string of a request, its signature and its verification.
  SHA-256 and HMAC are parameters; hexadecimal, base64 and the constant-time comparison are written
  out. The lemmas show that verification accepts exactly the signature, and that the canonical string
  binds each of its parts.
\<close>

section \<open>Encodings\<close>

definition hex_digit :: "nat \<Rightarrow> char" where
  "hex_digit n = ''0123456789abcdef'' ! n"

definition hex_EncodeToString :: "string \<Rightarrow> string" where
  "hex_EncodeToString s = concat (map (\<lambda>c. [hex_digit (of_char c div 16), hex_digit (of_char c mod 16)]) s)"

definition base64_digit :: "nat \<Rightarrow> char" where
  "base64_digit n = ''ABCDEFGHIJKLMNOPQRSTUVWXYZabcdefghijklmnopqrstuvwxyz0123456789+/'' ! n"

text \<open>Three bytes become four characters; the last group is padded unless the encoding is raw.\<close>

fun base64_encode :: "string \<Rightarrow> string \<Rightarrow> string" where
  "base64_encode pad [] = []"
| "base64_encode pad [a] =
     [base64_digit (of_char a div 4), base64_digit (of_char a mod 4 * 16)] @ pad @ pad"
| "base64_encode pad [a, b] =
     [base64_digit (of_char a div 4), base64_digit (of_char a mod 4 * 16 + of_char b div 16),
      base64_digit (of_char b mod 16 * 4)] @ pad"
| "base64_encode pad (a # b # c # s) =
     [base64_digit (of_char a div 4), base64_digit (of_char a mod 4 * 16 + of_char b div 16),
      base64_digit (of_char b mod 16 * 4 + of_char c div 64), base64_digit (of_char c mod 64)] @ base64_encode pad s"

abbreviation StdEncoding :: "string \<Rightarrow> string" where
  "StdEncoding \<equiv> base64_encode ''=''"

abbreviation RawStdEncoding :: "string \<Rightarrow> string" where
  "RawStdEncoding \<equiv> base64_encode []"

section \<open>Constant-time comparison\<close>

text \<open>crypto/subtle: the comparison ors the differences of all bytes and tests the sum once.\<close>

definition ConstantTimeByteEq :: "8 word \<Rightarrow> 8 word \<Rightarrow> int" where
  "ConstantTimeByteEq x y = uint (drop_bit 31 (ucast (x XOR y) - 1 :: 32 word))"

definition ConstantTimeCompare :: "string \<Rightarrow> string \<Rightarrow> int" where
  "ConstantTimeCompare x y =
     (if length x \<noteq> length y then 0
      else ConstantTimeByteEq (foldl (\<lambda>v (a, b). v OR ((of_char a :: 8 word) XOR of_char b)) 0 (zip x y)) 0)"

section \<open>Signing\<close>

record SignInput =
  si_Method :: string
  si_Path :: string
  si_Timestamp :: string
  si_Nonce :: string
  si_Body :: string

definition BodySHA256 :: "golib \<Rightarrow> string \<Rightarrow> string" where
  "BodySHA256 L body = hex_EncodeToString (lib_sha256 L body)"

definition CanonicalString :: "golib \<Rightarrow> SignInput \<Rightarrow> string" where
  "CanonicalString L inp =
     ToUpper (lib_upper L) (si_Method inp) @ [newline] @ si_Path inp @ [newline] @ si_Timestamp inp @ [newline] @
     si_Nonce inp @ [newline] @ BodySHA256 L (si_Body inp)"

definition Sign :: "golib \<Rightarrow> string \<Rightarrow> SignInput \<Rightarrow> string" where
  "Sign L secret inp = StdEncoding (lib_hmac L secret (CanonicalString L inp))"

definition Verify :: "golib \<Rightarrow> string \<Rightarrow> SignInput \<Rightarrow> string \<Rightarrow> bool" where
  "Verify L secret inp signature = (ConstantTimeCompare (Sign L secret inp) signature = 1)"

section \<open>The comparison is equality\<close>

lemma xor_zero_iff: "x XOR y = 0 \<longleftrightarrow> x = (y :: 'a::len word)"
  by (auto simp: bit_eq_iff bit_xor_iff)

lemma or_zero_iff: "x OR y = 0 \<longleftrightarrow> x = 0 \<and> y = (0 :: 'a::len word)"
  by (auto simp: bit_eq_iff bit_or_iff)

lemma ConstantTimeByteEq_iff: "ConstantTimeByteEq x y = 1 \<longleftrightarrow> x = y"
proof -
  have pos: "ConstantTimeByteEq x y = 0" if "x \<noteq> y"
  proof -
    have ne: "x XOR y \<noteq> 0" using that by (simp add: xor_zero_iff)
    have lt: "uint (x XOR y) < 256" using uint_lt2p [of "x XOR y"] by simp
    have "uint (ucast (x XOR y) :: 32 word) = uint (x XOR y)" 
      using lt by (simp add: unsigned_ucast_eq take_bit_int_eq_self)
    moreover have ne1: "1 \<le> uint (x XOR y)" using ne by (metis int_one_le_iff_zero_less uint_nonnegative unsigned_eq_0_iff order_le_less)
    ultimately have "uint ((ucast (x XOR y) :: 32 word) - 1) = uint (x XOR y) - 1"
      using uint_sub_lem [of "1 :: 32 word" "ucast (x XOR y)"] by simp
    then show ?thesis
      using lt ne1 by (simp add: ConstantTimeByteEq_def drop_bit_eq_div uint_div div_pos_pos_trivial)
  qed
  show ?thesis
  proof
    assume "ConstantTimeByteEq x y = 1"
    then show "x = y" using pos by force
  next
    assume "x = y"
    then show "ConstantTimeByteEq x y = 1" by (simp add: ConstantTimeByteEq_def)
  qed
qed

lemma of_char_word_inj: "(of_char a :: 8 word) = of_char b \<longleftrightarrow> a = b"
proof
  assume eq: "(of_char a :: 8 word) = of_char b"
  have "unat (of_char c :: 8 word) = of_char c" for c
  proof -
    have "(of_char c :: 8 word) = of_nat (of_char c)" by (rule of_nat_of_char [symmetric])
    moreover have "(of_char c :: nat) < 256" by (rule nat_of_char_less_256)
    ultimately show ?thesis by (simp add: unsigned_of_nat take_bit_nat_eq_self)
  qed
  then show "a = b" using eq by (metis of_char_eq_iff)
qed simp

lemma fold_or_zero_iff:
  "length x = length y \<Longrightarrow>
   foldl (\<lambda>v (a, b). v OR ((of_char a :: 8 word) XOR of_char b)) v (zip x y) = 0 \<longleftrightarrow> v = 0 \<and> x = y"
proof (induction x y arbitrary: v rule: list_induct2)
  case (Cons a x b y)
  then show ?case by (simp add: or_zero_iff xor_zero_iff of_char_word_inj conj_assoc)
qed simp

lemma ConstantTimeCompare_iff: "ConstantTimeCompare x y = 1 \<longleftrightarrow> x = y"
  using fold_or_zero_iff [of x y 0] by (auto simp: ConstantTimeCompare_def ConstantTimeByteEq_iff)

section \<open>The canonical string binds its parts\<close>

lemma hex_digit_inj: "m < 16 \<Longrightarrow> n < 16 \<Longrightarrow> hex_digit m = hex_digit n \<longleftrightarrow> m = n"
proof -
  have "distinct ''0123456789abcdef''" by simp
  then show "m < 16 \<Longrightarrow> n < 16 \<Longrightarrow> hex_digit m = hex_digit n \<longleftrightarrow> m = n"
    by (simp add: hex_digit_def nth_eq_iff_index_eq)
qed

lemma hex_byte_inj:
  "hex_digit (of_char a div 16) = hex_digit (of_char b div 16) \<and> hex_digit (of_char a mod 16) = hex_digit (of_char b mod 16) \<longleftrightarrow> a = b"
proof -
  have lt: "(of_char c :: nat) div 16 < 16" "(of_char c :: nat) mod 16 < 16" for c
    using nat_of_char_less_256 [of c] by (simp_all add: less_mult_imp_div_less)
  have "of_char a = (of_char b :: nat)" if "of_char a div 16 = (of_char b div 16 :: nat)" "of_char a mod 16 = (of_char b mod 16 :: nat)"
    using that by (metis div_mult_mod_eq)
  then show ?thesis using lt by (auto simp: hex_digit_inj)
qed

lemma hex_inj: "hex_EncodeToString s = hex_EncodeToString t \<longleftrightarrow> s = t"
proof (induction s arbitrary: t)
  case Nil
  then show ?case by (cases t) (auto simp: hex_EncodeToString_def)
next
  case (Cons a s)
  show ?case
  proof (cases t)
    case Nil
    then show ?thesis by (simp add: hex_EncodeToString_def)
  next
    case (Cons b u)
    then show ?thesis using Cons.IH [of u] hex_byte_inj [of a b] by (auto simp: hex_EncodeToString_def)
  qed
qed

lemma split_at_newline:
  "newline \<notin> set a \<Longrightarrow> newline \<notin> set b \<Longrightarrow> a @ newline # s = b @ newline # t \<longleftrightarrow> a = b \<and> s = t"
proof (induction a arbitrary: b)
  case Nil
  then show ?case by (cases b) auto
next
  case (Cons c a)
  then show ?case by (cases b) auto
qed

definition one_line :: "SignInput \<Rightarrow> bool" where
  "one_line inp \<longleftrightarrow> newline \<notin> set (si_Path inp) \<and> newline \<notin> set (si_Timestamp inp) \<and> newline \<notin> set (si_Nonce inp)"

lemma CanonicalString_inj:
  assumes "one_line a" and "one_line b"
    and "newline \<notin> set (ToUpper (lib_upper L) (si_Method a))" and "newline \<notin> set (ToUpper (lib_upper L) (si_Method b))"
  shows "CanonicalString L a = CanonicalString L b \<longleftrightarrow>
    ToUpper (lib_upper L) (si_Method a) = ToUpper (lib_upper L) (si_Method b) \<and> si_Path a = si_Path b \<and>
    si_Timestamp a = si_Timestamp b \<and> si_Nonce a = si_Nonce b \<and> lib_sha256 L (si_Body a) = lib_sha256 L (si_Body b)"
  using assms by (simp add: CanonicalString_def BodySHA256_def one_line_def split_at_newline hex_inj)

section \<open>Base64 is faithful\<close>

lemma base64_digit_inj: "m < 64 \<Longrightarrow> n < 64 \<Longrightarrow> base64_digit m = base64_digit n \<longleftrightarrow> m = n"
proof -
  have "distinct ''ABCDEFGHIJKLMNOPQRSTUVWXYZabcdefghijklmnopqrstuvwxyz0123456789+/''" by code_simp
  then show "m < 64 \<Longrightarrow> n < 64 \<Longrightarrow> base64_digit m = base64_digit n \<longleftrightarrow> m = n"
    by (simp add: base64_digit_def nth_eq_iff_index_eq)
qed

lemma base64_sextets:
  fixes a b c :: char
  shows "(of_char a :: nat) div 4 < 64" "(of_char a :: nat) mod 4 * 16 < 64"
    "(of_char a :: nat) mod 4 * 16 + of_char b div 16 < 64" "(of_char b :: nat) mod 16 * 4 < 64"
    "(of_char b :: nat) mod 16 * 4 + of_char c div 64 < 64" "(of_char c :: nat) mod 64 < 64"
proof -
  have lt: "(of_char a :: nat) div 4 < 64" "(of_char b :: nat) div 16 < 16" "(of_char c :: nat) div 64 < 4"
    using nat_of_char_less_256 by (auto intro!: less_mult_imp_div_less)
  moreover have "(of_char a :: nat) mod 4 \<le> 3" "(of_char b :: nat) mod 16 \<le> 15"
    using mod_less_divisor [of 4 "of_char a :: nat"] mod_less_divisor [of 16 "of_char b :: nat"] by linarith+
  ultimately show "(of_char a :: nat) div 4 < 64" "(of_char a :: nat) mod 4 * 16 < 64"
    "(of_char a :: nat) mod 4 * 16 + of_char b div 16 < 64" "(of_char b :: nat) mod 16 * 4 < 64"
    "(of_char b :: nat) mod 16 * 4 + of_char c div 64 < 64" "(of_char c :: nat) mod 64 < 64"
    by (linarith | simp)+
qed

lemma digits_eq:
  fixes x y :: nat
  assumes "m * x + u = m * y + v" and "u < m" and "v < m"
  shows "x = y \<and> u = v"
proof -
  have "(u + m * x) div m = (v + m * y) div m" "(u + m * x) mod m = (v + m * y) mod m"
    using assms(1) by (simp_all add: add.commute)
  then show ?thesis using assms(2,3) by simp
qed

text \<open>The three bytes of a group are determined by its four characters.\<close>

lemma base64_group_inj:
  fixes a b c a' b' c' :: nat
  assumes "a div 4 = a' div 4" and "a mod 4 * 16 + b div 16 = a' mod 4 * 16 + b' div 16"
    and "b mod 16 * 4 + c div 64 = b' mod 16 * 4 + c' div 64" and "c mod 64 = c' mod 64"
    and "b < 256" "b' < 256" "c < 256" "c' < 256"
  shows "a = a' \<and> b = b' \<and> c = c'"
proof -
  have "a mod 4 = a' mod 4 \<and> b div 16 = b' div 16"
    using digits_eq [of 16 "a mod 4" "b div 16" "a' mod 4" "b' div 16"] assms
    by (simp add: mult.commute less_mult_imp_div_less)
  moreover have "b mod 16 = b' mod 16 \<and> c div 64 = c' div 64"
    using digits_eq [of 4 "b mod 16" "c div 64" "b' mod 16" "c' div 64"] assms
    by (simp add: mult.commute less_mult_imp_div_less)
  ultimately show ?thesis using assms(1,4) by (metis div_mult_mod_eq)
qed

lemma base64_no_pad: "n < 64 \<Longrightarrow> base64_digit n \<noteq> CHR ''=''"
proof -
  assume "n < 64"
  then have "base64_digit n \<in> set ''ABCDEFGHIJKLMNOPQRSTUVWXYZabcdefghijklmnopqrstuvwxyz0123456789+/''"
    unfolding base64_digit_def by (intro nth_mem) simp
  moreover have "CHR ''='' \<notin> set ''ABCDEFGHIJKLMNOPQRSTUVWXYZabcdefghijklmnopqrstuvwxyz0123456789+/''" by simp
  ultimately show ?thesis by metis
qed

lemmas base64_no_pads = base64_sextets [THEN base64_no_pad]
lemmas base64_eqs =
  base64_digit_inj [OF base64_sextets(1) base64_sextets(1)] base64_digit_inj [OF base64_sextets(2) base64_sextets(2)]
  base64_digit_inj [OF base64_sextets(3) base64_sextets(3)] base64_digit_inj [OF base64_sextets(4) base64_sextets(4)]
  base64_digit_inj [OF base64_sextets(5) base64_sextets(5)] base64_digit_inj [OF base64_sextets(6) base64_sextets(6)]

lemma base64_groups:
  "of_char a div 4 = (of_char a' div 4 :: nat) \<Longrightarrow> of_char a mod 4 = (of_char a' mod 4 :: nat) \<Longrightarrow> a = a'"
  "of_char a div 4 = (of_char a' div 4 :: nat) \<Longrightarrow>
   of_char a mod 4 * 16 + of_char b div 16 = (of_char a' mod 4 * 16 + of_char b' div 16 :: nat) \<Longrightarrow>
   of_char b mod 16 = (of_char b' mod 16 :: nat) \<Longrightarrow> a = a' \<and> b = b'"
  "of_char a div 4 = (of_char a' div 4 :: nat) \<Longrightarrow>
   of_char a mod 4 * 16 + of_char b div 16 = (of_char a' mod 4 * 16 + of_char b' div 16 :: nat) \<Longrightarrow>
   of_char b mod 16 * 4 + of_char c div 64 = (of_char b' mod 16 * 4 + of_char c' div 64 :: nat) \<Longrightarrow>
   of_char c mod 64 = (of_char c' mod 64 :: nat) \<Longrightarrow> a = a' \<and> b = b' \<and> c = c'"
  using base64_group_inj [of "of_char a" "of_char a'" "of_char b" "of_char b'" 0 0]
    base64_group_inj [of "of_char a" "of_char a'" "of_char b" "of_char b'" "of_char c" "of_char c'"]
    nat_of_char_less_256 [of b] nat_of_char_less_256 [of b'] nat_of_char_less_256 [of c] nat_of_char_less_256 [of c']
  by (metis div_mult_mod_eq of_char_eq_iff, simp, simp)

lemma StdEncoding_inj: "StdEncoding s = StdEncoding t \<longleftrightarrow> s = t"
proof
  show "StdEncoding s = StdEncoding t \<Longrightarrow> s = t"
  proof (induction "''=''" s arbitrary: t rule: base64_encode.induct)
    case 1
    then show ?case by (cases "(''='', t)" rule: base64_encode.cases) auto
  next
    case (2 a)
    then show ?case
      by (cases "(''='', t)" rule: base64_encode.cases)
         (simp_all add: base64_eqs base64_no_pads base64_no_pads [symmetric] base64_groups(1))
  next
    case (3 a b)
    then show ?case
      by (cases "(''='', t)" rule: base64_encode.cases)
         (simp_all add: base64_eqs base64_no_pads base64_no_pads [symmetric], metis base64_groups(2))
  next
    case (4 a b c s)
    then show ?case
      by (cases "(''='', t)" rule: base64_encode.cases)
         (simp_all add: base64_eqs base64_no_pads base64_no_pads [symmetric], metis base64_groups(3))
  qed
qed simp

section \<open>Properties\<close>

text \<open>
  C24: verification accepts exactly the signature of the request: the constant-time comparison of the
  code is equality, and equal signatures mean equal authentication codes.
\<close>

theorem Verify_exact:
  "(Verify L secret inp signature \<longleftrightarrow> signature = Sign L secret inp) \<and>
   (Sign L secret inp = Sign L secret' inp' \<longleftrightarrow>
      lib_hmac L secret (CanonicalString L inp) = lib_hmac L secret' (CanonicalString L inp'))"
  by (auto simp: Verify_def ConstantTimeCompare_iff Sign_def StdEncoding_inj)

text \<open>
  C25: the string that is signed binds the request: for requests whose parts hold no line break, equal
  strings mean the same method up to letter case, path, timestamp, nonce and body digest.
\<close>

theorem CanonicalString_binds:
  assumes "one_line a" and "one_line b"
    and "newline \<notin> set (ToUpper (lib_upper L) (si_Method a))" and "newline \<notin> set (ToUpper (lib_upper L) (si_Method b))"
    and "CanonicalString L a = CanonicalString L b"
  shows "ToUpper (lib_upper L) (si_Method a) = ToUpper (lib_upper L) (si_Method b) \<and> si_Path a = si_Path b \<and>
    si_Timestamp a = si_Timestamp b \<and> si_Nonce a = si_Nonce b \<and> lib_sha256 L (si_Body a) = lib_sha256 L (si_Body b)"
  using CanonicalString_inj [OF assms(1-4)] assms(5) by simp

definition sample_sign :: SignInput where
  "sample_sign = \<lparr>si_Method = ''GET'', si_Path = ''/ws'', si_Timestamp = ''t'', si_Nonce = ''n'', si_Body = []\<rparr>"

theorem CanonicalString_binds_witness:
  "CanonicalString sample_lib sample_sign = CanonicalString sample_lib (sample_sign\<lparr>si_Method := ''get''\<rparr>) \<and>
   lib_sha256 sample_lib (si_Body sample_sign) = lib_sha256 sample_lib (si_Body (sample_sign\<lparr>si_Method := ''get''\<rparr>))"
proof -
  let ?b = "sample_sign\<lparr>si_Method := ''get''\<rparr>"
  have up: "ToUpper (lib_upper sample_lib) ''GET'' = ''GET''" "ToUpper (lib_upper sample_lib) ''get'' = ''GET''" by code_simp+
  have one: "one_line sample_sign" "one_line ?b" by (simp_all add: one_line_def sample_sign_def)
  have nl: "newline \<notin> set (ToUpper (lib_upper sample_lib) (si_Method sample_sign))"
    "newline \<notin> set (ToUpper (lib_upper sample_lib) (si_Method ?b))"
    by (simp_all add: sample_sign_def up)
  have eq: "CanonicalString sample_lib sample_sign = CanonicalString sample_lib ?b"
    by (simp add: CanonicalString_def sample_sign_def up)
  show ?thesis using CanonicalString_binds [OF one nl eq] eq by simp
qed

end
