(* ===== verification/Messages.thy ===== *)
theory Messages
  imports Audit_Log Auth
begin

text \<open>
  internal/transport/ws_message.go, pull_message.go and the payloads of internal/protocol/ws.go: the
  messages the agent sends, their JSON documents, and how an envelope is put around a payload.
\<close>

section \<open>Payloads the agent sends\<close>

record MGateStatusSummary =
  ms_Available :: bool
  ms_ErrorCode :: string
  ms_SchemaVersion :: int
  ms_Version :: string
  ms_Mode :: string
  ms_OverallHealth :: string
  ms_WiFi :: "(string \<times> any) list option"
  ms_AP :: "(string \<times> any) list option"
  ms_Gateway :: "(string \<times> any) list option"
  ms_TProxy :: "(string \<times> any) list option"
  ms_Mihomo :: "(string \<times> any) list option"
  ms_Subscription :: "(string \<times> any) list option"
  ms_Web :: "(string \<times> any) list option"

definition zero_MGateStatusSummary :: MGateStatusSummary where
  "zero_MGateStatusSummary = \<lparr>ms_Available = False, ms_ErrorCode = [], ms_SchemaVersion = 0, ms_Version = [],
     ms_Mode = [], ms_OverallHealth = [], ms_WiFi = None, ms_AP = None, ms_Gateway = None, ms_TProxy = None,
     ms_Mihomo = None, ms_Subscription = None, ms_Web = None\<rparr>"

record HelloCapabilities =
  hc_Actions :: "string list"
  hc_Async :: bool
  hc_WebSocket :: bool
  hc_PullFallback :: bool
  hc_Outbox :: bool

record HelloConfigSnapshot =
  hcfg_MaxParallelJobs :: int
  hcfg_MaxOutputBytes :: int

record HelloPayload =
  hello_AgentVersion :: string
  hello_DeviceID :: string
  hello_TenantID :: string
  hello_DeviceName :: string
  hello_Capabilities :: HelloCapabilities
  hello_Config :: HelloConfigSnapshot

record HeartbeatPayload =
  hb_AgentVersion :: string
  hb_DeviceID :: string
  hb_UptimeSec :: int
  hb_ActiveJobs :: int
  hb_LastCommandID :: string
  hb_LastCommandState :: string
  hb_OutboxPending :: int
  hb_MGate :: "MGateStatusSummary option"

record PullRequestPayload =
  pr_AgentVersion :: string
  pr_DeviceID :: string
  pr_TenantID :: string
  pr_DeviceName :: string
  pr_LastCommandID :: string
  pr_LastCommandState :: string
  pr_ActiveJobs :: int
  pr_Transport :: string
  pr_MGate :: "MGateStatusSummary option"

record PullResponsePayload =
  pp_ServerTime :: time
  pp_Commands :: "Envelope list"

section \<open>json.Marshal\<close>

text \<open>A map that is nil or empty is left out.\<close>

definition omit_map :: "golib \<Rightarrow> string \<Rightarrow> (string \<times> any) list option \<Rightarrow> (string \<times> json) list" where
  "omit_map L k m = (case m of None \<Rightarrow> [] | Some kvs \<Rightarrow> if kvs = [] then [] else [(k, of_any L (AMap kvs))])"

definition marshal_MGateStatusSummary :: "golib \<Rightarrow> MGateStatusSummary \<Rightarrow> json" where
  "marshal_MGateStatusSummary L m = JObj
     ([(''available'', JBool (ms_Available m))] @
      omit_string L ''error_code'' (ms_ErrorCode m) @
      omit_int ''schema_version'' (ms_SchemaVersion m) @
      omit_string L ''version'' (ms_Version m) @
      omit_string L ''mode'' (ms_Mode m) @
      omit_string L ''overall_health'' (ms_OverallHealth m) @
      omit_map L ''wifi'' (ms_WiFi m) @
      omit_map L ''ap'' (ms_AP m) @
      omit_map L ''gateway'' (ms_Gateway m) @
      omit_map L ''tproxy'' (ms_TProxy m) @
      omit_map L ''mihomo'' (ms_Mihomo m) @
      omit_map L ''subscription'' (ms_Subscription m) @
      omit_map L ''web'' (ms_Web m))"

definition marshal_mgate :: "golib \<Rightarrow> MGateStatusSummary option \<Rightarrow> (string \<times> json) list" where
  "marshal_mgate L m = (case m of None \<Rightarrow> [] | Some s \<Rightarrow> [(''mgate'', marshal_MGateStatusSummary L s)])"

text \<open>A nil slice of strings is written as null.\<close>

definition marshal_HelloCapabilities :: "golib \<Rightarrow> HelloCapabilities \<Rightarrow> json" where
  "marshal_HelloCapabilities L c = JObj
     [(''actions'', if hc_Actions c = [] then JNull else JArr (map (JStr \<circ> json_text L) (hc_Actions c))),
      (''async'', JBool (hc_Async c)),
      (''websocket'', JBool (hc_WebSocket c)),
      (''pull_fallback'', JBool (hc_PullFallback c)),
      (''outbox'', JBool (hc_Outbox c))]"

definition marshal_HelloPayload :: "golib \<Rightarrow> HelloPayload \<Rightarrow> json option" where
  "marshal_HelloPayload L h = Some (JObj
     [(''agent_version'', JStr (json_text L (hello_AgentVersion h))),
      (''device_id'', JStr (json_text L (hello_DeviceID h))),
      (''tenant_id'', JStr (json_text L (hello_TenantID h))),
      (''device_name'', JStr (json_text L (hello_DeviceName h))),
      (''capabilities'', marshal_HelloCapabilities L (hello_Capabilities h)),
      (''config'', JObj [(''max_parallel_jobs'', json_int (hcfg_MaxParallelJobs (hello_Config h))),
                         (''max_output_bytes'', json_int (hcfg_MaxOutputBytes (hello_Config h)))])])"

definition marshal_HeartbeatPayload :: "golib \<Rightarrow> HeartbeatPayload \<Rightarrow> json option" where
  "marshal_HeartbeatPayload L h = Some (JObj
     ([(''agent_version'', JStr (json_text L (hb_AgentVersion h))),
       (''device_id'', JStr (json_text L (hb_DeviceID h))),
       (''uptime_sec'', json_int (hb_UptimeSec h)),
       (''active_jobs'', json_int (hb_ActiveJobs h)),
       (''last_command_id'', JStr (json_text L (hb_LastCommandID h))),
       (''last_command_state'', JStr (json_text L (hb_LastCommandState h))),
       (''outbox_pending'', json_int (hb_OutboxPending h))] @ marshal_mgate L (hb_MGate h)))"

definition marshal_PullRequestPayload :: "golib \<Rightarrow> PullRequestPayload \<Rightarrow> json option" where
  "marshal_PullRequestPayload L p = Some (JObj
     ([(''agent_version'', JStr (json_text L (pr_AgentVersion p))),
       (''device_id'', JStr (json_text L (pr_DeviceID p))),
       (''tenant_id'', JStr (json_text L (pr_TenantID p))),
       (''device_name'', JStr (json_text L (pr_DeviceName p))),
       (''last_command_id'', JStr (json_text L (pr_LastCommandID p))),
       (''last_command_state'', JStr (json_text L (pr_LastCommandState p))),
       (''active_jobs'', json_int (pr_ActiveJobs p)),
       (''transport'', JStr (json_text L (pr_Transport p)))] @ marshal_mgate L (pr_MGate p)))"

section \<open>json.Unmarshal\<close>

text \<open>
  An array is decoded into the slice that is there element by element, each into the element at its
  place where there is one, and the slice is cut to the length of the array; null makes it nil.
\<close>

fun dec_envelopes :: "golib \<Rightarrow> json list \<Rightarrow> Envelope list \<Rightarrow> Envelope list option" where
  "dec_envelopes L [] old = Some []"
| "dec_envelopes L (j # js) old =
     (case dec_struct (set_Envelope L) j (case old of [] \<Rightarrow> zero_Envelope | e # _ \<Rightarrow> e) of
        None \<Rightarrow> None
      | Some e \<Rightarrow> map_option ((#) e) (dec_envelopes L js (drop 1 old)))"

definition set_PullResponsePayload :: "golib \<Rightarrow> PullResponsePayload setter" where
  "set_PullResponsePayload L k j p =
     (if k = ''server_time'' then dec_time L j (\<lambda>t. p\<lparr>pp_ServerTime := t\<rparr>) p
      else if k = ''commands'' then
        (case j of
           JNull \<Rightarrow> Some (p\<lparr>pp_Commands := []\<rparr>)
         | JArr js \<Rightarrow> map_option (\<lambda>es. p\<lparr>pp_Commands := es\<rparr>) (dec_envelopes L js (pp_Commands p))
         | _ \<Rightarrow> None)
      else Some p)"

definition unmarshal_PullResponsePayload :: "golib \<Rightarrow> string \<Rightarrow> PullResponsePayload option" where
  "unmarshal_PullResponsePayload L data =
     (case lib_parse L data of
        None \<Rightarrow> None
      | Some j \<Rightarrow> dec_struct (set_PullResponsePayload L) j \<lparr>pp_ServerTime = 0, pp_Commands = []\<rparr>)"

section \<open>Envelopes\<close>

text \<open>Time.UnixNano: the nanoseconds from the Unix epoch, at 64 bits.\<close>

definition UnixNano :: "time \<Rightarrow> int" where
  "UnixNano t = wrap64 (t - 62135596800 * Second)"

definition newMessageID :: "world \<Rightarrow> string \<times> world" where
  "newMessageID w =
     (case rand_Read 12 w of
        (None, w) \<Rightarrow> (let (now, w) = time_Now w in (''msg_'' @ show_int (UnixNano now), w))
      | (Some b, w) \<Rightarrow> (''msg_'' @ hex_EncodeToString b, w))"

text \<open>The payload is given by what json.Marshal makes of it, \<^const>\<open>None\<close> for an error.\<close>

definition makeEnvelope :: "MessageType \<Rightarrow> string \<Rightarrow> string \<Rightarrow> json option \<Rightarrow> world \<Rightarrow> Envelope option \<times> world" where
  "makeEnvelope messageType deviceID correlationID payload w =
     (case payload of
        None \<Rightarrow> (None, w)
      | Some raw \<Rightarrow>
          (let (mid, w) = newMessageID w; (now, w) = time_Now w
           in (Some \<lparr>env_Version = envelopeVersion, env_Type = messageType, env_MessageID = mid,
                     env_CorrelationID = correlationID, env_DeviceID = deviceID, env_Timestamp = now,
                     env_Payload = Some raw\<rparr>, w)))"

section \<open>Lemmas\<close>

lemma newMessageID_frame [frame_simps]:
  "w_fs (snd (newMessageID w)) = w_fs w" "w_execs (snd (newMessageID w)) = w_execs w"
  "w_audit (snd (newMessageID w)) = w_audit w" "w_clock (snd (newMessageID w)) = w_clock w"
  "w_requests (snd (newMessageID w)) = w_requests w"
  by (simp_all add: newMessageID_def rand_Read_def time_Now_def split: option.split)

lemma makeEnvelope_frame [frame_simps]:
  "w_fs (snd (makeEnvelope t d c p w)) = w_fs w" "w_execs (snd (makeEnvelope t d c p w)) = w_execs w"
  "w_audit (snd (makeEnvelope t d c p w)) = w_audit w" "w_clock (snd (makeEnvelope t d c p w)) = w_clock w"
  "w_requests (snd (makeEnvelope t d c p w)) = w_requests w"
  by (simp_all add: makeEnvelope_def split_beta Let_def frame_simps time_Now_def split: option.split)

lemma makeEnvelope_Some:
  "fst (makeEnvelope t d c p w) = Some e \<Longrightarrow>
   p \<noteq> None \<and> env_Payload e = p \<and> env_Type e = t \<and> env_DeviceID e = d \<and> env_CorrelationID e = c \<and>
   env_Version e = envelopeVersion \<and> (\<exists>n. env_Timestamp e = w_clock w n)"
  by (auto simp: makeEnvelope_def split_beta Let_def time_Now_def frame_simps split: option.splits)

lemma makeEnvelope_None_iff: "fst (makeEnvelope t d c p w) = None \<longleftrightarrow> p = None"
  by (auto simp: makeEnvelope_def split_beta Let_def split: option.splits)

lemma newMessageID_length:
  "fst (rand_Read 12 w) \<noteq> None \<Longrightarrow> length (fst (newMessageID w)) = 28"
proof -
  assume "fst (rand_Read 12 w) \<noteq> None"
  then obtain b v where r: "rand_Read 12 w = (Some b, v)" and "length b = 12"
    by (auto simp: rand_Read_def)
  moreover have "length (hex_EncodeToString s) = 2 * length s" for s
    by (induction s) (simp_all add: hex_EncodeToString_def)
  ultimately show ?thesis by (simp add: newMessageID_def)
qed

end
