(* ===== verification/MGate_Client.thy ===== *)
theory MGate_Client
  imports Messages
begin

text \<open>
  internal/mgate/client.go: the two fixed calls of the local mgate script whose output the agent reads
  as JSON, and the status summary made of a snapshot. The lemmas show which processes a call can start,
  which error code each way of failing has, and that a summary does not carry what stood under a
  sensitive key.
\<close>

unbundle bit_operations_syntax

section \<open>Constants and state\<close>

definition CodeMGateMissing :: string where "CodeMGateMissing = ''mgate_missing''"
definition CodeMGateNotExecutable :: string where "CodeMGateNotExecutable = ''mgate_not_executable''"
definition CodeCapabilitiesTimeout :: string where "CodeCapabilitiesTimeout = ''capabilities_timeout''"
definition CodeCapabilitiesInvalidJSON :: string where "CodeCapabilitiesInvalidJSON = ''capabilities_invalid_json''"
definition CodeCapabilitiesUnsupportedSchema :: string where
  "CodeCapabilitiesUnsupportedSchema = ''capabilities_unsupported_schema''"
definition CodeSnapshotTimeout :: string where "CodeSnapshotTimeout = ''snapshot_timeout''"
definition CodeSnapshotInvalidJSON :: string where "CodeSnapshotInvalidJSON = ''snapshot_invalid_json''"
definition CodeSnapshotUnsupportedSchema :: string where "CodeSnapshotUnsupportedSchema = ''snapshot_unsupported_schema''"
definition CodeMGateExecFailed :: string where "CodeMGateExecFailed = ''mgate_exec_failed''"

definition SupportedSchemaVersion :: int where "SupportedSchemaVersion = 1"
definition defaultCommandTimeout :: duration where "defaultCommandTimeout = 2 * Second"

record mgate_Options =
  mo_Path :: string
  mo_CapabilitiesTimeout :: duration
  mo_SnapshotTimeout :: duration

record mgate_Client =
  mc_opts :: mgate_Options

datatype mgate_cause = ErrText string | CommandFailed exec_error

record mgate_Error =
  me_Code :: string
  me_Err :: "mgate_cause option"

text \<open>
  The text of an error, given the text os/exec has for its errors; a nil pointer has a text too.
  Unwrap gives the cause.
\<close>

definition mgate_Error_text :: "(exec_error \<Rightarrow> string) \<Rightarrow> mgate_Error option \<Rightarrow> string" where
  "mgate_Error_text exec_text e =
     (case e of
        None \<Rightarrow> ''mgate error''
      | Some e \<Rightarrow>
          (case me_Err e of
             None \<Rightarrow> me_Code e
           | Some (ErrText m) \<Rightarrow> me_Code e @ '': '' @ m
           | Some (CommandFailed x) \<Rightarrow> me_Code e @ '': '' @ ''mgate command failed: '' @ exec_text x))"

definition Unwrap :: "mgate_Error option \<Rightarrow> mgate_cause option" where
  "Unwrap e = (case e of None \<Rightarrow> None | Some e \<Rightarrow> me_Err e)"

definition NewClient :: "mgate_Options \<Rightarrow> mgate_Client" where
  "NewClient opts =
     (let opts = (if mo_CapabilitiesTimeout opts \<le> 0 then opts\<lparr>mo_CapabilitiesTimeout := defaultCommandTimeout\<rparr> else opts);
          opts = (if mo_SnapshotTimeout opts \<le> 0 then opts\<lparr>mo_SnapshotTimeout := defaultCommandTimeout\<rparr> else opts)
      in \<lparr>mc_opts = opts\<rparr>)"

text \<open>The argument is the mgate error that errors.As finds in the chain, if there is one.\<close>

definition ErrorCode :: "mgate_Error option \<Rightarrow> string" where
  "ErrorCode err =
     (case err of
        Some e \<Rightarrow> if me_Code e \<noteq> [] then me_Code e else CodeMGateExecFailed
      | None \<Rightarrow> CodeMGateExecFailed)"

section \<open>Running mgate\<close>

abbreviation mgate_fail :: "string \<Rightarrow> string \<Rightarrow> mgate_Error" where
  "mgate_fail code msg \<equiv> \<lparr>me_Code = code, me_Err = Some (ErrText msg)\<rparr>"

text \<open>The platform is not windows; the mask is octal 111.\<close>

definition ensureExecutable :: "string \<Rightarrow> world \<Rightarrow> mgate_Error option \<times> world" where
  "ensureExecutable path w =
     (let (info, w) = os_Stat (clean_path path) w
      in (case info of
            Inl ErrNotExist \<Rightarrow> (Some (mgate_fail CodeMGateMissing ''mgate executable is missing''), w)
          | Inl ErrIO \<Rightarrow> (Some (mgate_fail CodeMGateMissing ''mgate executable is not available''), w)
          | Inr FDir \<Rightarrow> (Some (mgate_fail CodeMGateNotExecutable ''mgate path is a directory''), w)
          | Inr (FFile mode _) \<Rightarrow>
              (if mode AND 73 = 0
               then (Some (mgate_fail CodeMGateNotExecutable ''mgate executable bit is not set''), w)
               else (None, w))))"

definition schemaVersion :: "golib \<Rightarrow> (string \<times> any) list \<Rightarrow> int" where
  "schemaVersion L payload =
     (case map_of payload ''schema_version'' of
        None \<Rightarrow> 0
      | Some (ANumber n) \<Rightarrow> (case ParseInt n of None \<Rightarrow> 0 | Some i \<Rightarrow> i)
      | Some (AFloat f) \<Rightarrow> lib_f64_int L f
      | Some (AInt i) \<Rightarrow> i
      | Some _ \<Rightarrow> 0)"

text \<open>What a decoder may still hold when its next Decode is to report io.EOF.\<close>

definition json_space :: "char \<Rightarrow> bool" where
  "json_space c \<longleftrightarrow> c = CHR '' '' \<or> c = CHR 0x09 \<or> c = newline \<or> c = CHR 0x0D"

text \<open>The output decoded into a map: null leaves it nil.\<close>

definition decode_object :: "golib \<Rightarrow> string \<Rightarrow> ((string \<times> any) list \<times> string) option" where
  "decode_object L data =
     (case lib_decode L data of
        Some (JObj kvs, rest) \<Rightarrow> map_option (\<lambda>m. (m, rest)) (to_entries L True [] kvs)
      | Some (JNull, rest) \<Rightarrow> Some ([], rest)
      | _ \<Rightarrow> None)"

definition stdout_of :: "outcome \<Rightarrow> string" where
  "stdout_of r = concat (map snd (filter fst (o_writes r)))"

definition decode_payload :: "golib \<Rightarrow> string \<Rightarrow> string \<Rightarrow> string \<Rightarrow> mgate_Error + (string \<times> any) list" where
  "decode_payload L invalidJSONCode schemaCode data =
     (case decode_object L data of
        None \<Rightarrow> Inl (mgate_fail invalidJSONCode ''mgate output is not valid JSON'')
      | Some (payload, rest) \<Rightarrow>
          if \<not> list_all json_space rest then Inl (mgate_fail invalidJSONCode ''mgate output has trailing JSON data'')
          else if schemaVersion L payload \<noteq> SupportedSchemaVersion
          then Inl (mgate_fail schemaCode ''unsupported mgate schema_version'')
          else Inr payload)"

definition runJSON ::
  "golib \<Rightarrow> mgate_Client \<Rightarrow> string \<Rightarrow> duration \<Rightarrow> string \<Rightarrow> string \<Rightarrow> string \<Rightarrow> world \<Rightarrow>
   (mgate_Error + (string \<times> any) list) \<times> world" where
  "runJSON L c command timeout timeoutCode invalidJSONCode schemaCode w =
     (case ensureExecutable (mo_Path (mc_opts c)) w of
        (Some e, w) \<Rightarrow> (Inl e, w)
      | (None, w) \<Rightarrow>
          (let (r, w) = cmd_Run \<lparr>p_path = mo_Path (mc_opts c), p_argv = [command], p_dir = None, p_timeout = timeout\<rparr> w
           in (case o_err r of
                 Some err \<Rightarrow>
                   (if o_deadline r then (Inl (mgate_fail timeoutCode ''mgate command timed out''), w)
                    else (Inl \<lparr>me_Code = CodeMGateExecFailed, me_Err = Some (CommandFailed err)\<rparr>, w))
               | None \<Rightarrow> (decode_payload L invalidJSONCode schemaCode (stdout_of r), w))))"

definition Capabilities :: "golib \<Rightarrow> mgate_Client \<Rightarrow> world \<Rightarrow> (mgate_Error + (string \<times> any) list) \<times> world" where
  "Capabilities L c w = runJSON L c ''capabilities-json'' (mo_CapabilitiesTimeout (mc_opts c))
     CodeCapabilitiesTimeout CodeCapabilitiesInvalidJSON CodeCapabilitiesUnsupportedSchema w"

definition Snapshot :: "golib \<Rightarrow> mgate_Client \<Rightarrow> world \<Rightarrow> (mgate_Error + (string \<times> any) list) \<times> world" where
  "Snapshot L c w = runJSON L c ''agent-snapshot'' (mo_SnapshotTimeout (mc_opts c))
     CodeSnapshotTimeout CodeSnapshotInvalidJSON CodeSnapshotUnsupportedSchema w"

section \<open>The summary\<close>

definition stringField :: "(string \<times> any) list \<Rightarrow> string \<Rightarrow> string" where
  "stringField payload key = (case map_of payload key of Some (AString s) \<Rightarrow> s | _ \<Rightarrow> [])"

definition objectField :: "golib \<Rightarrow> (string \<times> any) list \<Rightarrow> string \<Rightarrow> (string \<times> any) list option" where
  "objectField L payload key =
     (case map_of payload key of
        Some (AMap value) \<Rightarrow> (case Redact L (AMap value) of AMap r \<Rightarrow> Some r | _ \<Rightarrow> None)
      | _ \<Rightarrow> None)"

definition summaryFromSnapshot :: "golib \<Rightarrow> (string \<times> any) list \<Rightarrow> MGateStatusSummary" where
  "summaryFromSnapshot L snapshot =
     \<lparr>ms_Available = True, ms_ErrorCode = [], ms_SchemaVersion = schemaVersion L snapshot,
      ms_Version = stringField snapshot ''version'', ms_Mode = stringField snapshot ''mode'',
      ms_OverallHealth = stringField snapshot ''overall_health'', ms_WiFi = objectField L snapshot ''wifi'',
      ms_AP = objectField L snapshot ''ap'', ms_Gateway = objectField L snapshot ''gateway'',
      ms_TProxy = objectField L snapshot ''tproxy'', ms_Mihomo = objectField L snapshot ''mihomo'',
      ms_Subscription = objectField L snapshot ''subscription'', ms_Web = objectField L snapshot ''web''\<rparr>"

definition Summary :: "golib \<Rightarrow> mgate_Client \<Rightarrow> world \<Rightarrow> MGateStatusSummary \<times> world" where
  "Summary L c w =
     (case Snapshot L c w of
        (Inl err, w) \<Rightarrow> (zero_MGateStatusSummary\<lparr>ms_Available := False, ms_ErrorCode := ErrorCode (Some err)\<rparr>, w)
      | (Inr snapshot, w) \<Rightarrow> (summaryFromSnapshot L snapshot, w))"

section \<open>Lemmas\<close>

lemmas mgate_code_defs = CodeMGateMissing_def CodeMGateNotExecutable_def CodeCapabilitiesTimeout_def
  CodeCapabilitiesInvalidJSON_def CodeCapabilitiesUnsupportedSchema_def CodeSnapshotTimeout_def
  CodeSnapshotInvalidJSON_def CodeSnapshotUnsupportedSchema_def CodeMGateExecFailed_def

lemma ensureExecutable_frame [frame_simps]:
  "w_fs (snd (ensureExecutable p w)) = w_fs w" "w_execs (snd (ensureExecutable p w)) = w_execs w"
  "w_exec (snd (ensureExecutable p w)) = w_exec w" "w_audit (snd (ensureExecutable p w)) = w_audit w"
  "w_clock (snd (ensureExecutable p w)) = w_clock w" "w_requests (snd (ensureExecutable p w)) = w_requests w"
  "w_reads (snd (ensureExecutable p w)) = w_reads w"
  by (simp_all add: ensureExecutable_def os_Stat_def sys_call_def Let_def
      split: option.split sum.split node.split os_error.split)

lemma ensureExecutable_None:
  "fst (ensureExecutable p w) = None \<longleftrightarrow>
   w_fault w (w_calls w) = None \<and> (\<exists>mode b. map_of (w_fs w) (clean_path p) = Some (FFile mode b) \<and> mode AND 73 \<noteq> 0)"
  by (auto simp: ensureExecutable_def os_Stat_def sys_call_def Let_def
      split: option.splits sum.splits node.splits os_error.splits)

lemma ensureExecutable_code:
  "fst (ensureExecutable p w) = Some e \<Longrightarrow> me_Code e = CodeMGateMissing \<or> me_Code e = CodeMGateNotExecutable"
  by (auto simp: ensureExecutable_def Let_def split: option.splits sum.splits node.splits os_error.splits if_splits prod.splits)

abbreviation mgate_proc :: "mgate_Client \<Rightarrow> string \<Rightarrow> duration \<Rightarrow> proc" where
  "mgate_proc c command timeout \<equiv> \<lparr>p_path = mo_Path (mc_opts c), p_argv = [command], p_dir = None, p_timeout = timeout\<rparr>"

lemma runJSON_unfold:
  "runJSON L c command timeout tc jc sc w =
     (let e = fst (ensureExecutable (mo_Path (mc_opts c)) w); w = snd (ensureExecutable (mo_Path (mc_opts c)) w)
      in (case e of
            Some e \<Rightarrow> (Inl e, w)
          | None \<Rightarrow>
              (let r = w_exec w (w_execs w) (mgate_proc c command timeout)
               in (case o_err r of
                     Some err \<Rightarrow>
                       (if o_deadline r then Inl (mgate_fail tc ''mgate command timed out'')
                        else Inl \<lparr>me_Code = CodeMGateExecFailed, me_Err = Some (CommandFailed err)\<rparr>)
                   | None \<Rightarrow> decode_payload L jc sc (stdout_of r),
                   w\<lparr>w_execs := w_execs w @ [mgate_proc c command timeout]\<rparr>))))"
  by (simp add: runJSON_def cmd_Run_def Let_def split: prod.split option.split)

lemma runJSON_frame [frame_simps]:
  "w_fs (snd (runJSON L c cm t tc jc sc w)) = w_fs w" "w_audit (snd (runJSON L c cm t tc jc sc w)) = w_audit w"
  "w_clock (snd (runJSON L c cm t tc jc sc w)) = w_clock w" "w_requests (snd (runJSON L c cm t tc jc sc w)) = w_requests w"
  "w_exec (snd (runJSON L c cm t tc jc sc w)) = w_exec w" "w_reads (snd (runJSON L c cm t tc jc sc w)) = w_reads w"
  by (simp_all add: runJSON_unfold Let_def frame_simps split: option.split)

lemma decode_payload_codes:
  "case decode_payload L jc sc data of
     Inr m \<Rightarrow> schemaVersion L m = SupportedSchemaVersion
   | Inl e \<Rightarrow> me_Code e = jc \<or> me_Code e = sc"
  by (simp add: decode_payload_def split: option.split prod.split)

lemma runJSON_codes:
  "case fst (runJSON L c command timeout tc jc sc w) of
     Inr m \<Rightarrow> schemaVersion L m = SupportedSchemaVersion
   | Inl e \<Rightarrow> me_Code e \<in> {CodeMGateMissing, CodeMGateNotExecutable, CodeMGateExecFailed, tc, jc, sc}"
proof (cases "fst (ensureExecutable (mo_Path (mc_opts c)) w)")
  case (Some e)
  then show ?thesis using ensureExecutable_code [OF Some] by (auto simp: runJSON_unfold Let_def)
next
  case None
  let ?w = "snd (ensureExecutable (mo_Path (mc_opts c)) w)"
  let ?r = "w_exec ?w (w_execs ?w) (mgate_proc c command timeout)"
  show ?thesis
    using decode_payload_codes [where L = L and jc = jc and sc = sc and data = "stdout_of ?r"] None
    by (cases "o_err ?r") (auto simp: runJSON_unfold Let_def split: sum.splits)
qed

lemma runJSON_execs:
  "w_execs (snd (runJSON L c command timeout tc jc sc w)) =
   w_execs w @ (if fst (ensureExecutable (mo_Path (mc_opts c)) w) = None then [mgate_proc c command timeout] else [])"
  by (simp add: runJSON_unfold Let_def frame_simps split: option.split)

lemma Summary_frame [frame_simps]:
  "w_fs (snd (Summary L c w)) = w_fs w" "w_audit (snd (Summary L c w)) = w_audit w"
  "w_clock (snd (Summary L c w)) = w_clock w" "w_requests (snd (Summary L c w)) = w_requests w"
  "w_exec (snd (Summary L c w)) = w_exec w" "w_reads (snd (Summary L c w)) = w_reads w"
proof -
  have "snd (Summary L c w) = snd (Snapshot L c w)"
    by (cases "Snapshot L c w") (simp add: Summary_def split: sum.split)
  then show "w_fs (snd (Summary L c w)) = w_fs w" "w_audit (snd (Summary L c w)) = w_audit w"
    "w_clock (snd (Summary L c w)) = w_clock w" "w_requests (snd (Summary L c w)) = w_requests w"
    "w_exec (snd (Summary L c w)) = w_exec w" "w_reads (snd (Summary L c w)) = w_reads w"
    by (simp_all add: Snapshot_def frame_simps)
qed

lemma Summary_execs:
  "w_execs (snd (Summary L c w)) = w_execs w \<or>
   w_execs (snd (Summary L c w)) = w_execs w @ [mgate_proc c ''agent-snapshot'' (mo_SnapshotTimeout (mc_opts c))]"
proof -
  have "snd (Summary L c w) = snd (Snapshot L c w)"
    by (cases "Snapshot L c w") (simp add: Summary_def split: sum.split)
  then show ?thesis by (simp add: Snapshot_def runJSON_execs)
qed

text \<open>A field under a key that is not sensitive depends on the redacted snapshot only.\<close>

lemma stringField_Redact:
  "\<not> isSensitiveKey L key \<Longrightarrow> stringField (Redact_entries L m) key = stringField m key"
proof -
  have "(case Redact L a of AString s \<Rightarrow> s | _ \<Rightarrow> []) = (case a of AString s \<Rightarrow> s | _ \<Rightarrow> [])" for a
    by (cases a) simp_all
  then show "\<not> isSensitiveKey L key \<Longrightarrow> ?thesis"
    by (simp add: stringField_def map_of_Redact_entries split: option.split)
qed

lemma objectField_Redact:
  "\<not> isSensitiveKey L key \<Longrightarrow> objectField L (Redact_entries L m) key = objectField L m key"
proof -
  have "(case Redact L a of AMap v \<Rightarrow> (case Redact L (AMap v) of AMap r \<Rightarrow> Some r | _ \<Rightarrow> None) | _ \<Rightarrow> None) =
      (case a of AMap v \<Rightarrow> (case Redact L (AMap v) of AMap r \<Rightarrow> Some r | _ \<Rightarrow> None) | _ \<Rightarrow> None)" for a
  proof (cases a)
    case (AMap v)
    then show ?thesis using Redact_idem [of L "AMap v"] by simp
  qed simp_all
  then show "\<not> isSensitiveKey L key \<Longrightarrow> ?thesis"
    unfolding objectField_def map_of_Redact_entries by (cases "map_of m key") simp_all
qed

lemma schemaVersion_Redact:
  "\<not> isSensitiveKey L ''schema_version'' \<Longrightarrow> schemaVersion L (Redact_entries L m) = schemaVersion L m"
proof -
  let ?f = "\<lambda>a. case a of ANumber n \<Rightarrow> (case ParseInt n of None \<Rightarrow> 0 | Some i \<Rightarrow> i) | AFloat f \<Rightarrow> lib_f64_int L f | AInt i \<Rightarrow> i | _ \<Rightarrow> 0"
  have f: "schemaVersion L p = (case map_of p ''schema_version'' of None \<Rightarrow> 0 | Some a \<Rightarrow> ?f a)" for p
    by (simp add: schemaVersion_def split: option.split any.split)
  have "?f (Redact L a) = ?f a" for a by (cases a) simp_all
  then show "\<not> isSensitiveKey L ''schema_version'' \<Longrightarrow> ?thesis"
    unfolding f map_of_Redact_entries by (cases "map_of m ''schema_version''") simp_all
qed

lemma summary_keys_public:
  "k \<in> {''schema_version'', ''version'', ''mode'', ''overall_health'', ''wifi'', ''ap'', ''gateway'', ''tproxy'', ''mihomo'', ''subscription'', ''web''} \<Longrightarrow>
   \<not> isSensitiveKey L k"
proof -
  have lower: "ToLower u s = map lower_byte s" if "list_all is_ascii s" for u s
    using that by (simp add: ToLower_def map_case_ascii)
  show "k \<in> {''schema_version'', ''version'', ''mode'', ''overall_health'', ''wifi'', ''ap'', ''gateway'', ''tproxy'', ''mihomo'', ''subscription'', ''web''} \<Longrightarrow> ?thesis"
    by (auto simp: isSensitiveKey_def lower is_ascii_def lower_byte_def less_eq_char_def suffix_def Let_def)
qed

lemma summaryFromSnapshot_Redact: "summaryFromSnapshot L (Redact_entries L m) = summaryFromSnapshot L m"
  by (simp add: summaryFromSnapshot_def stringField_Redact objectField_Redact schemaVersion_Redact summary_keys_public)

lemma objectField_redacted: "case objectField L m key of None \<Rightarrow> True | Some v \<Rightarrow> redacted_entries L v"
  by (simp add: objectField_def redacted_Redact split: option.split any.split)

section \<open>Properties\<close>

text \<open>
  C27: a status summary does not tell what mgate printed under a sensitive key: two snapshots that differ
  at most there, at any depth, have the same summary, and each object in it is redacted.
\<close>

theorem summary_noninterference:
  assumes "public_eq L (AMap snapshot) (AMap other)"
  shows "summaryFromSnapshot L snapshot = summaryFromSnapshot L other \<and>
    (\<forall>field \<in> {ms_WiFi, ms_AP, ms_Gateway, ms_TProxy, ms_Mihomo, ms_Subscription, ms_Web}.
       case field (summaryFromSnapshot L snapshot) of None \<Rightarrow> True | Some v \<Rightarrow> redacted_entries L v)"
proof -
  have "Redact_entries L snapshot = Redact_entries L other"
    using assms by (simp add: public_eq_iff_Redact)
  then have "summaryFromSnapshot L snapshot = summaryFromSnapshot L other"
    by (metis summaryFromSnapshot_Redact)
  then show ?thesis
    by (simp only: ball_simps insert_iff empty_iff) (simp add: summaryFromSnapshot_def objectField_redacted)
qed

definition sample_snapshot :: "string \<Rightarrow> (string \<times> any) list" where
  "sample_snapshot psk = [(''schema_version'', ANumber ''1''), (''wifi'', AMap [(''ssid'', AString ''home''), (''psk'', AString psk)])]"

theorem summary_noninterference_witness:
  "summaryFromSnapshot sample_lib (sample_snapshot ''hunter2'') = summaryFromSnapshot sample_lib (sample_snapshot ''swordfish'')"
proof -
  have "isSensitiveKey sample_lib ''psk''" by code_simp
  then have "public_eq sample_lib (AMap (sample_snapshot ''hunter2'')) (AMap (sample_snapshot ''swordfish''))"
    by (simp add: sample_snapshot_def public_eq_iff_Redact)
  then show ?thesis using summary_noninterference by blast
qed


end
