(* ===== verification/Http_Auth.thy ===== *)
theory Http_Auth
  imports Dispatcher MGate_Client
begin

text \<open>
  internal/transport/http_auth.go, the options of client.go and the parts of ws_client.go that
  build URLs and authentication headers. The lemmas show when a URL is built and of which parts, and
  that the headers of a request carry a signature of exactly what is sent.
\<close>

section \<open>Options\<close>

definition DefaultMaxMessageBytes :: int where "DefaultMaxMessageBytes = 64 * 1024"
definition DefaultCommandQueueSize :: int where "DefaultCommandQueueSize = 16"
definition DefaultOutboundSize :: int where "DefaultOutboundSize = 32"
definition DefaultMaxPullCommands :: int where "DefaultMaxPullCommands = 16"

text \<open>
  The agent has one command handler and one dispatcher, which the transports share; an option that
  points to one of them is present or nil. The status provider is the function it calls. The client of
  package net/http is given by its timeout.
\<close>

type_synonym object_ref = "unit option"
type_synonym MGateStatusProvider = "world \<Rightarrow> MGateStatusSummary \<times> world"

record WSClientOptions =
  wo_BaseURL :: string
  wo_WSPath :: string
  wo_RequestTimeout :: duration
  wo_HeartbeatInterval :: duration
  wo_MaxMessageBytes :: int
  wo_CommandQueueSize :: int
  wo_OutboundSize :: int
  wo_MaxParallelJobs :: int
  wo_MaxOutputBytes :: int
  wo_ReconnectMinDelay :: duration
  wo_ReconnectMaxDelay :: duration
  wo_DeviceID :: string
  wo_TenantID :: string
  wo_DeviceSecret :: string
  wo_AgentVersion :: string
  wo_DeviceName :: string
  wo_AllowedActions :: "string list"
  wo_PullFallback :: bool
  wo_Handler :: object_ref
  wo_MGateStatus :: "MGateStatusProvider option"
  wo_HealthEvents :: object_ref
  wo_Dispatcher :: object_ref

record PullClientOptions =
  po_BaseURL :: string
  po_PullPath :: string
  po_ResultPath :: string
  po_RequestTimeout :: duration
  po_PullInterval :: duration
  po_MaxResponseBytes :: int
  po_MaxCommands :: int
  po_ReconnectMinDelay :: duration
  po_ReconnectMaxDelay :: duration
  po_DeviceID :: string
  po_TenantID :: string
  po_DeviceSecret :: string
  po_AgentVersion :: string
  po_DeviceName :: string
  po_Handler :: object_ref
  po_MGateStatus :: "MGateStatusProvider option"
  po_Client :: "duration option"
  po_Dispatcher :: object_ref

datatype HealthState = HealthConnected | HealthDisconnected

section \<open>Errors\<close>

datatype transport_error =
    ParseBaseURL | BaseURLScheme | BaseURLHost | ParsePath | PathNotAbsolute
  | NonceFailed | RequestInvalid | MarshalFailed
  | HTTPFailed string | BadStatus int | ReadFailed | ResponseTooLarge int | DecodeResponse
  | TooManyCommands nat | OutboxFailed outbox_error
  | DialFailed | ReadWebSocket | NotText | DecodeEnvelope | WriteWebSocket
  | ExpectedHelloAck string | DecodeHelloAck | HelloRejected string | ContextDone
  | NeedsHandler | NeedsDispatcher

section \<open>URLs\<close>

definition url_IsAbs :: "url \<Rightarrow> bool" where
  "url_IsAbs u \<longleftrightarrow> url_Scheme u \<noteq> []"

text \<open>The part both builders share: the path is set, query and fragment are dropped.\<close>

definition with_path :: "golib \<Rightarrow> url \<Rightarrow> string \<Rightarrow> transport_error + string" where
  "with_path L u path =
     (if url_Host u = [] then Inl BaseURLHost
      else (case lib_url_parse L path of
              None \<Rightarrow> Inl ParsePath
            | Some pathURL \<Rightarrow>
                if url_IsAbs pathURL \<or> \<not> HasPrefix path ''/'' then Inl PathNotAbsolute
                else Inr (lib_url_string L (u\<lparr>url_Path := path, url_RawQuery := [], url_Fragment := []\<rparr>))))"

definition BuildHTTPURL :: "golib \<Rightarrow> string \<Rightarrow> string \<Rightarrow> transport_error + string" where
  "BuildHTTPURL L baseURL path =
     (case lib_url_parse L baseURL of
        None \<Rightarrow> Inl ParseBaseURL
      | Some u \<Rightarrow>
          if url_Scheme u \<noteq> ''http'' \<and> url_Scheme u \<noteq> ''https'' then Inl BaseURLScheme
          else with_path L u path)"

definition BuildWebSocketURL :: "golib \<Rightarrow> string \<Rightarrow> string \<Rightarrow> transport_error + string" where
  "BuildWebSocketURL L baseURL wsPath =
     (case lib_url_parse L baseURL of
        None \<Rightarrow> Inl ParseBaseURL
      | Some u \<Rightarrow>
          if url_Scheme u = ''https'' then with_path L (u\<lparr>url_Scheme := ''wss''\<rparr>) wsPath
          else if url_Scheme u = ''http'' then with_path L (u\<lparr>url_Scheme := ''ws''\<rparr>) wsPath
          else Inl BaseURLScheme)"

section \<open>Headers\<close>

text \<open>
  net/textproto's canonical form of a header name: letters are lower case but the first and those
  after a dash; a name with a byte that is not allowed stays as it is.
\<close>

definition header_byte :: "char \<Rightarrow> bool" where
  "header_byte c \<longleftrightarrow> CHR ''A'' \<le> c \<and> c \<le> CHR ''Z'' \<or> CHR ''a'' \<le> c \<and> c \<le> CHR ''z'' \<or> is_digit c \<or>
     c \<in> set ''!#$%&*+-.^_|~`'' \<or> c = CHR 0x27"

fun canonical_from :: "bool \<Rightarrow> string \<Rightarrow> string" where
  "canonical_from up [] = []"
| "canonical_from up (c # cs) = (if up then upper_byte c else lower_byte c) # canonical_from (c = CHR ''-'') cs"

definition CanonicalHeaderKey :: "string \<Rightarrow> string" where
  "CanonicalHeaderKey k = (if list_all header_byte k then canonical_from True k else k)"

type_synonym http_Header = "(string \<times> string list) list"

definition Header_Set :: "string \<Rightarrow> string \<Rightarrow> http_Header \<Rightarrow> http_Header" where
  "Header_Set k v h = map_put (CanonicalHeaderKey k) [v] h"

definition Header_Add :: "string \<Rightarrow> string \<Rightarrow> http_Header \<Rightarrow> http_Header" where
  "Header_Add k v h =
     (let k = CanonicalHeaderKey k in map_put k ((case map_of h k of None \<Rightarrow> [] | Some vs \<Rightarrow> vs) @ [v]) h)"

definition Header_Get :: "string \<Rightarrow> http_Header \<Rightarrow> string" where
  "Header_Get k h = (case map_of h (CanonicalHeaderKey k) of Some (v # _) \<Rightarrow> v | _ \<Rightarrow> [])"

definition randomNonce :: "world \<Rightarrow> (transport_error + string) \<times> world" where
  "randomNonce w =
     (case rand_Read 16 w of
        (None, w) \<Rightarrow> (Inl NonceFailed, w)
      | (Some b, w) \<Rightarrow> (Inr (RawStdEncoding b), w))"

definition auth_header :: "string \<Rightarrow> string \<Rightarrow> string \<Rightarrow> string \<Rightarrow> string \<Rightarrow> string \<Rightarrow> http_Header" where
  "auth_header deviceID tenantID timestamp nonce signature agentVersion =
     Header_Set ''X-MGate-Agent-Version'' agentVersion
      (Header_Set ''X-MGate-Signature'' signature
        (Header_Set ''X-MGate-Nonce'' nonce
          (Header_Set ''X-MGate-Timestamp'' timestamp
            (Header_Set ''X-MGate-Tenant-ID'' tenantID
              (Header_Set ''X-MGate-Device-ID'' deviceID [])))))"

definition signedHeader ::
  "golib \<Rightarrow> string \<Rightarrow> string \<Rightarrow> string \<Rightarrow> string \<Rightarrow> string \<Rightarrow> string \<Rightarrow> string \<Rightarrow> time \<Rightarrow> world \<Rightarrow>
   (transport_error + http_Header) \<times> world" where
  "signedHeader L secret deviceID tenantID agentVersion method path body now w =
     (case randomNonce w of
        (Inl e, w) \<Rightarrow> (Inl e, w)
      | (Inr nonce, w) \<Rightarrow>
          (let timestamp = lib_rfc3339 L now;
               signature = Sign L secret \<lparr>si_Method = method, si_Path = path, si_Timestamp = timestamp,
                                          si_Nonce = nonce, si_Body = body\<rparr>
           in (Inr (auth_header deviceID tenantID timestamp nonce signature agentVersion), w)))"

text \<open>The WebSocket handshake signs a GET of the path with an empty body.\<close>

definition HandshakeHeader :: "golib \<Rightarrow> WSClientOptions \<Rightarrow> time \<Rightarrow> world \<Rightarrow> (transport_error + http_Header) \<times> world" where
  "HandshakeHeader L opts now w =
     (case randomNonce w of
        (Inl e, w) \<Rightarrow> (Inl e, w)
      | (Inr nonce, w) \<Rightarrow>
          (let timestamp = lib_rfc3339 L now;
               signature = Sign L (wo_DeviceSecret opts)
                 \<lparr>si_Method = ''GET'', si_Path = wo_WSPath opts, si_Timestamp = timestamp, si_Nonce = nonce, si_Body = []\<rparr>
           in (Inr (auth_header (wo_DeviceID opts) (wo_TenantID opts) timestamp nonce signature (wo_AgentVersion opts)), w)))"

definition add_all :: "http_Header \<Rightarrow> http_Header \<Rightarrow> http_Header" where
  "add_all header h = fold (\<lambda>(key, values) h. fold (\<lambda>value h. Header_Add key value h) values h) header h"

text \<open>http.NewRequestWithContext refuses a URL it cannot parse.\<close>

definition newSignedJSONRequest ::
  "golib \<Rightarrow> string \<Rightarrow> string \<Rightarrow> string \<Rightarrow> string \<Rightarrow> PullClientOptions \<Rightarrow> world \<Rightarrow> (transport_error + http_request) \<times> world" where
  "newSignedJSONRequest L method rawURL path body opts w =
     (case lib_url_parse L rawURL of
        None \<Rightarrow> (Inl RequestInvalid, w)
      | Some _ \<Rightarrow>
          (let (now, w) = time_Now w
           in (case signedHeader L (po_DeviceSecret opts) (po_DeviceID opts) (po_TenantID opts) (po_AgentVersion opts)
                      method path body now w of
                 (Inl e, w) \<Rightarrow> (Inl e, w)
               | (Inr header, w) \<Rightarrow>
                   (Inr \<lparr>hr_Method = method, hr_URL = rawURL,
                         hr_Header = Header_Set ''Content-Type'' ''application/json'' (add_all header []),
                         hr_Body = body, hr_timeout = po_RequestTimeout opts\<rparr>, w))))"

section \<open>Lemmas\<close>

lemma url_built_iff:
  "(\<exists>s. BuildHTTPURL L base p = Inr s) \<longleftrightarrow>
   (\<exists>u v. lib_url_parse L base = Some u \<and> (url_Scheme u = ''http'' \<or> url_Scheme u = ''https'') \<and> url_Host u \<noteq> [] \<and>
      lib_url_parse L p = Some v \<and> \<not> url_IsAbs v \<and> HasPrefix p ''/'')"
  "(\<exists>s. BuildWebSocketURL L base p = Inr s) \<longleftrightarrow> (\<exists>s. BuildHTTPURL L base p = Inr s)"
  by (auto simp: BuildHTTPURL_def BuildWebSocketURL_def with_path_def split: option.splits)

lemma header_names:
  "CanonicalHeaderKey ''X-MGate-Device-ID'' = ''X-Mgate-Device-Id''"
  "CanonicalHeaderKey ''X-MGate-Tenant-ID'' = ''X-Mgate-Tenant-Id''"
  "CanonicalHeaderKey ''X-MGate-Timestamp'' = ''X-Mgate-Timestamp''"
  "CanonicalHeaderKey ''X-MGate-Nonce'' = ''X-Mgate-Nonce''"
  "CanonicalHeaderKey ''X-MGate-Signature'' = ''X-Mgate-Signature''"
  "CanonicalHeaderKey ''X-MGate-Agent-Version'' = ''X-Mgate-Agent-Version''"
  "CanonicalHeaderKey ''Content-Type'' = ''Content-Type''"
  "CanonicalHeaderKey ''X-Mgate-Device-Id'' = ''X-Mgate-Device-Id''"
  "CanonicalHeaderKey ''X-Mgate-Tenant-Id'' = ''X-Mgate-Tenant-Id''"
  "CanonicalHeaderKey ''X-Mgate-Timestamp'' = ''X-Mgate-Timestamp''"
  "CanonicalHeaderKey ''X-Mgate-Nonce'' = ''X-Mgate-Nonce''"
  "CanonicalHeaderKey ''X-Mgate-Signature'' = ''X-Mgate-Signature''"
  "CanonicalHeaderKey ''X-Mgate-Agent-Version'' = ''X-Mgate-Agent-Version''"
  by code_simp+

lemma auth_header_eq:
  "auth_header d t ts n sg v =
     [(''X-Mgate-Device-Id'', [d]), (''X-Mgate-Tenant-Id'', [t]), (''X-Mgate-Timestamp'', [ts]), (''X-Mgate-Nonce'', [n]),
      (''X-Mgate-Signature'', [sg]), (''X-Mgate-Agent-Version'', [v])]"
  by (simp add: auth_header_def Header_Set_def header_names)

text \<open>What a signed request carries, and that the receiver's check accepts it.\<close>

definition signed_by :: "golib \<Rightarrow> string \<Rightarrow> string \<Rightarrow> http_request \<Rightarrow> bool" where
  "signed_by L secret path req \<longleftrightarrow>
     Verify L secret \<lparr>si_Method = hr_Method req, si_Path = path, si_Timestamp = Header_Get ''X-MGate-Timestamp'' (hr_Header req),
        si_Nonce = Header_Get ''X-MGate-Nonce'' (hr_Header req), si_Body = hr_Body req\<rparr>
       (Header_Get ''X-MGate-Signature'' (hr_Header req))"

lemma randomNonce_frame [frame_simps]:
  "w_fs (snd (randomNonce w)) = w_fs w" "w_execs (snd (randomNonce w)) = w_execs w"
  "w_audit (snd (randomNonce w)) = w_audit w" "w_clock (snd (randomNonce w)) = w_clock w"
  "w_requests (snd (randomNonce w)) = w_requests w" "w_http (snd (randomNonce w)) = w_http w"
  by (simp_all add: randomNonce_def rand_Read_def split: option.split)

lemma newSignedJSONRequest_frame [frame_simps]:
  "w_fs (snd (newSignedJSONRequest L m u p b opts w)) = w_fs w"
  "w_execs (snd (newSignedJSONRequest L m u p b opts w)) = w_execs w"
  "w_audit (snd (newSignedJSONRequest L m u p b opts w)) = w_audit w"
  "w_clock (snd (newSignedJSONRequest L m u p b opts w)) = w_clock w"
  "w_requests (snd (newSignedJSONRequest L m u p b opts w)) = w_requests w"
  "w_http (snd (newSignedJSONRequest L m u p b opts w)) = w_http w"
proof -
  let ?w = "snd (randomNonce (snd (time_Now w)))"
  have "snd (newSignedJSONRequest L m u p b opts w) = w \<or> snd (newSignedJSONRequest L m u p b opts w) = ?w"
    by (simp add: newSignedJSONRequest_def signedHeader_def split_beta Let_def split: option.split prod.split sum.split)
  moreover have "w_fs ?w = w_fs w" "w_execs ?w = w_execs w" "w_audit ?w = w_audit w" "w_clock ?w = w_clock w"
    "w_requests ?w = w_requests w" "w_http ?w = w_http w"
    by (simp_all add: frame_simps) (simp_all add: time_Now_def)
  ultimately show "w_fs (snd (newSignedJSONRequest L m u p b opts w)) = w_fs w"
    "w_execs (snd (newSignedJSONRequest L m u p b opts w)) = w_execs w"
    "w_audit (snd (newSignedJSONRequest L m u p b opts w)) = w_audit w"
    "w_clock (snd (newSignedJSONRequest L m u p b opts w)) = w_clock w"
    "w_requests (snd (newSignedJSONRequest L m u p b opts w)) = w_requests w"
    "w_http (snd (newSignedJSONRequest L m u p b opts w)) = w_http w"
    by auto
qed

lemma request_header:
  "hr_Header req = Header_Set ''Content-Type'' ''application/json'' (add_all (auth_header d t ts n sg v) []) \<Longrightarrow>
   Header_Get ''X-MGate-Timestamp'' (hr_Header req) = ts \<and> Header_Get ''X-MGate-Nonce'' (hr_Header req) = n \<and>
   Header_Get ''X-MGate-Signature'' (hr_Header req) = sg \<and> Header_Get ''X-MGate-Device-ID'' (hr_Header req) = d \<and>
   Header_Get ''X-MGate-Tenant-ID'' (hr_Header req) = t \<and> Header_Get ''X-MGate-Agent-Version'' (hr_Header req) = v"
  by (simp add: auth_header_eq add_all_def Header_Add_def Header_Set_def Header_Get_def header_names Let_def)

lemma newSignedJSONRequest_Inr:
  assumes "newSignedJSONRequest L m u p b opts w = (Inr req, w')"
  shows "signed_by L (po_DeviceSecret opts) p req" and "hr_Method req = m" and "hr_URL req = u" and "hr_Body req = b"
    and "Header_Get ''X-MGate-Device-ID'' (hr_Header req) = po_DeviceID opts"
    and "hr_timeout req = po_RequestTimeout opts"
proof -
  obtain nonce where req: "req = \<lparr>hr_Method = m, hr_URL = u,
       hr_Header = Header_Set ''Content-Type'' ''application/json''
         (add_all (auth_header (po_DeviceID opts) (po_TenantID opts) (lib_rfc3339 L (fst (time_Now w))) nonce
           (Sign L (po_DeviceSecret opts) \<lparr>si_Method = m, si_Path = p, si_Timestamp = lib_rfc3339 L (fst (time_Now w)),
              si_Nonce = nonce, si_Body = b\<rparr>) (po_AgentVersion opts)) []),
       hr_Body = b, hr_timeout = po_RequestTimeout opts\<rparr>"
    using assms by (auto simp: newSignedJSONRequest_def signedHeader_def split_beta Let_def
        split: option.splits sum.splits prod.splits)
  note hd = request_header [of req "po_DeviceID opts" "po_TenantID opts" "lib_rfc3339 L (fst (time_Now w))" nonce
      "Sign L (po_DeviceSecret opts) \<lparr>si_Method = m, si_Path = p, si_Timestamp = lib_rfc3339 L (fst (time_Now w)),
              si_Nonce = nonce, si_Body = b\<rparr>" "po_AgentVersion opts"]
  have parts: "hr_Method req = m" "hr_URL req = u" "hr_Body req = b" "hr_timeout req = po_RequestTimeout opts"
    by (simp_all add: req)
  then show "hr_Method req = m" "hr_URL req = u" "hr_Body req = b" "hr_timeout req = po_RequestTimeout opts" by simp_all
  have "hr_Header req = Header_Set ''Content-Type'' ''application/json''
         (add_all (auth_header (po_DeviceID opts) (po_TenantID opts) (lib_rfc3339 L (fst (time_Now w))) nonce
           (Sign L (po_DeviceSecret opts) \<lparr>si_Method = m, si_Path = p, si_Timestamp = lib_rfc3339 L (fst (time_Now w)),
              si_Nonce = nonce, si_Body = b\<rparr>) (po_AgentVersion opts)) [])"
    by (simp add: req)
  from hd [OF this] show "signed_by L (po_DeviceSecret opts) p req"
    "Header_Get ''X-MGate-Device-ID'' (hr_Header req) = po_DeviceID opts"
    by (simp_all add: signed_by_def parts Verify_def ConstantTimeCompare_iff)
qed

end
