(* ===== verification/WS_Outbound.thy ===== *)
theory WS_Outbound
  imports Http_Auth
begin

text \<open>
  The sending side of internal/transport/ws_client.go: the outbound channel of one connection, the
  goroutines that send into it (sendOutbound, sendOutboundWait), the one writer that empties it
  (writeLoop, completeOutbound, reportErr) and the wait of runOnce that cancels the connection's
  context. The goroutines run interleaved, so they are a step relation; a select takes any branch that
  is ready. The lemmas show that a sender is told of success only after its envelope was written, that
  envelopes are written once and in order, and that no sender is left waiting.
\<close>

section \<open>State\<close>

text \<open>A done channel holds one value and is named by the call that made it.\<close>

record outboundMessage =
  om_env :: Envelope
  om_done :: "nat option"

text \<open>
  Where a call of sendOutbound or sendOutboundWait is: before its message is in the channel, waiting
  for its done channel, or returned.
\<close>

datatype send_pc =
    Sending bool Envelope \<comment> \<open>\<^const>\<open>True\<close>: the call waits for the writer\<close>
  | Waiting Envelope
  | Returned bool Envelope "transport_error option"

record outbound =
  ob_cap :: nat
  ob_queue :: "outboundMessage list"
  ob_calls :: "nat \<Rightarrow> send_pc option"
  ob_dones :: "nat \<Rightarrow> transport_error option option"
  ob_writer :: bool \<comment> \<open>writeLoop runs\<close>
  ob_errs :: "transport_error list" \<comment> \<open>errCh, with room for four\<close>
  ob_cancelled :: bool \<comment> \<open>the context of the connection is done\<close>
  ob_pushed :: "Envelope list" \<comment> \<open>every envelope that entered the channel, oldest first\<close>
  ob_written :: "Envelope list" \<comment> \<open>every envelope the connection took, oldest first\<close>

definition new_outbound :: "nat \<Rightarrow> outbound" where
  "new_outbound cap = \<lparr>ob_cap = cap, ob_queue = [], ob_calls = (\<lambda>_. None), ob_dones = (\<lambda>_. None), ob_writer = True,
     ob_errs = [], ob_cancelled = False, ob_pushed = [], ob_written = []\<rparr>"

section \<open>The operations of the writer\<close>

text \<open>The send into a done channel that is full falls through.\<close>

definition completeOutbound :: "outboundMessage \<Rightarrow> transport_error option \<Rightarrow> outbound \<Rightarrow> outbound" where
  "completeOutbound msg err s =
     (case om_done msg of
        None \<Rightarrow> s
      | Some n \<Rightarrow> if ob_dones s n = None then s\<lparr>ob_dones := (ob_dones s)(n \<mapsto> err)\<rparr> else s)"

definition reportErr :: "transport_error \<Rightarrow> outbound \<Rightarrow> outbound" where
  "reportErr err s =
     (if ob_cancelled s then s
      else if length (ob_errs s) < 4 then s\<lparr>ob_errs := ob_errs s @ [err]\<rparr> else s)"

text \<open>
  One round of writeLoop with the message it received, for what the connection does: the message cannot
  be marshalled, or conn.Write takes it, or fails and ends the loop.
\<close>

definition write_message :: "golib \<Rightarrow> bool \<Rightarrow> outboundMessage \<Rightarrow> outbound \<Rightarrow> outbound" where
  "write_message L accepts msg s =
     (case marshal_Envelope L (om_env msg) of
        None \<Rightarrow> reportErr MarshalFailed (completeOutbound msg (Some MarshalFailed) s)
      | Some _ \<Rightarrow>
          if accepts then completeOutbound msg None (s\<lparr>ob_written := ob_written s @ [om_env msg]\<rparr>)
          else (reportErr WriteWebSocket (completeOutbound msg (Some WriteWebSocket) s))\<lparr>ob_writer := False\<rparr>)"

definition push_message :: "nat \<Rightarrow> bool \<Rightarrow> Envelope \<Rightarrow> outbound \<Rightarrow> outbound" where
  "push_message n wait env s =
     s\<lparr>ob_queue := ob_queue s @ [\<lparr>om_env = env, om_done = (if wait then Some n else None)\<rparr>],
       ob_calls := (ob_calls s)(n \<mapsto> (if wait then Waiting env else Returned False env None)),
       ob_pushed := ob_pushed s @ [env]\<rparr>"

section \<open>Steps\<close>

text \<open>
  What the program does by itself: the calls, the writer, and runOnce that takes an error from the
  channel and cancels the context.
\<close>

inductive ob_step :: "golib \<Rightarrow> outbound \<Rightarrow> outbound \<Rightarrow> bool" for L where
  push: "ob_calls s n = Some (Sending wait env) \<Longrightarrow> length (ob_queue s) < ob_cap s \<Longrightarrow>
     ob_step L s (push_message n wait env s)"
| send_cancelled: "ob_calls s n = Some (Sending wait env) \<Longrightarrow> ob_cancelled s \<Longrightarrow>
     ob_step L s (s\<lparr>ob_calls := (ob_calls s)(n \<mapsto> Returned wait env (Some ContextDone))\<rparr>)"
| received: "ob_calls s n = Some (Waiting env) \<Longrightarrow> ob_dones s n = Some err \<Longrightarrow>
     ob_step L s (s\<lparr>ob_calls := (ob_calls s)(n \<mapsto> Returned True env err)\<rparr>)"
| wait_cancelled: "ob_calls s n = Some (Waiting env) \<Longrightarrow> ob_cancelled s \<Longrightarrow>
     ob_step L s (s\<lparr>ob_calls := (ob_calls s)(n \<mapsto> Returned True env (Some ContextDone))\<rparr>)"
| writes: "ob_writer s \<Longrightarrow> ob_queue s = msg # rest \<Longrightarrow>
     ob_step L s (write_message L accepts msg (s\<lparr>ob_queue := rest\<rparr>))"
| writer_stops: "ob_writer s \<Longrightarrow> ob_cancelled s \<Longrightarrow> ob_step L s (s\<lparr>ob_writer := False\<rparr>)"
| takes_error: "ob_errs s = e # es \<Longrightarrow> ob_step L s (s\<lparr>ob_errs := es, ob_cancelled := True\<rparr>)"

text \<open>
  What others do to it: a goroutine calls one of the two functions, another loop reports its error, the
  context of the agent ends.
\<close>

inductive ob_env :: "outbound \<Rightarrow> outbound \<Rightarrow> bool" where
  calls: "ob_calls s n = None \<Longrightarrow> ob_env s (s\<lparr>ob_calls := (ob_calls s)(n \<mapsto> Sending wait env)\<rparr>)"
| reports: "ob_env s (reportErr e s)"
| cancels: "ob_env s (s\<lparr>ob_cancelled := True\<rparr>)"

inductive ob_reachable :: "golib \<Rightarrow> nat \<Rightarrow> outbound \<Rightarrow> bool" for L cap where
  start: "ob_reachable L cap (new_outbound cap)"
| step: "ob_reachable L cap s \<Longrightarrow> ob_step L s t \<Longrightarrow> ob_reachable L cap t"
| env: "ob_reachable L cap s \<Longrightarrow> ob_env s t \<Longrightarrow> ob_reachable L cap t"

section \<open>Invariants\<close>

text \<open>
  A done channel in use belongs to one message; a value of success in it means the envelope of its call
  is written; a call that waits has its message in the channel or its answer; a writer that stopped
  left an error or the context is done.
\<close>

definition queued :: "outbound \<Rightarrow> nat list" where
  "queued s = List.map_filter om_done (ob_queue s)"

definition ob_inv :: "outbound \<Rightarrow> bool" where
  "ob_inv s \<longleftrightarrow>
     length (ob_queue s) \<le> ob_cap s \<and> length (ob_errs s) \<le> 4 \<and>
     distinct (queued s) \<and>
     (\<forall>m n. m \<in> set (ob_queue s) \<longrightarrow> om_done m = Some n \<longrightarrow>
        ob_dones s n = None \<and> (ob_calls s n = Some (Waiting (om_env m)) \<or> ob_calls s n = Some (Returned True (om_env m) (Some ContextDone)))) \<and>
     (\<forall>n env. ob_calls s n = Some (Waiting env) \<longrightarrow> n \<in> set (queued s) \<or> ob_dones s n \<noteq> None) \<and>
     (\<forall>n env. ob_calls s n = Some (Waiting env) \<longrightarrow> ob_dones s n = Some None \<longrightarrow> env \<in> set (ob_written s)) \<and>
     (\<forall>n env. ob_calls s n = Some (Returned True env None) \<longrightarrow> env \<in> set (ob_written s)) \<and>
     (\<forall>n. ob_calls s n = None \<longrightarrow> ob_dones s n = None) \<and>
     (\<forall>n wait env. ob_calls s n = Some (Sending wait env) \<longrightarrow> ob_dones s n = None) \<and>
     (ob_writer s \<or> ob_cancelled s \<or> ob_errs s \<noteq> []) \<and>
     (\<exists>pre. ob_pushed s = pre @ map om_env (ob_queue s) \<and> subseq (ob_written s) pre)"

lemma ob_inv_new: "ob_inv (new_outbound cap)"
  by (simp add: ob_inv_def new_outbound_def queued_def)

lemma queued_push: "queued (push_message n wait env s) = queued s @ (if wait then [n] else [])"
  by (simp add: queued_def push_message_def List.map_filter_def)

lemma set_queued: "n \<in> set (queued s) \<longleftrightarrow> (\<exists>m \<in> set (ob_queue s). om_done m = Some n)"
  by (force simp: queued_def List.map_filter_def image_iff)

lemma queued_Cons:
  "ob_queue s = m # q \<Longrightarrow> queued s = (case om_done m of None \<Rightarrow> [] | Some n \<Rightarrow> [n]) @ queued (s\<lparr>ob_queue := q\<rparr>)"
  by (simp add: queued_def List.map_filter_def split: option.split)

lemma queued_cong: "ob_queue t = ob_queue s \<Longrightarrow> queued t = queued s"
  by (simp add: queued_def)

lemma reportErr_frame [simp]:
  "ob_cap (reportErr e s) = ob_cap s" "ob_queue (reportErr e s) = ob_queue s" "ob_calls (reportErr e s) = ob_calls s"
  "ob_dones (reportErr e s) = ob_dones s" "ob_writer (reportErr e s) = ob_writer s" "ob_cancelled (reportErr e s) = ob_cancelled s"
  "ob_pushed (reportErr e s) = ob_pushed s" "ob_written (reportErr e s) = ob_written s"
  by (simp_all add: reportErr_def)

lemma reportErr_errs: "length (ob_errs s) \<le> 4 \<Longrightarrow> length (ob_errs (reportErr e s)) \<le> 4"
  "\<not> ob_cancelled s \<Longrightarrow> ob_errs (reportErr e s) \<noteq> []" "ob_errs s \<noteq> [] \<Longrightarrow> ob_errs (reportErr e s) \<noteq> []"
  by (auto simp: reportErr_def)

lemma completeOutbound_frame [simp]:
  "ob_cap (completeOutbound m r s) = ob_cap s" "ob_queue (completeOutbound m r s) = ob_queue s"
  "ob_calls (completeOutbound m r s) = ob_calls s" "ob_writer (completeOutbound m r s) = ob_writer s"
  "ob_errs (completeOutbound m r s) = ob_errs s" "ob_cancelled (completeOutbound m r s) = ob_cancelled s"
  "ob_pushed (completeOutbound m r s) = ob_pushed s" "ob_written (completeOutbound m r s) = ob_written s"
  by (simp_all add: completeOutbound_def split: option.split)

lemma completeOutbound_dones:
  "ob_dones (completeOutbound m r s) n = (if om_done m = Some n \<and> ob_dones s n = None then Some r else ob_dones s n)"
  by (auto simp: completeOutbound_def split: option.split)

text \<open>The effect of one round of the writer: the head of the channel gets its answer.\<close>

lemma write_message_effect:
  fixes L s msg accepts
  defines "t \<equiv> write_message L accepts msg s"
  shows "ob_cap t = ob_cap s" and "ob_queue t = ob_queue s" and "ob_calls t = ob_calls s" and "ob_cancelled t = ob_cancelled s"
    and "ob_pushed t = ob_pushed s"
    and "length (ob_errs s) \<le> 4 \<Longrightarrow> length (ob_errs t) \<le> 4"
    and "\<exists>r. (\<forall>n. ob_dones t n = (if om_done msg = Some n \<and> ob_dones s n = None then Some r else ob_dones s n)) \<and>
      ob_written t = ob_written s @ (if r = None then [om_env msg] else [])"
    and "ob_writer s \<or> ob_cancelled s \<or> ob_errs s \<noteq> [] \<Longrightarrow> ob_writer t \<or> ob_cancelled t \<or> ob_errs t \<noteq> []"
proof -
  show "ob_cap t = ob_cap s" "ob_queue t = ob_queue s" "ob_calls t = ob_calls s" "ob_cancelled t = ob_cancelled s"
    "ob_pushed t = ob_pushed s"
    by (simp_all add: t_def write_message_def split: option.split)
  show "length (ob_errs s) \<le> 4 \<Longrightarrow> length (ob_errs t) \<le> 4"
    by (simp add: t_def write_message_def reportErr_errs split: option.split)
  show "\<exists>r. (\<forall>n. ob_dones t n = (if om_done msg = Some n \<and> ob_dones s n = None then Some r else ob_dones s n)) \<and>
      ob_written t = ob_written s @ (if r = None then [om_env msg] else [])"
  proof (cases "marshal_Envelope L (om_env msg)")
    case None
    then show ?thesis by (intro exI [of _ "Some MarshalFailed"]) (simp add: t_def write_message_def completeOutbound_dones)
  next
    case (Some j)
    then show ?thesis
      by (intro exI [of _ "if accepts then None else Some WriteWebSocket"]) (simp add: t_def write_message_def completeOutbound_dones)
  qed
  show "ob_writer s \<or> ob_cancelled s \<or> ob_errs s \<noteq> [] \<Longrightarrow> ob_writer t \<or> ob_cancelled t \<or> ob_errs t \<noteq> []"
    using reportErr_errs(2,3) by (auto simp: t_def write_message_def split: option.split)
qed

lemma ob_inv_calls:
  assumes inv: "ob_inv s" and frame: "ob_cap t = ob_cap s" "ob_queue t = ob_queue s" "ob_dones t = ob_dones s"
    "ob_written t = ob_written s" "ob_pushed t = ob_pushed s" "ob_calls t = (ob_calls s)(n \<mapsto> pc)"
    and errs: "length (ob_errs t) \<le> 4" "ob_writer t \<or> ob_cancelled t \<or> ob_errs t \<noteq> []"
    and old: "ob_calls s n = None \<or> (\<exists>wait env. ob_calls s n = Some (Sending wait env)) \<or> (\<exists>env. ob_calls s n = Some (Waiting env))"
    and pc: "(\<exists>wait env. pc = Sending wait env \<and> ob_calls s n = None) \<or>
      (\<exists>wait env. pc = Returned wait env (Some ContextDone) \<and> ob_calls s n = Some (Sending wait env)) \<or>
      (\<exists>env. pc = Returned True env (Some ContextDone) \<and> ob_calls s n = Some (Waiting env)) \<or>
      (\<exists>env r. pc = Returned True env r \<and> ob_calls s n = Some (Waiting env) \<and> ob_dones s n = Some r)"
  shows "ob_inv t"
proof -
  have q: "queued t = queued s" using frame(2) by (rule queued_cong)
  have notq: "n \<notin> set (queued s)" if "ob_calls s n = None \<or> (\<exists>wait env. ob_calls s n = Some (Sending wait env)) \<or> ob_dones s n \<noteq> None"
    using inv that by (auto simp: ob_inv_def set_queued)
  have "(\<forall>m k. m \<in> set (ob_queue s) \<longrightarrow> om_done m = Some k \<longrightarrow>
        ob_dones s k = None \<and> (ob_calls t k = Some (Waiting (om_env m)) \<or> ob_calls t k = Some (Returned True (om_env m) (Some ContextDone))))"
  proof (intro allI impI)
    fix m k assume m: "m \<in> set (ob_queue s)" "om_done m = Some k"
    then have k: "k \<in> set (queued s)" by (auto simp: set_queued)
    have "ob_dones s k = None \<and> (ob_calls s k = Some (Waiting (om_env m)) \<or> ob_calls s k = Some (Returned True (om_env m) (Some ContextDone)))"
      using inv m by (simp add: ob_inv_def)
    then show "ob_dones s k = None \<and> (ob_calls t k = Some (Waiting (om_env m)) \<or> ob_calls t k = Some (Returned True (om_env m) (Some ContextDone)))"
      using pc notq k by (cases "k = n") (auto simp: frame(6))
  qed
  then show ?thesis
    using inv errs pc unfolding ob_inv_def q frame by (auto simp: frame(6) split: if_splits)
qed

lemma ob_inv_push:
  assumes inv: "ob_inv s" and call: "ob_calls s n = Some (Sending wait env)" and room: "length (ob_queue s) < ob_cap s"
  shows "ob_inv (push_message n wait env s)"
proof -
  let ?t = "push_message n wait env s"
  have fr: "ob_cap ?t = ob_cap s" "ob_errs ?t = ob_errs s" "ob_dones ?t = ob_dones s" "ob_writer ?t = ob_writer s"
    "ob_cancelled ?t = ob_cancelled s" "ob_written ?t = ob_written s"
    "ob_queue ?t = ob_queue s @ [\<lparr>om_env = env, om_done = (if wait then Some n else None)\<rparr>]"
    "ob_pushed ?t = ob_pushed s @ [env]"
    "ob_calls ?t = (ob_calls s)(n \<mapsto> (if wait then Waiting env else Returned False env None))"
    by (simp_all add: push_message_def)
  have notq: "n \<notin> set (queued s)" using inv call by (auto simp: ob_inv_def set_queued)
  have dn: "ob_dones s n = None" using inv call by (simp add: ob_inv_def)
  have msgs: "\<forall>m k. m \<in> set (ob_queue ?t) \<longrightarrow> om_done m = Some k \<longrightarrow> ob_dones s k = None \<and>
      (ob_calls ?t k = Some (Waiting (om_env m)) \<or> ob_calls ?t k = Some (Returned True (om_env m) (Some ContextDone)))"
  proof (intro allI impI)
    fix m k assume m: "m \<in> set (ob_queue ?t)" "om_done m = Some k"
    show "ob_dones s k = None \<and> (ob_calls ?t k = Some (Waiting (om_env m)) \<or> ob_calls ?t k = Some (Returned True (om_env m) (Some ContextDone)))"
    proof (cases "m \<in> set (ob_queue s)")
      case True
      then have "k \<noteq> n" using notq m(2) by (auto simp: set_queued)
      then show ?thesis using inv True m(2) by (simp add: ob_inv_def fr(9))
    next
      case False
      then have "m = \<lparr>om_env = env, om_done = Some n\<rparr>" "wait" "k = n" using m fr(7) by (auto split: if_splits)
      then show ?thesis using dn fr(9) by simp
    qed
  qed
  obtain pre where "ob_pushed s = pre @ map om_env (ob_queue s)" "subseq (ob_written s) pre"
    using inv by (auto simp: ob_inv_def)
  then have "\<exists>pre. ob_pushed ?t = pre @ map om_env (ob_queue ?t) \<and> subseq (ob_written ?t) pre" using fr by auto
  then show ?thesis
    using inv msgs notq dn room unfolding ob_inv_def queued_push fr(1-6) by (auto simp: fr(7,9) split: if_splits)
qed

lemma ob_inv_writes:
  assumes inv: "ob_inv s" and q: "ob_queue s = msg # rest"
  shows "ob_inv (write_message L accepts msg (s\<lparr>ob_queue := rest\<rparr>))"
proof -
  let ?s = "s\<lparr>ob_queue := rest\<rparr>" and ?t = "write_message L accepts msg (s\<lparr>ob_queue := rest\<rparr>)"
  obtain r where "\<forall>n. ob_dones ?t n = (if om_done msg = Some n \<and> ob_dones ?s n = None then Some r else ob_dones ?s n)"
    "ob_written ?t = ob_written ?s @ (if r = None then [om_env msg] else [])"
    using write_message_effect(7) [of L accepts msg ?s] by blast
  then have r: "\<And>n. ob_dones ?t n = (if om_done msg = Some n \<and> ob_dones s n = None then Some r else ob_dones s n)"
    "ob_written ?t = ob_written s @ (if r = None then [om_env msg] else [])"
    by simp_all
  have fr: "ob_cap ?t = ob_cap s" "ob_queue ?t = rest" "ob_calls ?t = ob_calls s" "ob_pushed ?t = ob_pushed s"
    using write_message_effect(1,2,3,5) [of L accepts msg ?s] by simp_all
  have errs: "length (ob_errs ?t) \<le> 4" "ob_writer ?t \<or> ob_cancelled ?t \<or> ob_errs ?t \<noteq> []"
    using write_message_effect(6,8) [of ?s L accepts msg] inv by (simp_all add: ob_inv_def)
  have qt: "queued s = (case om_done msg of None \<Rightarrow> [] | Some n \<Rightarrow> [n]) @ queued ?t"
    using queued_Cons [OF q] queued_cong [of ?t ?s] fr(2) by simp
  have head: "ob_dones s n = None \<and> (ob_calls s n = Some (Waiting (om_env msg)) \<or> ob_calls s n = Some (Returned True (om_env msg) (Some ContextDone)))"
    if "om_done msg = Some n" for n
    using inv that q by (simp add: ob_inv_def)
  have dist: "distinct (queued ?t)" "om_done msg = Some n \<Longrightarrow> n \<notin> set (queued ?t)" for n
    using inv qt by (auto simp: ob_inv_def)
  have msgs: "\<forall>m k. m \<in> set rest \<longrightarrow> om_done m = Some k \<longrightarrow> ob_dones ?t k = None \<and>
      (ob_calls s k = Some (Waiting (om_env m)) \<or> ob_calls s k = Some (Returned True (om_env m) (Some ContextDone)))"
  proof (intro allI impI)
    fix m k assume m: "m \<in> set rest" "om_done m = Some k"
    then have "k \<in> set (queued ?t)" using fr(2) by (auto simp: set_queued)
    then have "om_done msg \<noteq> Some k" using dist(2) by auto
    then show "ob_dones ?t k = None \<and> (ob_calls s k = Some (Waiting (om_env m)) \<or> ob_calls s k = Some (Returned True (om_env m) (Some ContextDone)))"
      using inv m q r(1) by (simp add: ob_inv_def)
  qed
  have answered: "n \<in> set (queued ?t) \<or> ob_dones ?t n \<noteq> None" if "ob_calls s n = Some (Waiting env)" for n env
  proof -
    have "n \<in> set (queued s) \<or> ob_dones s n \<noteq> None" using inv that by (auto simp: ob_inv_def)
    then show ?thesis using qt head r(1) by (auto split: option.splits)
  qed
  have told: "env \<in> set (ob_written ?t)" if "ob_calls s n = Some (Waiting env)" "ob_dones ?t n = Some None" for n env
  proof (cases "om_done msg = Some n")
    case True
    then have "env = om_env msg" "r = None" using head [OF True] that r(1) by auto
    then show ?thesis using r(2) by simp
  next
    case False
    then have "env \<in> set (ob_written s)" using inv that r(1) by (simp add: ob_inv_def)
    then show ?thesis using r(2) by simp
  qed
  obtain pre where pre: "ob_pushed s = pre @ map om_env (ob_queue s)" "subseq (ob_written s) pre"
    using inv by (auto simp: ob_inv_def)
  have "subseq (ob_written ?t) (pre @ [om_env msg])" using pre(2) r(2) by (auto intro: list_emb_append2 list_emb_append_mono)
  then have "\<exists>pre. ob_pushed ?t = pre @ map om_env (ob_queue ?t) \<and> subseq (ob_written ?t) pre"
    using pre(1) q fr(2,4) by (intro exI [of _ "pre @ [om_env msg]"]) simp
  moreover have "ob_dones ?t n = None" if "ob_calls s n = None \<or> (\<exists>wait env. ob_calls s n = Some (Sending wait env))" for n
    using inv that head [of n] r(1) [of n] by (auto simp: ob_inv_def)
  moreover have "env \<in> set (ob_written ?t)" if "ob_calls s n = Some (Returned True env None)" for n env
    using inv that r(2) by (auto simp: ob_inv_def)
  moreover have "length rest \<le> ob_cap s" using inv q by (simp add: ob_inv_def)
  ultimately show ?thesis
    using msgs answered told dist(1) errs unfolding ob_inv_def fr by (intro conjI) blast+
qed

lemma ob_inv_frame:
  assumes "ob_inv s" and "ob_cap t = ob_cap s" "ob_queue t = ob_queue s" "ob_dones t = ob_dones s" "ob_calls t = ob_calls s"
    "ob_written t = ob_written s" "ob_pushed t = ob_pushed s"
    and "length (ob_errs t) \<le> 4" "ob_writer t \<or> ob_cancelled t \<or> ob_errs t \<noteq> []"
  shows "ob_inv t"
proof -
  have "queued t = queued s" using assms(3) by (rule queued_cong)
  then show ?thesis using assms(1,8,9) by (simp add: ob_inv_def assms(2-7))
qed

lemma ob_inv_errs: "ob_inv s \<Longrightarrow> length (ob_errs s) \<le> 4" "ob_inv s \<Longrightarrow> ob_writer s \<or> ob_cancelled s \<or> ob_errs s \<noteq> []"
  by (simp_all add: ob_inv_def)

lemma ob_inv_step: "ob_step L s t \<Longrightarrow> ob_inv s \<Longrightarrow> ob_inv t"
proof (induction rule: ob_step.induct)
  case (push s n wait env)
  then show ?case by (intro ob_inv_push)
next
  case (send_cancelled s n wait env)
  then show ?case using ob_inv_errs [of s] by - (rule ob_inv_calls [of s _ n "Returned wait env (Some ContextDone)"]; simp)
next
  case (received s n env err)
  then show ?case using ob_inv_errs [of s] by - (rule ob_inv_calls [of s _ n "Returned True env err"]; simp)
next
  case (wait_cancelled s n env)
  then show ?case using ob_inv_errs [of s] by - (rule ob_inv_calls [of s _ n "Returned True env (Some ContextDone)"]; simp)
next
  case (writes s msg rest accepts)
  then show ?case by (intro ob_inv_writes)
next
  case (writer_stops s)
  then show ?case using ob_inv_errs [of s] by - (rule ob_inv_frame [of s]; simp)
next
  case (takes_error s e es)
  then show ?case using ob_inv_errs [of s] by - (rule ob_inv_frame [of s]; simp)
qed

lemma ob_inv_env: "ob_env s t \<Longrightarrow> ob_inv s \<Longrightarrow> ob_inv t"
proof (induction rule: ob_env.induct)
  case (calls s n wait env)
  then show ?case using ob_inv_errs [of s] by - (rule ob_inv_calls [of s _ n "Sending wait env"]; simp)
next
  case (reports s e)
  then show ?case using ob_inv_errs [of s] reportErr_errs [of s e] by - (rule ob_inv_frame [of s]; auto)
next
  case (cancels s)
  then show ?case using ob_inv_errs [of s] by - (rule ob_inv_frame [of s]; simp)
qed

lemma ob_reachable_inv: "ob_reachable L cap s \<Longrightarrow> ob_inv s"
  by (induction rule: ob_reachable.induct) (blast intro: ob_inv_new ob_inv_step ob_inv_env)+

lemma ob_reachable_cap: "ob_reachable L cap s \<Longrightarrow> ob_cap s = cap"
proof (induction rule: ob_reachable.induct)
  case (step s t)
  then show ?case by (auto elim!: ob_step.cases simp: push_message_def write_message_effect)
next
  case (env s t)
  then show ?case by (auto elim!: ob_env.cases)
qed (simp add: new_outbound_def)

section \<open>Every call returns\<close>

fun call_weight :: "send_pc option \<Rightarrow> nat" where
  "call_weight (Some (Sending wait env)) = 6"
| "call_weight (Some (Waiting env)) = 1"
| "call_weight _ = 0"

definition ob_work :: "outbound \<Rightarrow> nat" where
  "ob_work s = (\<Sum>n\<in>dom (ob_calls s). call_weight (ob_calls s n)) + 3 * length (ob_queue s) + length (ob_errs s) + of_bool (ob_writer s)"

lemma sum_calls_update:
  assumes "finite (dom f)" and "f n = Some pc"
  shows "(\<Sum>k\<in>dom (f(n \<mapsto> pc')). call_weight ((f(n \<mapsto> pc')) k)) + call_weight (Some pc) =
    (\<Sum>k\<in>dom f. call_weight (f k)) + call_weight (Some pc')"
proof -
  have dom: "dom (f(n \<mapsto> pc')) = dom f" "n \<in> dom f" using assms(2) by auto
  have "(\<Sum>k\<in>dom f - {n}. call_weight ((f(n \<mapsto> pc')) k)) = (\<Sum>k\<in>dom f - {n}. call_weight (f k))"
    by (intro sum.cong) auto
  then show ?thesis
    using sum.remove [OF assms(1) dom(2), of "\<lambda>k. call_weight ((f(n \<mapsto> pc')) k)"] sum.remove [OF assms(1) dom(2), of "\<lambda>k. call_weight (f k)"]
    unfolding dom(1) by (simp add: assms(2))
qed

lemma reportErr_length: "length (ob_errs (reportErr e s)) \<le> Suc (length (ob_errs s))"
  by (simp add: reportErr_def)

lemma write_message_work: "ob_work (write_message L accepts msg s) \<le> Suc (ob_work s)"
proof -
  have "length (ob_errs (write_message L accepts msg s)) \<le> Suc (length (ob_errs s))"
    using reportErr_length [of MarshalFailed "completeOutbound msg (Some MarshalFailed) s"]
      reportErr_length [of WriteWebSocket "completeOutbound msg (Some WriteWebSocket) s"]
    by (simp add: write_message_def split: option.split)
  moreover have "ob_writer (write_message L accepts msg s) \<longrightarrow> ob_writer s"
    by (simp add: write_message_def split: option.split)
  ultimately show ?thesis
    using write_message_effect(2,3) [of L accepts msg s] by (auto simp: ob_work_def)
qed

lemma ob_step_work: "ob_step L s t \<Longrightarrow> finite (dom (ob_calls s)) \<Longrightarrow> ob_work t < ob_work s"
proof (induction rule: ob_step.induct)
  case (push s n wait env)
  then show ?case
    using sum_calls_update [of "ob_calls s" n _ "if wait then Waiting env else Returned False env None"]
    by (cases wait) (simp_all add: ob_work_def push_message_def del: fun_upd_apply)
next
  case (send_cancelled s n wait env)
  then show ?case
    using sum_calls_update [of "ob_calls s" n _ "Returned wait env (Some ContextDone)"] by (simp add: ob_work_def del: fun_upd_apply)
next
  case (received s n env err)
  then show ?case
    using sum_calls_update [of "ob_calls s" n _ "Returned True env err"] by (simp add: ob_work_def del: fun_upd_apply)
next
  case (wait_cancelled s n env)
  then show ?case
    using sum_calls_update [of "ob_calls s" n _ "Returned True env (Some ContextDone)"] by (simp add: ob_work_def del: fun_upd_apply)
next
  case (writes s msg rest accepts)
  then have "Suc (Suc (ob_work (s\<lparr>ob_queue := rest\<rparr>))) < ob_work s" by (simp add: ob_work_def)
  then show ?case using write_message_work [of L accepts msg "s\<lparr>ob_queue := rest\<rparr>"] by simp
qed (simp_all add: ob_work_def)

lemma ob_step_finite: "ob_step L s t \<Longrightarrow> finite (dom (ob_calls s)) \<Longrightarrow> finite (dom (ob_calls t))"
  by (induction rule: ob_step.induct) (simp_all add: push_message_def write_message_effect)

lemma ob_reachable_finite: "ob_reachable L cap s \<Longrightarrow> finite (dom (ob_calls s))"
proof (induction rule: ob_reachable.induct)
  case (step s t)
  then show ?case using ob_step_finite by blast
next
  case (env s t)
  from env(2,3) show ?case by cases (simp_all del: fun_upd_apply)
qed (simp add: new_outbound_def)

definition call_open :: "outbound \<Rightarrow> nat \<Rightarrow> bool" where
  "call_open s n \<longleftrightarrow> (\<exists>wait env. ob_calls s n = Some (Sending wait env)) \<or> (\<exists>env. ob_calls s n = Some (Waiting env))"

lemma ob_progress:
  assumes inv: "ob_inv s" and cap: "0 < ob_cap s" and opn: "call_open s n"
  shows "\<exists>t. ob_step L s t"
proof -
  consider (err) e es where "ob_errs s = e # es" | (cancelled) "ob_cancelled s" | (runs) "ob_writer s" "\<not> ob_cancelled s"
    using ob_inv_errs(2) [OF inv] by (cases "ob_errs s") auto
  then show ?thesis
  proof cases
    case err
    then show ?thesis by (blast intro: ob_step.takes_error)
  next
    case cancelled
    then show ?thesis using opn by (auto simp: call_open_def intro: ob_step.send_cancelled ob_step.wait_cancelled)
  next
    case runs
    show ?thesis
    proof (cases "ob_queue s")
      case (Cons msg rest)
      then show ?thesis using ob_step.writes [OF runs(1)] by blast
    next
      case Nil
      then have q: "queued s = []" by (simp add: queued_def List.map_filter_def)
      from opn show ?thesis unfolding call_open_def
      proof (elim disjE exE)
        fix wait env assume "ob_calls s n = Some (Sending wait env)"
        then show ?thesis using ob_step.push [of s n wait env L] Nil cap by auto
      next
        fix env assume w: "ob_calls s n = Some (Waiting env)"
        then obtain r where "ob_dones s n = Some r" using inv q by (fastforce simp: ob_inv_def)
        then show ?thesis using ob_step.received [OF w] by blast
      qed
    qed
  qed
qed

section \<open>Properties\<close>

text \<open>
  C35: over a WebSocket connection a sender is told of success only for an envelope that the connection has
  taken; the connection takes envelopes in the order in which they entered the channel, each at most
  once, and the channel never holds more than its capacity. This holds for every interleaving of senders,
  writer, errors and cancellation.
\<close>

theorem ws_send_confirmed:
  assumes "ob_reachable L cap s"
  shows "(\<forall>n env. ob_calls s n = Some (Returned True env None) \<longrightarrow> env \<in> set (ob_written s)) \<and>
    subseq (ob_written s) (ob_pushed s) \<and> length (ob_queue s) \<le> cap \<and> length (ob_errs s) \<le> 4"
proof -
  have inv: "ob_inv s" using assms by (rule ob_reachable_inv)
  then obtain pre where pre: "ob_pushed s = pre @ map om_env (ob_queue s)" "subseq (ob_written s) pre"
    by (auto simp: ob_inv_def)
  have "subseq (ob_written s) (ob_pushed s)" using list_emb_append_mono [OF pre(2), of "[]"] pre(1) by simp
  moreover have "\<forall>n env. ob_calls s n = Some (Returned True env None) \<longrightarrow> env \<in> set (ob_written s)"
    and "length (ob_queue s) \<le> ob_cap s" "length (ob_errs s) \<le> 4"
    using inv by (simp_all add: ob_inv_def)
  ultimately show ?thesis using ob_reachable_cap [OF assms] by simp
qed

text \<open>One call, from the start to its answer.\<close>

definition sent_state :: outbound where
  "sent_state = \<lparr>ob_cap = 1, ob_queue = [], ob_calls = [0 \<mapsto> Returned True zero_Envelope None], ob_dones = [0 \<mapsto> None],
     ob_writer = True, ob_errs = [], ob_cancelled = False, ob_pushed = [zero_Envelope], ob_written = [zero_Envelope]\<rparr>"

lemma sent_state_reachable: "ob_reachable sample_lib 1 sent_state"
proof -
  let ?s0 = "new_outbound 1"
  let ?s1 = "?s0\<lparr>ob_calls := [0 \<mapsto> Sending True zero_Envelope]\<rparr>"
  let ?s2 = "push_message 0 True zero_Envelope ?s1"
  let ?m = "\<lparr>om_env = zero_Envelope, om_done = Some 0\<rparr>"
  let ?s3 = "write_message sample_lib True ?m (?s2\<lparr>ob_queue := []\<rparr>)"
  have r1: "ob_reachable sample_lib 1 ?s1"
    using ob_reachable.env [OF ob_reachable.start ob_env.calls [of ?s0 0 True zero_Envelope]] by (simp add: new_outbound_def)
  have r2: "ob_reachable sample_lib 1 ?s2"
    by (rule ob_reachable.step [OF r1], rule ob_step.push) (simp_all add: new_outbound_def)
  have r3: "ob_reachable sample_lib 1 ?s3"
    by (rule ob_reachable.step [OF r2], rule ob_step.writes) (simp_all add: push_message_def new_outbound_def)
  have m: "marshal_Envelope sample_lib zero_Envelope \<noteq> None"
    by (simp add: marshal_Envelope_def zero_Envelope_def json_time_ok_def)
  have "ob_reachable sample_lib 1 (?s3\<lparr>ob_calls := (ob_calls ?s3)(0 \<mapsto> Returned True zero_Envelope None)\<rparr>)"
    by (rule ob_reachable.step [OF r3], rule ob_step.received)
       (use m in \<open>auto simp: write_message_def push_message_def completeOutbound_def new_outbound_def split: option.split\<close>)
  moreover have "?s3\<lparr>ob_calls := (ob_calls ?s3)(0 \<mapsto> Returned True zero_Envelope None)\<rparr> = sent_state"
    using m by (auto simp: write_message_def push_message_def completeOutbound_def new_outbound_def sent_state_def split: option.split)
  ultimately show ?thesis by simp
qed

theorem ws_send_confirmed_witness: "zero_Envelope \<in> set (ob_written sent_state) \<and> length (ob_queue sent_state) \<le> 1"
  using ws_send_confirmed [OF sent_state_reachable] by (simp add: sent_state_def)



end
