(* ===== verification/Backoff.thy ===== *)
theory Backoff
  imports Go_Prelude
begin

text \<open>
  internal/transport/backoff.go: the delays between attempts to reach the cloud. The delay is an int64
  and doubles with its wrap-around; the jitter is float64 arithmetic, written over the rationals with
  a rounding after each operation. The rounding and the conversion to an integer are parameters.
\<close>

section \<open>float64\<close>

record float64_ops =
  fl_round :: "rat \<Rightarrow> rat" \<comment> \<open>to the nearest float64\<close>
  fl_int :: "rat \<Rightarrow> int" \<comment> \<open>conversion to int64\<close>

text \<open>
  What IEEE 754 and the Go specification say of them, on the numbers that stay finite: rounding is
  monotone, symmetric and idempotent and keeps the powers of two, and the conversion of a number in range drops the fraction.
\<close>

definition truncate_rat :: "rat \<Rightarrow> int" where
  "truncate_rat x = (if 0 \<le> x then \<lfloor>x\<rfloor> else \<lceil>x\<rceil>)"

definition float64_ok :: "float64_ops \<Rightarrow> bool" where
  "float64_ok F \<longleftrightarrow> (\<forall>x y. x \<le> y \<longrightarrow> fl_round F x \<le> fl_round F y) \<and> (\<forall>x. fl_round F (- x) = - fl_round F x) \<and>
     (\<forall>x. fl_round F (fl_round F x) = fl_round F x) \<and> (\<forall>n \<le> 1023. fl_round F (2 ^ n) = 2 ^ n) \<and>
     (\<forall>x. int64 (truncate_rat x) \<longrightarrow> fl_int F x = truncate_rat x)"

section \<open>Delays\<close>

record Backoff =
  bo_min :: duration
  bo_max :: duration
  bo_jitter :: rat
  bo_next :: duration

definition NewBackoff :: "duration \<Rightarrow> duration \<Rightarrow> rat \<Rightarrow> Backoff" where
  "NewBackoff minDelay maxDelay jitter =
     (let minDelay = (if minDelay \<le> 0 then Second else minDelay);
          maxDelay = (if maxDelay < minDelay then minDelay else maxDelay);
          jitter = (if jitter < 0 then 0 else jitter)
      in \<lparr>bo_min = minDelay, bo_max = maxDelay, bo_jitter = jitter, bo_next = 0\<rparr>)"

text \<open>The field next after a call of Next.\<close>

definition advance :: "Backoff \<Rightarrow> Backoff" where
  "advance b =
     (if bo_next b = 0 then b\<lparr>bo_next := bo_min b\<rparr>
      else let next = wrap64 (bo_next b * 2) in b\<lparr>bo_next := if next > bo_max b then bo_max b else next\<rparr>)"

text \<open>The draw is what the generator's Float64 returns, a number from 0 up to 1.\<close>

definition Backoff_Next :: "float64_ops \<Rightarrow> rat \<Rightarrow> Backoff \<Rightarrow> duration \<times> Backoff" where
  "Backoff_Next F draw b =
     (let b = advance b
      in if bo_jitter b = 0 then (bo_next b, b)
         else let delta = fl_round F (fl_round F (of_int (bo_next b)) * bo_jitter b);
                  offset = fl_round F (fl_round F (fl_round F (draw * 2) - 1) * delta);
                  delay = fl_int F (fl_round F (fl_round F (of_int (bo_next b)) + offset))
              in if delay < 0 then (0, b) else (delay, b))"

definition Backoff_Reset :: "Backoff \<Rightarrow> Backoff" where
  "Backoff_Reset b = b\<lparr>bo_next := 0\<rparr>"

text \<open>The state after each of several calls.\<close>

fun backoff_run :: "float64_ops \<Rightarrow> rat list \<Rightarrow> Backoff \<Rightarrow> Backoff" where
  "backoff_run F [] b = b"
| "backoff_run F (d # ds) b = backoff_run F ds (snd (Backoff_Next F d b))"

section \<open>The delays double up to the maximum\<close>

definition backoff_ok :: "Backoff \<Rightarrow> bool" where
  "backoff_ok b \<longleftrightarrow> 0 < bo_min b \<and> bo_min b \<le> bo_max b \<and> bo_max b < 2 ^ 62 \<and> 0 \<le> bo_jitter b \<and>
     (bo_next b = 0 \<or> bo_min b \<le> bo_next b \<and> bo_next b \<le> bo_max b)"

lemma NewBackoff_ok:
  "maxDelay < 2 ^ 62 \<Longrightarrow> minDelay < 2 ^ 62 \<Longrightarrow> backoff_ok (NewBackoff minDelay maxDelay jitter)"
  by (simp add: NewBackoff_def backoff_ok_def Let_def)

lemma advance_frame [simp]:
  "bo_min (advance b) = bo_min b" "bo_max (advance b) = bo_max b" "bo_jitter (advance b) = bo_jitter b"
  by (simp_all add: advance_def Let_def)

lemma advance_next:
  assumes "backoff_ok b"
  shows "bo_next (advance b) = (if bo_next b = 0 then bo_min b else min (bo_max b) (2 * bo_next b))"
proof -
  have "int64 (bo_next b * 2)" if "bo_next b \<noteq> 0"
    using assms that by (auto simp: backoff_ok_def int64_def)
  then show ?thesis by (auto simp: advance_def Let_def mult.commute)
qed

lemma advance_ok: "backoff_ok b \<Longrightarrow> backoff_ok (advance b)"
  using advance_next [of b] by (auto simp: backoff_ok_def)

lemma snd_Backoff_Next [simp]: "snd (Backoff_Next F d b) = advance b"
  by (simp add: Backoff_Next_def Let_def)

lemma backoff_run_frame:
  "bo_min (backoff_run F ds b) = bo_min b \<and> bo_max (backoff_run F ds b) = bo_max b"
  by (induction ds arbitrary: b) simp_all

lemma backoff_run_pow:
  assumes "backoff_ok b" and "0 < bo_next b"
  shows "bo_next (backoff_run F ds b) = min (bo_max b) (bo_next b * 2 ^ length ds)"
  using assms
proof (induction ds arbitrary: b)
  case Nil
  then show ?case by (simp add: backoff_ok_def)
next
  case (Cons d ds)
  have next1: "bo_next (advance b) = min (bo_max b) (2 * bo_next b)"
    using Cons.prems advance_next [of b] by simp
  have pos: "0 < bo_next (advance b)" using next1 Cons.prems by (simp add: backoff_ok_def)
  have big: "bo_max b \<le> bo_max b * 2 ^ length ds"
    using Cons.prems by (simp add: backoff_ok_def)
  have "bo_next (backoff_run F (d # ds) b) = min (bo_max b) (min (bo_max b) (2 * bo_next b) * 2 ^ length ds)"
    using Cons.IH [OF advance_ok [OF Cons.prems(1)] pos] next1 by simp
  also have "\<dots> = min (bo_max b) (min (bo_max b * 2 ^ length ds) (2 * bo_next b * 2 ^ length ds))"
    by (simp add: min_mult_distrib_right)
  also have "\<dots> = min (bo_max b) (2 * bo_next b * 2 ^ length ds)"
    using big by linarith
  finally show ?case by (simp add: mult.commute mult.left_commute)
qed

section \<open>The jitter stays around the delay\<close>

lemma truncate_mono: "x \<le> y \<Longrightarrow> truncate_rat x \<le> truncate_rat y"
proof -
  assume xy: "x \<le> y"
  show "truncate_rat x \<le> truncate_rat y"
  proof (cases "0 \<le> x")
    case True
    then show ?thesis using xy by (simp add: truncate_rat_def floor_mono)
  next
    case False
    show ?thesis
    proof (cases "0 \<le> y")
      case True
      have "\<lceil>x\<rceil> \<le> 0" using False by simp
      also have "0 \<le> \<lfloor>y\<rfloor>" using True by simp
      finally show ?thesis using False True by (simp add: truncate_rat_def)
    next
      case neg: False
      then show ?thesis using False xy by (simp add: truncate_rat_def ceiling_mono)
    qed
  qed
qed

lemma unit_draw:
  assumes F: "float64_ok F" and "0 \<le> draw" and "draw < 1"
  shows "\<bar>fl_round F (fl_round F (draw * 2) - 1)\<bar> \<le> 1"
proof -
  have mono: "\<And>x y. x \<le> y \<Longrightarrow> fl_round F x \<le> fl_round F y" and neg: "\<And>x. fl_round F (- x) = - fl_round F x"
    and pow: "\<And>n. n \<le> 1023 \<Longrightarrow> fl_round F (2 ^ n) = 2 ^ n"
    using F by (auto simp: float64_ok_def)
  have one: "fl_round F 1 = 1" and two: "fl_round F 2 = 2" using pow [of 0] pow [of 1] by simp_all
  have zero: "fl_round F 0 = 0" using neg [of 0] by simp
  have "0 \<le> fl_round F (draw * 2)" "fl_round F (draw * 2) \<le> 2"
    using mono [of 0 "draw * 2"] mono [of "draw * 2" 2] assms(2,3) zero two by auto
  then show ?thesis
    using mono [of "-1" "fl_round F (draw * 2) - 1"] mono [of "fl_round F (draw * 2) - 1" 1] neg [of 1] one
    by (simp add: abs_le_iff)
qed

lemma jitter_offset:
  assumes F: "float64_ok F" and u: "\<bar>u\<bar> \<le> 1" and d: "0 \<le> x"
  shows "\<bar>fl_round F (u * fl_round F x)\<bar> \<le> fl_round F x"
proof -
  have mono: "\<And>x y. x \<le> y \<Longrightarrow> fl_round F x \<le> fl_round F y" and neg: "\<And>x. fl_round F (- x) = - fl_round F x"
    and idem: "\<And>x. fl_round F (fl_round F x) = fl_round F x"
    using F by (auto simp: float64_ok_def)
  have pos: "0 \<le> fl_round F x" using mono [OF d] neg [of 0] by simp
  have "u * fl_round F x \<le> fl_round F x" "- fl_round F x \<le> u * fl_round F x"
    using u pos mult_right_mono [of u 1 "fl_round F x"] mult_right_mono [of "-1" u "fl_round F x"] by (auto simp: abs_le_iff)
  then show ?thesis
    using mono [of "u * fl_round F x" "fl_round F x"] mono [of "- fl_round F x" "u * fl_round F x"] neg idem
    by (simp add: abs_le_iff)
qed

text \<open>The delay that is waited, around the delay that was reached.\<close>

lemma Backoff_Next_delay:
  assumes F: "float64_ok F" and b: "backoff_ok b" and j: "0 < bo_jitter b" "bo_jitter b \<le> 1"
    and n: "bo_next (advance b) = n" "n \<le> 2 ^ 61" and draw: "0 \<le> draw" "draw < 1"
  defines "m \<equiv> fl_round F (of_int n)"
  defines "delta \<equiv> fl_round F (m * bo_jitter b)"
  shows "0 \<le> fst (Backoff_Next F draw b) \<and> truncate_rat (fl_round F (m - delta)) \<le> fst (Backoff_Next F draw b) \<and>
    fst (Backoff_Next F draw b) \<le> truncate_rat (fl_round F (m + delta))"
proof -
  have mono: "\<And>x y. x \<le> y \<Longrightarrow> fl_round F x \<le> fl_round F y" and neg: "\<And>x. fl_round F (- x) = - fl_round F x"
    and idem: "\<And>x. fl_round F (fl_round F x) = fl_round F x" and pow: "\<And>k. k \<le> 1023 \<Longrightarrow> fl_round F (2 ^ k) = 2 ^ k"
    and conv: "\<And>x. int64 (truncate_rat x) \<Longrightarrow> fl_int F x = truncate_rat x"
    using F by (auto simp: float64_ok_def)
  have zero: "fl_round F 0 = 0" using neg [of 0] by simp
  have n0: "0 \<le> n" using advance_next [OF b] b n(1) by (auto simp: backoff_ok_def split: if_splits)
  have m0: "0 \<le> m" using mono [of 0 "of_int n"] zero n0 by (simp add: m_def)
  have m1: "m \<le> 2 ^ 61"
  proof -
    have "(of_int n :: rat) \<le> of_int (2 ^ 61)" using n(2) by (simp only: of_int_le_iff)
    then show ?thesis using mono [of "of_int n" "2 ^ 61"] pow [of 61] by (simp add: m_def)
  qed
  have mj: "0 \<le> m * bo_jitter b" "m * bo_jitter b \<le> m"
    using m0 j mult_left_mono [of "bo_jitter b" 1 m] by simp_all
  have d: "0 \<le> delta" "delta \<le> m"
    using mono [OF mj(1)] mono [OF mj(2)] zero idem by (simp_all add: delta_def m_def)
  define u where "u = fl_round F (fl_round F (draw * 2) - 1)"
  define x where "x = fl_round F (m + fl_round F (u * delta))"
  have off: "\<bar>fl_round F (u * delta)\<bar> \<le> delta"
    using jitter_offset [OF F unit_draw [OF F draw] mj(1)] by (simp add: u_def delta_def)
  have lo: "fl_round F (m - delta) \<le> x" and hi: "x \<le> fl_round F (m + delta)"
    using off mono [of "m - delta" "m + fl_round F (u * delta)"] mono [of "m + fl_round F (u * delta)" "m + delta"]
    by (simp_all add: x_def abs_le_iff)
  have lo0: "0 \<le> fl_round F (m - delta)" using mono [of 0 "m - delta"] zero d by simp
  have hi2: "fl_round F (m + delta) \<le> 2 ^ 62" using mono [of "m + delta" "2 ^ 62"] pow [of 62] d m1 by simp
  have t: "0 \<le> truncate_rat x" "truncate_rat x \<le> 2 ^ 62"
  proof -
    have "truncate_rat 0 = 0" "truncate_rat (2 ^ 62) = 2 ^ 62" by (simp_all add: truncate_rat_def)
    then show "0 \<le> truncate_rat x" "truncate_rat x \<le> 2 ^ 62"
      using truncate_mono [of 0 x] truncate_mono [of x "2 ^ 62"] lo lo0 hi hi2 by linarith+
  qed
  then have "fl_int F x = truncate_rat x" by (intro conv) (simp add: int64_def)
  then have "fst (Backoff_Next F draw b) = truncate_rat x"
    using j n(1) t by (simp add: Backoff_Next_def Let_def x_def u_def delta_def m_def)
  then show ?thesis using t truncate_mono [OF lo] truncate_mono [OF hi] by simp
qed

lemma fst_Backoff_Next_plain: "bo_jitter b = 0 \<Longrightarrow> fst (Backoff_Next F draw b) = bo_next (advance b)"
  by (simp add: Backoff_Next_def Let_def)

section \<open>Properties\<close>

text \<open>
  C26: the wait before the attempt after k failures is the least delay doubled k times and capped at the
  greatest, without overflow; the jitter moves it by at most its share of that delay, up to the rounding
  of float64, and never below zero; after a reset the delays start again.
\<close>

theorem backoff_delays:
  fixes draws :: "rat list"
  assumes F: "float64_ok F" and "0 < minDelay" and "minDelay \<le> maxDelay" and "maxDelay \<le> 2 ^ 61"
    and "0 \<le> jitter" and "jitter \<le> 1" and "0 \<le> draw" and "draw < 1"
  defines "b \<equiv> backoff_run F draws (NewBackoff minDelay maxDelay jitter)"
  defines "n \<equiv> min maxDelay (minDelay * 2 ^ length draws)"
  defines "m \<equiv> fl_round F (of_int n)"
  shows "bo_next (snd (Backoff_Next F draw b)) = n \<and> 0 \<le> fst (Backoff_Next F draw b) \<and>
    (jitter = 0 \<longrightarrow> fst (Backoff_Next F draw b) = n) \<and>
    (0 < jitter \<longrightarrow>
       truncate_rat (fl_round F (m - fl_round F (m * jitter))) \<le> fst (Backoff_Next F draw b) \<and>
       fst (Backoff_Next F draw b) \<le> truncate_rat (fl_round F (m + fl_round F (m * jitter)))) \<and>
    bo_next (advance (Backoff_Reset b)) = minDelay"
proof -
  let ?b0 = "NewBackoff minDelay maxDelay jitter"
  have b0: "?b0 = \<lparr>bo_min = minDelay, bo_max = maxDelay, bo_jitter = jitter, bo_next = 0\<rparr>"
    using assms by (simp add: NewBackoff_def)
  have ok0: "backoff_ok ?b0" using assms by (intro NewBackoff_ok) simp_all
  have run: "backoff_ok (backoff_run F ds c) \<and> bo_jitter (backoff_run F ds c) = bo_jitter c" if "backoff_ok c" for ds c
    using that by (induction ds arbitrary: c) (simp_all add: advance_ok)
  have ok: "backoff_ok b" and jit: "bo_jitter b = jitter" using run [OF ok0] by (simp_all add: b_def b0)
  have last: "advance (backoff_run F ds c) = backoff_run F (ds @ [draw]) c" for ds c
    by (induction ds arbitrary: c) simp_all
  have first: "advance ?b0 = ?b0\<lparr>bo_next := minDelay\<rparr>" by (simp add: advance_def b0)
  have ok1: "backoff_ok (?b0\<lparr>bo_next := minDelay\<rparr>)" using assms by (simp add: backoff_ok_def b0)
  have next': "bo_next (advance b) = n"
  proof (cases draws)
    case Nil
    then show ?thesis using assms by (simp add: b_def first n_def)
  next
    case (Cons d ds)
    then show ?thesis
      using backoff_run_pow [OF ok1, of F "ds @ [draw]"] assms last [of "d # ds" ?b0]
      by (simp add: b_def n_def b0 first [unfolded b0])
  qed
  have "n \<le> 2 ^ 61" "0 < n" using assms by (simp_all add: n_def)
  note n = this
  have reset: "bo_next (advance (Backoff_Reset b)) = minDelay"
    using backoff_run_frame [of F draws ?b0] by (simp add: Backoff_Reset_def advance_def b_def b0)
  show ?thesis
  proof (cases "jitter = 0")
    case True
    then show ?thesis using fst_Backoff_Next_plain [of b F draw] jit next' n reset by simp
  next
    case False
    then show ?thesis
      using Backoff_Next_delay [OF F ok _ _ next' n(1) assms(7,8), unfolded jit, folded m_def] assms(5,6) next' reset
      by simp
  qed
qed

text \<open>Rounding to whole numbers is a rounding of that kind.\<close>

definition sample_floats :: float64_ops where
  "sample_floats = \<lparr>fl_round = (\<lambda>x. of_int (truncate_rat x)), fl_int = truncate_rat\<rparr>"

lemma sample_floats_ok: "float64_ok sample_floats"
proof -
  have "(of_int (truncate_rat x) :: rat) \<le> of_int (truncate_rat y)" if "x \<le> y" for x y
    using truncate_mono [OF that] by simp
  moreover have "truncate_rat (- x) = - truncate_rat x" for x
    by (cases "x = 0") (auto simp: truncate_rat_def ceiling_def)
  moreover have "truncate_rat (2 ^ n) = 2 ^ n" for n
    by (simp add: truncate_rat_def)
  ultimately show ?thesis
    by (simp add: float64_ok_def sample_floats_def) (simp add: truncate_rat_def)
qed

theorem backoff_delays_witness:
  "bo_next (snd (Backoff_Next sample_floats (1 / 2) (backoff_run sample_floats [0, 0] (NewBackoff Second Minute (1 / 5))))) =
     min Minute (Second * 2 ^ 2)"
  using backoff_delays [OF sample_floats_ok, of Second Minute "1 / 5" "1 / 2" "[0, 0]"] by simp

end
