(* ===== verification/Pull_Client.thy ===== *)
theory Pull_Client
  imports Http_Auth Handler Backoff
begin

text \<open>
  internal/transport/pull_client.go: the HTTP fallback. A poll asks the cloud for commands, hands each
  to the one command handler and puts its result into the outbox; results leave through SendRecord.
  The shared handler and dispatcher are passed as state.
\<close>

section \<open>State\<close>

record PullClient =
  pc_opts :: PullClientOptions
  pc_lastCommandID :: string
  pc_lastCommandState :: string

text \<open>io.LimitReader over a body that ends, or breaks, after its bytes.\<close>

definition readLimited :: "http_response \<Rightarrow> int \<Rightarrow> transport_error + string" where
  "readLimited resp maxBytes =
     (let limit = wrap64 (maxBytes + 1);
          data = take (nat limit) (hs_Body resp)
      in if hs_broken resp \<and> int (length (hs_Body resp)) < limit then Inl ReadFailed
         else if int (length data) > maxBytes then Inl (ResponseTooLarge maxBytes)
         else Inr data)"

definition rejectedResult :: "string \<Rightarrow> string \<Rightarrow> string \<Rightarrow> string \<Rightarrow> world \<Rightarrow> ResultPayload \<times> world" where
  "rejectedResult commandID action code message w =
     (let (now, w) = time_Now w
      in (zero_ResultPayload\<lparr>res_CommandID := commandID, res_Action := action, res_State := CommandRejected,
            res_ExitCode := -1, res_Stderr := message, res_StartedAt := now, res_EndedAt := now,
            res_DurationMS := 0, res_ErrorCode := code\<rparr>, w))"

definition pull_mgateSummary :: "PullClientOptions \<Rightarrow> world \<Rightarrow> MGateStatusSummary option \<times> world" where
  "pull_mgateSummary opts w =
     (case po_MGateStatus opts of
        None \<Rightarrow> (None, w)
      | Some summary \<Rightarrow> (let (s, w) = summary w in (Some s, w)))"

section \<open>Sending results\<close>

definition is_2xx :: "int \<Rightarrow> bool" where
  "is_2xx code \<longleftrightarrow> \<not> (code < 200 \<or> code \<ge> 300)"

definition postEnvelope :: "golib \<Rightarrow> PullClientOptions \<Rightarrow> Envelope \<Rightarrow> world \<Rightarrow> transport_error option \<times> world" where
  "postEnvelope L opts env w =
     (case BuildHTTPURL L (po_BaseURL opts) (po_ResultPath opts) of
        Inl e \<Rightarrow> (Some e, w)
      | Inr resultURL \<Rightarrow>
          (case marshal_Envelope L env of
             None \<Rightarrow> (Some MarshalFailed, w)
           | Some j \<Rightarrow>
               (case newSignedJSONRequest L ''POST'' resultURL (po_ResultPath opts) (lib_marshal L j) opts w of
                  (Inl e, w) \<Rightarrow> (Some e, w)
                | (Inr req, w) \<Rightarrow>
                    (case http_Do req w of
                       (Inl msg, w) \<Rightarrow> (Some (HTTPFailed msg), w)
                     | (Inr resp, w) \<Rightarrow>
                         (if is_2xx (hs_StatusCode resp) then (None, w) else (Some (BadStatus (hs_StatusCode resp)), w))))))"

text \<open>The text of an error is a parameter: it holds what the standard library says of its errors.\<close>

definition SendRecord :: "golib \<Rightarrow> (transport_error \<Rightarrow> string) \<Rightarrow> PullClientOptions \<Rightarrow> ResultSender" where
  "SendRecord L etext opts = (\<lambda>record w. let (e, w) = postEnvelope L opts (rec_Envelope record) w in (map_option etext e, w))"

definition NewPullClient ::
  "golib \<Rightarrow> (transport_error \<Rightarrow> string) \<Rightarrow> PullClientOptions \<Rightarrow> ResultDispatcher \<Rightarrow> transport_error + (PullClient \<times> ResultDispatcher)" where
  "NewPullClient L etext opts d =
     (if po_Handler opts = None then Inl NeedsHandler
      else if po_Dispatcher opts = None then Inl NeedsDispatcher
      else let opts = (if po_RequestTimeout opts \<le> 0 then opts\<lparr>po_RequestTimeout := 15 * Second\<rparr> else opts);
               opts = (if po_PullInterval opts \<le> 0 then opts\<lparr>po_PullInterval := 10 * Second\<rparr> else opts);
               opts = (if po_MaxResponseBytes opts \<le> 0 then opts\<lparr>po_MaxResponseBytes := DefaultMaxMessageBytes\<rparr> else opts);
               opts = (if po_MaxCommands opts \<le> 0 then opts\<lparr>po_MaxCommands := DefaultMaxPullCommands\<rparr> else opts);
               opts = (if po_Client opts = None then opts\<lparr>po_Client := Some (po_RequestTimeout opts)\<rparr> else opts)
           in Inr (\<lparr>pc_opts = opts, pc_lastCommandID = [], pc_lastCommandState = []\<rparr>,
                   SetPullSender (Some (SendRecord L etext opts)) d))"

section \<open>Polling\<close>

definition handleEnvelope :: "golib \<Rightarrow> string \<Rightarrow> Envelope \<Rightarrow> Handler \<times> world \<Rightarrow> ResultPayload \<times> Handler \<times> world" where
  "handleEnvelope L deviceID env hw =
     (let (h, w) = hw
      in (case unmarshal_CommandPayload L (env_Payload env) of
            None \<Rightarrow> (let (r, w) = rejectedResult [] [] ''invalid_payload'' ''invalid command payload'' w in (r, h, w))
          | Some cmd \<Rightarrow>
              if env_Version env \<noteq> envelopeVersion
              then (let (r, w) = rejectedResult (cmd_CommandID cmd) (cmd_Action cmd) ''invalid_version''
                                   ''unsupported envelope version'' w in (r, h, w))
              else if env_Type env \<noteq> MessageTypeCommand
              then (let (r, w) = rejectedResult (cmd_CommandID cmd) (cmd_Action cmd) ''invalid_type''
                                   ''pull response item is not command'' w in (r, h, w))
              else if env_DeviceID env \<noteq> deviceID
              then (let (r, w) = rejectedResult (cmd_CommandID cmd) (cmd_Action cmd) ''device_mismatch''
                                   ''command device_id does not match this device'' w in (r, h, w))
              else Handle L cmd (h, w)))"

text \<open>
  The commands of a response, one by one. \<^const>\<open>None\<close>: a save into the outbox does not
  return. The calls of a sender are collected.
\<close>

fun poll_loop ::
  "golib \<Rightarrow> (world \<Rightarrow> bool) \<Rightarrow> PullClient \<Rightarrow> Envelope list \<Rightarrow> Handler \<times> ResultDispatcher \<times> world \<Rightarrow>
   (transport_error option \<times> PullClient \<times> send_event list \<times> Handler \<times> ResultDispatcher \<times> world) option" where
  "poll_loop L ctx c [] (h, d, w) = Some (None, c, [], h, d, w)"
| "poll_loop L ctx c (env # envs) (h, d, w) =
     (let (result, h, w) = handleEnvelope L (po_DeviceID (pc_opts c)) env (h, w)
      in if res_CommandID result = [] then poll_loop L ctx c envs (h, d, w)
         else (case makeEnvelope MessageTypeResult (po_DeviceID (pc_opts c)) (res_CommandID result)
                      (marshal_ResultPayload L result) w of
                 (None, w) \<Rightarrow> Some (Some MarshalFailed, c, [], h, d, w)
               | (Some resultEnv, w) \<Rightarrow>
                   (case Enqueue L ctx resultEnv (d, w) of
                      None \<Rightarrow> None
                    | Some (Some e, sent, d, w) \<Rightarrow> Some (Some (OutboxFailed e), c, sent, h, d, w)
                    | Some (None, sent, d, w) \<Rightarrow>
                        map_option (\<lambda>(e, c, more, st). (e, c, sent @ more, st))
                          (poll_loop L ctx (c\<lparr>pc_lastCommandID := res_CommandID result, pc_lastCommandState := res_State result\<rparr>)
                             envs (h, d, w)))))"

definition pull_request :: "PullClient \<Rightarrow> MGateStatusSummary option \<Rightarrow> PullRequestPayload" where
  "pull_request c mg =
     \<lparr>pr_AgentVersion = po_AgentVersion (pc_opts c), pr_DeviceID = po_DeviceID (pc_opts c),
      pr_TenantID = po_TenantID (pc_opts c), pr_DeviceName = po_DeviceName (pc_opts c),
      pr_LastCommandID = pc_lastCommandID c, pr_LastCommandState = pc_lastCommandState c, pr_ActiveJobs = 0,
      pr_Transport = ''pull'', pr_MGate = mg\<rparr>"

text \<open>The first half of PollOnce: the request, up to the commands of the response.\<close>

definition fetch_commands :: "golib \<Rightarrow> PullClient \<Rightarrow> world \<Rightarrow> (transport_error + Envelope list) \<times> world" where
  "fetch_commands L c w =
     (case BuildHTTPURL L (po_BaseURL (pc_opts c)) (po_PullPath (pc_opts c)) of
        Inl e \<Rightarrow> (Inl e, w)
      | Inr pullURL \<Rightarrow>
          (let (mg, w) = pull_mgateSummary (pc_opts c) w
           in (case marshal_PullRequestPayload L (pull_request c mg) of
                 None \<Rightarrow> (Inl MarshalFailed, w)
               | Some j \<Rightarrow>
                   (case newSignedJSONRequest L ''POST'' pullURL (po_PullPath (pc_opts c)) (lib_marshal L j) (pc_opts c) w of
                      (Inl e, w) \<Rightarrow> (Inl e, w)
                    | (Inr req, w) \<Rightarrow>
                        (case http_Do req w of
                           (Inl msg, w) \<Rightarrow> (Inl (HTTPFailed msg), w)
                         | (Inr resp, w) \<Rightarrow>
                             (if \<not> is_2xx (hs_StatusCode resp) then (Inl (BadStatus (hs_StatusCode resp)), w)
                              else (case readLimited resp (po_MaxResponseBytes (pc_opts c)) of
                                      Inl e \<Rightarrow> (Inl e, w)
                                    | Inr data \<Rightarrow>
                                        (case unmarshal_PullResponsePayload L data of
                                           None \<Rightarrow> (Inl DecodeResponse, w)
                                         | Some payload \<Rightarrow>
                                             (if int (length (pp_Commands payload)) > po_MaxCommands (pc_opts c)
                                              then (Inl (TooManyCommands (length (pp_Commands payload))), w)
                                              else (Inr (pp_Commands payload), w))))))))))"

definition PollOnce ::
  "golib \<Rightarrow> (world \<Rightarrow> bool) \<Rightarrow> PullClient \<Rightarrow> Handler \<times> ResultDispatcher \<times> world \<Rightarrow>
   (transport_error option \<times> PullClient \<times> send_event list \<times> Handler \<times> ResultDispatcher \<times> world) option" where
  "PollOnce L ctx c st =
     (let (h, d, w) = st
      in (case fetch_commands L c w of
            (Inl e, w) \<Rightarrow> Some (Some e, c, [], h, d, w)
          | (Inr envs, w) \<Rightarrow> poll_loop L ctx c envs (h, d, w)))"

section \<open>The loop\<close>

text \<open>
  One round of Run for what the environment decides in it: whether polling is due, the draw of the
  backoff, and whether the context ends the sleep that follows. A round ends the loop or sleeps.
\<close>

record pull_input =
  pi_shouldPoll :: bool
  pi_draw :: rat
  pi_interrupted :: bool

datatype pull_next = Stop | Sleep duration

type_synonym pull_state = "Backoff \<times> PullClient \<times> Handler \<times> ResultDispatcher \<times> world"

definition pull_round ::
  "golib \<Rightarrow> float64_ops \<Rightarrow> (world \<Rightarrow> bool) \<Rightarrow> pull_input \<Rightarrow> pull_state \<Rightarrow> (pull_next \<times> pull_state) option" where
  "pull_round L F ctx inp st =
     (let (b, c, h, d, w) = st
      in if ctx w then Some (Stop, st)
         else if \<not> pi_shouldPoll inp then Some (Sleep (200 * Millisecond), st)
         else (case PollOnce L ctx c (h, d, w) of
                 None \<Rightarrow> None
               | Some (Some e, c, sent, h, d, w) \<Rightarrow>
                   (if ctx w then Some (Stop, b, c, h, d, w)
                    else let (delay, b) = Backoff_Next F (pi_draw inp) b in Some (Sleep delay, b, c, h, d, w))
               | Some (None, c, sent, h, d, w) \<Rightarrow>
                   Some (Sleep (po_PullInterval (pc_opts c)), Backoff_Reset b, c, h, d, w)))"

definition pull_backoff :: "float64_ops \<Rightarrow> PullClientOptions \<Rightarrow> Backoff" where
  "pull_backoff F opts =
     NewBackoff (if po_ReconnectMinDelay opts \<le> 0 then Second else po_ReconnectMinDelay opts)
       (if po_ReconnectMaxDelay opts \<le> 0 then Minute else po_ReconnectMaxDelay opts) (fl_round F (1 / 5))"

text \<open>The rounds of Run, with the sleeps it took.\<close>

fun pull_rounds ::
  "golib \<Rightarrow> float64_ops \<Rightarrow> (world \<Rightarrow> bool) \<Rightarrow> pull_input list \<Rightarrow> pull_state \<Rightarrow> (duration list \<times> pull_state) option" where
  "pull_rounds L F ctx [] st = Some ([], st)"
| "pull_rounds L F ctx (inp # inps) st =
     (case pull_round L F ctx inp st of
        None \<Rightarrow> None
      | Some (Stop, st) \<Rightarrow> Some ([], st)
      | Some (Sleep delay, st) \<Rightarrow>
          if pi_interrupted inp then Some ([delay], st)
          else map_option (map_prod ((#) delay) id) (pull_rounds L F ctx inps st))"

definition Pull_Run ::
  "golib \<Rightarrow> float64_ops \<Rightarrow> (world \<Rightarrow> bool) \<Rightarrow> pull_input list \<Rightarrow> PullClient \<Rightarrow> Handler \<times> ResultDispatcher \<times> world \<Rightarrow>
   (duration list \<times> pull_state) option" where
  "Pull_Run L F ctx inps c st = pull_rounds L F ctx inps (pull_backoff F (pc_opts c), c, st)"

end
