(* ===== verification/WS_Client.thy ===== *)
theory WS_Client
  imports Pull_Client
begin

text \<open>
  internal/transport/ws_client.go without the outbound channel: the client, the handshake of a connection,
  and the goroutines that run on it, the reader, the workers and the heartbeat. Each function of the
  source is a function over the session, the state these goroutines share; the next theory interleaves
  them. The call of sendOutbound here is told whether its send was taken: the channel itself is the
  subject of the theory of the outbound channel.
\<close>

section \<open>The client\<close>

record WSClient =
  ws_opts :: WSClientOptions
  ws_startedAt :: time
  ws_activeJobs :: int
  ws_lastCommandID :: string
  ws_lastCommandState :: string

definition NewWSClient :: "WSClientOptions \<Rightarrow> world \<Rightarrow> (transport_error + WSClient) \<times> world" where
  "NewWSClient opts w =
     (if wo_Handler opts = None then (Inl NeedsHandler, w)
      else if wo_Dispatcher opts = None then (Inl NeedsDispatcher, w)
      else let opts = (if wo_RequestTimeout opts \<le> 0 then opts\<lparr>wo_RequestTimeout := 15 * Second\<rparr> else opts);
               opts = (if wo_HeartbeatInterval opts \<le> 0 then opts\<lparr>wo_HeartbeatInterval := 30 * Second\<rparr> else opts);
               opts = (if wo_MaxMessageBytes opts \<le> 0 then opts\<lparr>wo_MaxMessageBytes := DefaultMaxMessageBytes\<rparr> else opts);
               opts = (if wo_CommandQueueSize opts \<le> 0 then opts\<lparr>wo_CommandQueueSize := DefaultCommandQueueSize\<rparr> else opts);
               opts = (if wo_OutboundSize opts \<le> 0 then opts\<lparr>wo_OutboundSize := DefaultOutboundSize\<rparr> else opts);
               opts = (if wo_MaxParallelJobs opts \<le> 0 then opts\<lparr>wo_MaxParallelJobs := 1\<rparr> else opts);
               (now, w) = time_Now w
           in (Inr \<lparr>ws_opts = opts, ws_startedAt = now, ws_activeJobs = 0, ws_lastCommandID = [], ws_lastCommandState = []\<rparr>, w))"

definition setLast :: "string \<Rightarrow> string \<Rightarrow> WSClient \<Rightarrow> WSClient" where
  "setLast commandID state c = c\<lparr>ws_lastCommandID := commandID, ws_lastCommandState := state\<rparr>"

definition ws_last :: "WSClient \<Rightarrow> string \<times> string" where
  "ws_last c = (ws_lastCommandID c, ws_lastCommandState c)"

definition ws_mgateSummary :: "WSClientOptions \<Rightarrow> world \<Rightarrow> MGateStatusSummary option \<times> world" where
  "ws_mgateSummary opts w =
     (case wo_MGateStatus opts of
        None \<Rightarrow> (None, w)
      | Some summary \<Rightarrow> (let (s, w) = summary w in (Some s, w)))"

section \<open>The session\<close>

text \<open>
  A worker waits for a job, runs the handler on one, has its result, or has returned. The reader waits
  for a message, has put a command into the queue and not yet acknowledged it, or has returned.
\<close>

datatype worker_pc = Idle | Running CommandPayload | Finished ResultPayload | Gone
datatype reader_pc = Reading | Acking CommandPayload | ReaderGone

text \<open>
  The last three fields record the history: the commands put into the queue, those a worker took, and
  those handled, each with its result.
\<close>

record ws_session =
  ss_client :: WSClient
  ss_jobs :: "CommandPayload list"
  ss_workers :: "worker_pc list"
  ss_reader :: reader_pc
  ss_heartbeat :: bool
  ss_errs :: "transport_error list"
  ss_cancelled :: bool
  ss_out :: "Envelope list" \<comment> \<open>what was sent into the outbound channel, oldest first\<close>
  ss_handler :: Handler
  ss_dispatcher :: ResultDispatcher
  ss_world :: world
  ss_accepted :: "CommandPayload list"
  ss_taken :: "CommandPayload list"
  ss_handled :: "(CommandPayload \<times> ResultPayload) list"

abbreviation ss_opts :: "ws_session \<Rightarrow> WSClientOptions" where
  "ss_opts s \<equiv> ws_opts (ss_client s)"

text \<open>sendOutbound's select: the channel took the message, or the context is done.\<close>

definition sendOutbound :: "bool \<Rightarrow> Envelope \<Rightarrow> ws_session \<Rightarrow> transport_error option \<times> ws_session" where
  "sendOutbound took env s = (if took then (None, s\<lparr>ss_out := ss_out s @ [env]\<rparr>) else (Some ContextDone, s))"

definition session_report :: "transport_error \<Rightarrow> ws_session \<Rightarrow> ws_session" where
  "session_report err s =
     (if ss_cancelled s then s
      else if length (ss_errs s) < 4 then s\<lparr>ss_errs := ss_errs s @ [err]\<rparr> else s)"

text \<open>An envelope of this device made and sent.\<close>

definition send_message :: "bool \<Rightarrow> MessageType \<Rightarrow> string \<Rightarrow> json option \<Rightarrow> ws_session \<Rightarrow> transport_error option \<times> ws_session" where
  "send_message took messageType correlationID payload s =
     (case makeEnvelope messageType (wo_DeviceID (ss_opts s)) correlationID payload (ss_world s) of
        (None, w) \<Rightarrow> (Some MarshalFailed, s\<lparr>ss_world := w\<rparr>)
      | (Some env, w) \<Rightarrow> sendOutbound took env (s\<lparr>ss_world := w\<rparr>))"

definition sendError :: "golib \<Rightarrow> bool \<Rightarrow> string \<Rightarrow> string \<Rightarrow> string \<Rightarrow> ws_session \<Rightarrow> transport_error option \<times> ws_session" where
  "sendError L took correlationID code message s =
     send_message took MessageTypeError correlationID (marshal_ErrorPayload L \<lparr>err_ErrorCode = code, err_Message = message\<rparr>) s"

text \<open>The result is the one that the pull client makes of a refusal. \<^const>\<open>None\<close>: the save does not return.\<close>

definition sendRejectedResult ::
  "golib \<Rightarrow> (world \<Rightarrow> bool) \<Rightarrow> CommandPayload \<Rightarrow> string \<Rightarrow> string \<Rightarrow> ws_session \<Rightarrow> (transport_error option \<times> ws_session) option" where
  "sendRejectedResult L ctx cmd code message s =
     (let (result, w) = rejectedResult (cmd_CommandID cmd) (cmd_Action cmd) code message (ss_world s)
      in (case makeEnvelope MessageTypeResult (wo_DeviceID (ss_opts s)) (cmd_CommandID cmd) (marshal_ResultPayload L result) w of
            (None, w) \<Rightarrow> Some (Some MarshalFailed, s\<lparr>ss_world := w\<rparr>)
          | (Some env, w) \<Rightarrow>
              (case Enqueue L ctx env (ss_dispatcher s, w) of
                 None \<Rightarrow> None
               | Some (e, sent, d, w) \<Rightarrow> Some (map_option OutboxFailed e, s\<lparr>ss_dispatcher := d, ss_world := w\<rparr>))))"

section \<open>Reading\<close>

text \<open>What conn.Read gives: an error, or whether the message is text, and its bytes.\<close>

type_synonym ws_read = "transport_error + bool \<times> string"

definition readEnvelope :: "golib \<Rightarrow> ws_read \<Rightarrow> transport_error + Envelope" where
  "readEnvelope L r =
     (case r of
        Inl e \<Rightarrow> Inl e
      | Inr (is_text, data) \<Rightarrow>
          if \<not> is_text then Inl NotText
          else (case lib_parse L data of
                  None \<Rightarrow> Inl DecodeEnvelope
                | Some j \<Rightarrow> (case unmarshal_Envelope L j of None \<Rightarrow> Inl DecodeEnvelope | Some env \<Rightarrow> Inr env)))"

text \<open>
  handleCommandEnvelope up to its select, and after it: a worker may take the job before the reader has
  acknowledged it. The send into the job queue fails when the queue is full.
\<close>

definition accept_command ::
  "golib \<Rightarrow> (world \<Rightarrow> bool) \<Rightarrow> bool \<Rightarrow> Envelope \<Rightarrow> ws_session \<Rightarrow> (transport_error option \<times> ws_session) option" where
  "accept_command L ctx took env s =
     (if env_Version env \<noteq> envelopeVersion
      then Some (sendError L took (env_CorrelationID env) ''invalid_version'' ''unsupported envelope version'' s)
      else (case unmarshal_CommandPayload L (env_Payload env) of
              None \<Rightarrow> Some (sendError L took (env_CorrelationID env) ''invalid_payload'' ''invalid command payload'' s)
            | Some cmd \<Rightarrow>
                if env_DeviceID env \<noteq> wo_DeviceID (ss_opts s)
                then sendRejectedResult L ctx cmd ''device_mismatch'' ''command device_id does not match this device'' s
                else if length (ss_jobs s) < nat (wo_CommandQueueSize (ss_opts s))
                then Some (None, s\<lparr>ss_jobs := ss_jobs s @ [cmd], ss_reader := Acking cmd, ss_accepted := ss_accepted s @ [cmd]\<rparr>)
                else sendRejectedResult L ctx cmd ''queue_full'' ''command queue is full'' s))"

definition send_ack :: "golib \<Rightarrow> bool \<Rightarrow> CommandPayload \<Rightarrow> ws_session \<Rightarrow> transport_error option \<times> ws_session" where
  "send_ack L took cmd s =
     send_message took MessageTypeAck (cmd_CommandID cmd)
       (marshal_AckPayload L \<lparr>ack_CommandID = cmd_CommandID cmd, ack_Action = cmd_Action cmd, ack_State = CommandQueued,
          ack_Accepted = True, ack_ErrorCode = [], ack_Message = []\<rparr>) s"

definition handleCommandEnvelope ::
  "golib \<Rightarrow> (world \<Rightarrow> bool) \<Rightarrow> bool \<Rightarrow> bool \<Rightarrow> Envelope \<Rightarrow> ws_session \<Rightarrow> (transport_error option \<times> ws_session) option" where
  "handleCommandEnvelope L ctx took took' env s =
     (case accept_command L ctx took env s of
        None \<Rightarrow> None
      | Some (e, s) \<Rightarrow>
          (case ss_reader s of Acking cmd \<Rightarrow> Some (send_ack L took' cmd s) | _ \<Rightarrow> Some (e, s)))"

text \<open>The end of a round of readLoop, with the error of the round.\<close>

definition reader_next :: "transport_error option \<Rightarrow> ws_session \<Rightarrow> ws_session" where
  "reader_next e s =
     (case e of
        None \<Rightarrow> s\<lparr>ss_reader := Reading\<rparr>
      | Some err \<Rightarrow> (session_report err s)\<lparr>ss_reader := ReaderGone\<rparr>)"

definition read_message :: "golib \<Rightarrow> (world \<Rightarrow> bool) \<Rightarrow> bool \<Rightarrow> ws_read \<Rightarrow> ws_session \<Rightarrow> ws_session option" where
  "read_message L ctx took r s =
     (case readEnvelope L r of
        Inl e \<Rightarrow> Some (reader_next (Some ReadWebSocket) s)
      | Inr env \<Rightarrow>
          if env_Type env \<noteq> MessageTypeCommand then Some s
          else (case accept_command L ctx took env s of
                  None \<Rightarrow> None
                | Some (e, s') \<Rightarrow> (case ss_reader s' of Acking cmd \<Rightarrow> Some s' | _ \<Rightarrow> Some (reader_next e s'))))"

section \<open>Workers\<close>

definition worker_takes :: "nat \<Rightarrow> CommandPayload \<Rightarrow> ws_session \<Rightarrow> ws_session" where
  "worker_takes i job s =
     s\<lparr>ss_jobs := drop 1 (ss_jobs s), ss_workers := (ss_workers s)[i := Running job],
       ss_client := (ss_client s)\<lparr>ws_activeJobs := ws_activeJobs (ss_client s) + 1\<rparr>, ss_taken := ss_taken s @ [job]\<rparr>"

text \<open>The handler runs the command as one step: its store of identifiers and its audit file have locks of their own.\<close>

definition worker_handles :: "golib \<Rightarrow> nat \<Rightarrow> CommandPayload \<Rightarrow> ws_session \<Rightarrow> ws_session" where
  "worker_handles L i cmd s =
     (let (result, h, w) = Handle L cmd (ss_handler s, ss_world s);
          c = (ss_client s)\<lparr>ws_activeJobs := ws_activeJobs (ss_client s) - 1\<rparr>
      in s\<lparr>ss_workers := (ss_workers s)[i := Finished result],
           ss_client := setLast (res_CommandID result) (res_State result) c,
           ss_handler := h, ss_world := w, ss_handled := ss_handled s @ [(cmd, result)]\<rparr>)"

definition worker_saves :: "golib \<Rightarrow> (world \<Rightarrow> bool) \<Rightarrow> nat \<Rightarrow> ResultPayload \<Rightarrow> ws_session \<Rightarrow> ws_session option" where
  "worker_saves L ctx i result s =
     (case makeEnvelope MessageTypeResult (wo_DeviceID (ss_opts s)) (res_CommandID result) (marshal_ResultPayload L result) (ss_world s) of
        (None, w) \<Rightarrow> Some (s\<lparr>ss_workers := (ss_workers s)[i := Idle], ss_world := w\<rparr>)
      | (Some env, w) \<Rightarrow>
          (case Enqueue L ctx env (ss_dispatcher s, w) of
             None \<Rightarrow> None
           | Some (e, sent, d, w) \<Rightarrow> Some (s\<lparr>ss_workers := (ss_workers s)[i := Idle], ss_dispatcher := d, ss_world := w\<rparr>)))"

section \<open>Heartbeats\<close>

text \<open>Duration.Seconds and its conversion to an integer.\<close>

definition whole_seconds :: "float64_ops \<Rightarrow> duration \<Rightarrow> int" where
  "whole_seconds F d =
     fl_int F (fl_round F (fl_round F (of_int (quot d Second)) +
       fl_round F (fl_round F (of_int (d - quot d Second * Second)) / 1000000000)))"

definition heartbeat :: "golib \<Rightarrow> float64_ops \<Rightarrow> bool \<Rightarrow> ws_session \<Rightarrow> ws_session" where
  "heartbeat L F took s =
     (let (lastID, lastState) = ws_last (ss_client s);
          (now, w) = time_Now (ss_world s);
          (pending, w) = Dispatcher_PendingCount L (ss_dispatcher s) w;
          (mg, w) = ws_mgateSummary (ss_opts s) w;
          payload = \<lparr>hb_AgentVersion = wo_AgentVersion (ss_opts s), hb_DeviceID = wo_DeviceID (ss_opts s),
             hb_UptimeSec = whole_seconds F (time_Sub now (ws_startedAt (ss_client s))),
             hb_ActiveJobs = ws_activeJobs (ss_client s), hb_LastCommandID = lastID, hb_LastCommandState = lastState,
             hb_OutboxPending = pending, hb_MGate = mg\<rparr>
      in (case send_message took MessageTypeHeartbeat [] (marshal_HeartbeatPayload L payload) (s\<lparr>ss_world := w\<rparr>) of
            (None, s) \<Rightarrow> s
          | (Some err, s) \<Rightarrow> (session_report err s)\<lparr>ss_heartbeat := False\<rparr>))"

section \<open>A connection\<close>

definition hello_payload :: "WSClientOptions \<Rightarrow> HelloPayload" where
  "hello_payload opts =
     \<lparr>hello_AgentVersion = wo_AgentVersion opts, hello_DeviceID = wo_DeviceID opts, hello_TenantID = wo_TenantID opts,
      hello_DeviceName = wo_DeviceName opts,
      hello_Capabilities = \<lparr>hc_Actions = wo_AllowedActions opts, hc_Async = True, hc_WebSocket = True,
        hc_PullFallback = wo_PullFallback opts, hc_Outbox = True\<rparr>,
      hello_Config = \<lparr>hcfg_MaxParallelJobs = wo_MaxParallelJobs opts, hcfg_MaxOutputBytes = wo_MaxOutputBytes opts\<rparr>\<rparr>"

definition sendHello :: "golib \<Rightarrow> bool \<Rightarrow> ws_session \<Rightarrow> transport_error option \<times> ws_session" where
  "sendHello L took s = send_message took MessageTypeHello [] (marshal_HelloPayload L (hello_payload (ss_opts s))) s"

definition waitHelloAck :: "golib \<Rightarrow> ws_read \<Rightarrow> transport_error option" where
  "waitHelloAck L r =
     (case readEnvelope L r of
        Inl e \<Rightarrow> Some e
      | Inr env \<Rightarrow>
          if env_Version env \<noteq> envelopeVersion \<or> env_Type env \<noteq> MessageTypeHelloAck then Some (ExpectedHelloAck (env_Type env))
          else (case unmarshal_HelloAckPayload L (env_Payload env) of
                  None \<Rightarrow> Some DecodeHelloAck
                | Some ack \<Rightarrow> if \<not> hack_Accepted ack then Some (HelloRejected (hack_Message ack)) else None))"

text \<open>The channels and goroutines of a fresh connection; the reader and the workers start after the handshake.\<close>

definition new_session :: "WSClient \<Rightarrow> Handler \<Rightarrow> ResultDispatcher \<Rightarrow> world \<Rightarrow> ws_session" where
  "new_session c h d w =
     \<lparr>ss_client = c, ss_jobs = [], ss_workers = replicate (nat (wo_MaxParallelJobs (ws_opts c))) Idle, ss_reader = Reading,
      ss_heartbeat = True, ss_errs = [], ss_cancelled = False, ss_out = [], ss_handler = h, ss_dispatcher = d, ss_world = w,
      ss_accepted = [], ss_taken = [], ss_handled = []\<rparr>"

text \<open>
  runOnce up to the point where its goroutines run: what it returns, or the session. The environment says
  whether the dial succeeds for the URL and header, whether the channel took the hello, and what the
  first read gives. The sender that the dispatcher gets sends over this connection.
\<close>

record ws_conn =
  wn_dial :: "string \<Rightarrow> http_Header \<Rightarrow> bool"
  wn_took :: bool
  wn_first :: ws_read
  wn_sender :: ResultSender

definition ws_connect ::
  "golib \<Rightarrow> ws_conn \<Rightarrow> WSClient \<Rightarrow> Handler \<times> ResultDispatcher \<times> world \<Rightarrow>
   (bool \<times> transport_error option) \<times> ws_session \<times> bool" where
  "ws_connect L conn c st =
     (let (h, d, w) = st; s = new_session c h d w
      in (case BuildWebSocketURL L (wo_BaseURL (ws_opts c)) (wo_WSPath (ws_opts c)) of
            Inl e \<Rightarrow> ((False, Some e), s, False)
          | Inr wsURL \<Rightarrow>
              (let (now, w) = time_Now w
               in (case HandshakeHeader L (ws_opts c) now w of
                     (Inl e, w) \<Rightarrow> ((False, Some e), s\<lparr>ss_world := w\<rparr>, False)
                   | (Inr header, w) \<Rightarrow>
                       if \<not> wn_dial conn wsURL header then ((False, Some DialFailed), s\<lparr>ss_world := w\<rparr>, False)
                       else (case sendHello L (wn_took conn) (s\<lparr>ss_world := w\<rparr>) of
                               (Some e, s) \<Rightarrow> ((True, Some e), s, False)
                             | (None, s) \<Rightarrow>
                                 (case waitHelloAck L (wn_first conn) of
                                    Some e \<Rightarrow> ((True, Some e), s, False)
                                  | None \<Rightarrow>
                                      ((True, None),
                                       s\<lparr>ss_dispatcher := SetWebSocketSender (Some (wn_sender conn)) (ss_dispatcher s)\<rparr>, True)))))))"

text \<open>The end of runOnce: the sender is taken out of the dispatcher again.\<close>

definition ws_close :: "ws_session \<Rightarrow> Handler \<times> ResultDispatcher \<times> world" where
  "ws_close s = (ss_handler s, SetWebSocketSender None (ss_dispatcher s), ss_world s)"

section \<open>Reconnecting\<close>

text \<open>
  The rounds of Run for what runOnce returned in each, whether the context is done after it, the draw of
  the backoff and whether the context ends the wait; the delays are returned.
\<close>

record ws_round =
  wr_outcome :: "bool \<times> transport_error option"
  wr_done :: bool
  wr_draw :: rat
  wr_interrupted :: bool

fun ws_rounds :: "float64_ops \<Rightarrow> ws_round list \<Rightarrow> Backoff \<Rightarrow> duration list \<times> Backoff" where
  "ws_rounds F [] b = ([], b)"
| "ws_rounds F (r # rs) b =
     (if wr_done r then ([], b)
      else let b = (if fst (wr_outcome r) then Backoff_Reset b else b);
               (delay, b) = Backoff_Next F (wr_draw r) b
           in if wr_interrupted r then ([delay], b)
              else let (delays, b) = ws_rounds F rs b in (delay # delays, b))"

definition WS_Run :: "float64_ops \<Rightarrow> WSClientOptions \<Rightarrow> ws_round list \<Rightarrow> duration list \<times> Backoff" where
  "WS_Run F opts rs =
     ws_rounds F rs
       (NewBackoff (if wo_ReconnectMinDelay opts \<le> 0 then Second else wo_ReconnectMinDelay opts)
         (if wo_ReconnectMaxDelay opts \<le> 0 then Minute else wo_ReconnectMaxDelay opts) (fl_round F (1 / 5)))"

end
