(* ===== verification/Manager.thy ===== *)
theory Manager
  imports WS_Client
begin

text \<open>
  internal/transport/manager.go: which transports are started and with which options, and how the
  WebSocket client's health events decide whether the pull client polls. The lemmas show that the manager's
  view of the connection follows the connection.
\<close>

section \<open>Options\<close>

record ManagerOptions =
  mn_WSEnabled :: bool
  mn_PullEnabled :: bool
  mn_WS :: WSClientOptions
  mn_Pull :: PullClientOptions
  mn_Dispatcher :: object_ref

record Manager =
  mgr_opts :: ManagerOptions
  mgr_wsHealthy :: bool

datatype manager_error = NoTransport | ManagerNeedsDispatcher | ClientFailed transport_error

definition NewManager :: "ManagerOptions \<Rightarrow> manager_error + Manager" where
  "NewManager opts =
     (if \<not> mn_WSEnabled opts \<and> \<not> mn_PullEnabled opts then Inl NoTransport
      else if mn_Dispatcher opts = None then Inl ManagerNeedsDispatcher
      else Inr \<lparr>mgr_opts = opts, mgr_wsHealthy = False\<rparr>)"

section \<open>Starting\<close>

text \<open>
  The goroutines that Run starts, in their order, up to its wait. When a client cannot be built, Run
  returns the error, and the goroutines started before it keep running.
\<close>

datatype task = DispatcherTask | WSTask WSClient | PullTask PullClient | HealthTask

definition manager_ws :: "ManagerOptions \<Rightarrow> WSClientOptions" where
  "manager_ws opts =
     (let ws = (mn_WS opts)\<lparr>wo_HealthEvents := Some ()\<rparr>
      in if wo_Dispatcher ws = None then ws\<lparr>wo_Dispatcher := mn_Dispatcher opts\<rparr> else ws)"

definition manager_pull :: "ManagerOptions \<Rightarrow> PullClientOptions" where
  "manager_pull opts =
     (let pull = mn_Pull opts in if po_Dispatcher pull = None then pull\<lparr>po_Dispatcher := mn_Dispatcher opts\<rparr> else pull)"

definition start_ws :: "Manager \<Rightarrow> world \<Rightarrow> (transport_error + task list) \<times> world" where
  "start_ws m w =
     (if mn_WSEnabled (mgr_opts m)
      then (case NewWSClient (manager_ws (mgr_opts m)) w of
              (Inl e, w) \<Rightarrow> (Inl e, w)
            | (Inr ws, w) \<Rightarrow> (Inr [WSTask ws], w))
      else (Inr [], w))"

definition start_pull :: "golib \<Rightarrow> (transport_error \<Rightarrow> string) \<Rightarrow> Manager \<Rightarrow> ResultDispatcher \<Rightarrow> (transport_error + task list) \<times> ResultDispatcher" where
  "start_pull L etext m d =
     (if mn_PullEnabled (mgr_opts m)
      then (case NewPullClient L etext (manager_pull (mgr_opts m)) d of
              Inl e \<Rightarrow> (Inl e, d)
            | Inr (pull, d) \<Rightarrow> (Inr [PullTask pull], d))
      else (Inr [], d))"

definition manager_start ::
  "golib \<Rightarrow> (transport_error \<Rightarrow> string) \<Rightarrow> Manager \<Rightarrow> ResultDispatcher \<times> world \<Rightarrow>
   transport_error option \<times> task list \<times> ResultDispatcher \<times> world" where
  "manager_start L etext m dw =
     (let (d, w) = dw
      in (case start_ws m w of
            (Inl e, w) \<Rightarrow> (Some e, [DispatcherTask], d, w)
          | (Inr ws, w) \<Rightarrow>
              (case start_pull L etext m d of
                 (Inl e, d) \<Rightarrow> (Some e, DispatcherTask # ws, d, w)
               | (Inr pull, d) \<Rightarrow> (None, DispatcherTask # ws @ pull @ [HealthTask], d, w))))"

definition shouldPoll :: "Manager \<Rightarrow> bool" where
  "shouldPoll m \<longleftrightarrow> \<not> mn_WSEnabled (mgr_opts m) \<or> \<not> mgr_wsHealthy m"

text \<open>The error channel has room for four; what does not fit is dropped.\<close>

definition reportManagerErr :: "'e \<Rightarrow> 'e list \<Rightarrow> 'e list" where
  "reportManagerErr err errs = (if length errs < 4 then errs @ [err] else errs)"

section \<open>Health\<close>

text \<open>
  The health channel between the WebSocket client and the manager has room for eight events. The last
  two fields record whether the client is past its handshake and whether an event was dropped.
\<close>

record health =
  hl_manager :: Manager
  hl_events :: "HealthState list"
  hl_connected :: bool
  hl_dropped :: bool

definition reportHealth :: "HealthState \<Rightarrow> health \<Rightarrow> health" where
  "reportHealth state s =
     (if length (hl_events s) < 8 then s\<lparr>hl_events := hl_events s @ [state]\<rparr> else s\<lparr>hl_dropped := True\<rparr>)"

definition health_receives :: "HealthState \<Rightarrow> health \<Rightarrow> health" where
  "health_receives event s =
     s\<lparr>hl_events := drop 1 (hl_events s), hl_manager := (hl_manager s)\<lparr>mgr_wsHealthy := (event = HealthConnected)\<rparr>\<rparr>"

text \<open>The client connects and disconnects, the manager's loop takes the events.\<close>

inductive health_step :: "health \<Rightarrow> health \<Rightarrow> bool" where
  connects: "\<not> hl_connected s \<Longrightarrow> health_step s ((reportHealth HealthConnected s)\<lparr>hl_connected := True\<rparr>)"
| disconnects: "hl_connected s \<Longrightarrow> health_step s ((reportHealth HealthDisconnected s)\<lparr>hl_connected := False\<rparr>)"
| receives: "hl_events s = event # rest \<Longrightarrow> health_step s (health_receives event s)"

inductive health_reachable :: "Manager \<Rightarrow> health \<Rightarrow> bool" for m where
  start: "health_reachable m \<lparr>hl_manager = m, hl_events = [], hl_connected = False, hl_dropped = False\<rparr>"
| step: "health_reachable m s \<Longrightarrow> health_step s t \<Longrightarrow> health_reachable m t"

text \<open>Taking all the events of the channel.\<close>

fun drain :: "nat \<Rightarrow> health \<Rightarrow> health" where
  "drain 0 s = s"
| "drain (Suc n) s = (case hl_events s of [] \<Rightarrow> s | event # rest \<Rightarrow> drain n (health_receives event s))"

text \<open>The newest of what the manager was told and is about to be told is the truth.\<close>

definition newest :: "health \<Rightarrow> bool" where
  "newest s = (if hl_events s = [] then mgr_wsHealthy (hl_manager s) else last (hl_events s) = HealthConnected)"

definition health_ok :: "Manager \<Rightarrow> health \<Rightarrow> bool" where
  "health_ok m s \<longleftrightarrow> mgr_opts (hl_manager s) = mgr_opts m \<and> length (hl_events s) \<le> 8 \<and>
     (\<not> hl_dropped s \<longrightarrow> newest s = hl_connected s)"

lemma newest_receives: "hl_events s = event # rest \<Longrightarrow> newest (health_receives event s) = newest s"
  by (simp add: newest_def health_receives_def)

lemma health_ok_step: "health_step s t \<Longrightarrow> health_ok m s \<Longrightarrow> health_ok m t"
proof (induction rule: health_step.induct)
  case (receives s event rest)
  then show ?case using newest_receives [OF receives(1)] by (auto simp: health_ok_def health_receives_def)
qed (auto simp: health_ok_def reportHealth_def newest_def)

lemma health_reachable_ok: "health_reachable m s \<Longrightarrow> mgr_wsHealthy m = False \<Longrightarrow> health_ok m s"
proof (induction rule: health_reachable.induct)
  case start
  then show ?case by (simp add: health_ok_def newest_def)
next
  case (step s t)
  then show ?case using health_ok_step by blast
qed

lemma drain_all:
  "length (hl_events s) \<le> n \<Longrightarrow>
   hl_events (drain n s) = [] \<and> mgr_wsHealthy (hl_manager (drain n s)) = newest s \<and>
   mgr_opts (hl_manager (drain n s)) = mgr_opts (hl_manager s)"
proof (induction n arbitrary: s)
  case 0
  then show ?case by (simp add: newest_def)
next
  case (Suc n)
  show ?case
  proof (cases "hl_events s")
    case Nil
    then show ?thesis by (simp add: newest_def)
  next
    case (Cons event rest)
    then show ?thesis
      using Suc.IH [of "health_receives event s"] Suc.prems newest_receives [OF Cons]
      by (simp add: health_receives_def)
  qed
qed

section \<open>Properties\<close>

text \<open>
  C36: as long as no health event was dropped, the manager's view catches up with the WebSocket client: once
  its loop has taken the events waiting in the channel, at most eight, the pull client polls exactly when
  the WebSocket transport is disabled or not connected. This holds for every order of connections,
  disconnections and deliveries.
\<close>

theorem health_follows_connection:
  assumes "NewManager opts = Inr m" and "health_reachable m s" and "\<not> hl_dropped s"
  shows "length (hl_events s) \<le> 8 \<and> hl_events (drain 8 s) = [] \<and>
    shouldPoll (hl_manager (drain 8 s)) = (\<not> mn_WSEnabled opts \<or> \<not> hl_connected s)"
proof -
  have m: "mgr_opts m = opts" "mgr_wsHealthy m = False" using assms(1) by (auto simp: NewManager_def split: if_splits)
  have ok: "health_ok m s" using assms(2) m(2) by (rule health_reachable_ok)
  then show ?thesis using drain_all [of s 8] assms(3) m(1) by (simp add: health_ok_def shouldPoll_def)
qed

text \<open>A manager whose WebSocket client has just connected.\<close>

definition sample_manager :: "WSClientOptions \<Rightarrow> PullClientOptions \<Rightarrow> Manager" where
  "sample_manager ws pull = \<lparr>mgr_opts = \<lparr>mn_WSEnabled = True, mn_PullEnabled = True, mn_WS = ws, mn_Pull = pull, mn_Dispatcher = Some ()\<rparr>,
     mgr_wsHealthy = False\<rparr>"

theorem health_follows_connection_witness:
  "\<forall>ws pull. \<not> shouldPoll (hl_manager (drain 8 \<lparr>hl_manager = sample_manager ws pull, hl_events = [HealthConnected], hl_connected = True,
     hl_dropped = False\<rparr>))"
proof (intro allI)
  fix ws pull
  let ?m = "sample_manager ws pull"
  let ?s = "\<lparr>hl_manager = ?m, hl_events = [HealthConnected], hl_connected = True, hl_dropped = False\<rparr>"
  have new: "NewManager (mgr_opts ?m) = Inr ?m" by (simp add: NewManager_def sample_manager_def)
  have "health_reachable ?m ?s"
    using health_reachable.step [OF health_reachable.start health_step.connects [of "\<lparr>hl_manager = ?m, hl_events = [], hl_connected = False, hl_dropped = False\<rparr>"]]
    by (simp add: reportHealth_def)
  then show "\<not> shouldPoll (hl_manager (drain 8 ?s))"
    using health_follows_connection [OF new, of ?s] by (simp add: sample_manager_def)
qed

end
