(* ===== verification/Config.thy ===== *)
theory Config
  imports Actions Samples
begin

text \<open>
  internal/config: the configuration file of the agent, its validation and its loading. The YAML decoder
  is a package of its own and a parameter here. The lemmas give the exact set of accepted configurations
  and the errors of loading; the template that the agent prints is one of them.
\<close>

section \<open>The configuration\<close>

definition DefaultPath :: string where "DefaultPath = ''/etc/mgate-agent/agent.yaml''"

record CloudConfig =
  cc_BaseURL :: string
  cc_WSPath :: string
  cc_PullPath :: string
  cc_ResultPath :: string
  cc_StatusPath :: string
  cc_RequestTimeoutSec :: int
  cc_PullIntervalSec :: int
  cc_WSEnabled :: bool
  cc_PullEnabled :: bool

record AgentConfig =
  ac_DeviceName :: string
  ac_MGatePath :: string
  ac_WorkDir :: string
  ac_HeartbeatIntervalSec :: int
  ac_StatusIntervalSec :: int
  ac_DefaultCommandTimeoutSec :: int
  ac_LongCommandTimeoutSec :: int
  ac_MaxParallelJobs :: int
  ac_MaxOutputBytes :: int

record SecurityConfig =
  sc_CredentialsFile :: string
  sc_AllowActions :: "string list"
  sc_ClockSkewSec :: int
  sc_StrictWhitelist :: bool

record LoggingConfig =
  lc_Level :: string
  lc_AuditFile :: string

record Config =
  cfg_Cloud :: CloudConfig
  cfg_Agent :: AgentConfig
  cfg_Security :: SecurityConfig
  cfg_Logging :: LoggingConfig

definition zero_CloudConfig :: CloudConfig where
  "zero_CloudConfig = \<lparr>cc_BaseURL = [], cc_WSPath = [], cc_PullPath = [], cc_ResultPath = [], cc_StatusPath = [],
     cc_RequestTimeoutSec = 0, cc_PullIntervalSec = 0, cc_WSEnabled = False, cc_PullEnabled = False\<rparr>"

definition zero_AgentConfig :: AgentConfig where
  "zero_AgentConfig = \<lparr>ac_DeviceName = [], ac_MGatePath = [], ac_WorkDir = [], ac_HeartbeatIntervalSec = 0,
     ac_StatusIntervalSec = 0, ac_DefaultCommandTimeoutSec = 0, ac_LongCommandTimeoutSec = 0, ac_MaxParallelJobs = 0,
     ac_MaxOutputBytes = 0\<rparr>"

definition zero_LoggingConfig :: LoggingConfig where
  "zero_LoggingConfig = \<lparr>lc_Level = [], lc_AuditFile = []\<rparr>"

text \<open>The values that the template DefaultConfigYAML assigns, in its order.\<close>

definition DefaultConfig :: Config where
  "DefaultConfig = \<lparr>
     cfg_Cloud = \<lparr>cc_BaseURL = ''https://mgate.example.com'', cc_WSPath = ''/api/agent/v1/ws'',
       cc_PullPath = ''/api/agent/v1/pull'', cc_ResultPath = ''/api/agent/v1/result'',
       cc_StatusPath = ''/api/agent/v1/status'', cc_RequestTimeoutSec = 15, cc_PullIntervalSec = 10,
       cc_WSEnabled = True, cc_PullEnabled = True\<rparr>,
     cfg_Agent = \<lparr>ac_DeviceName = ''ufi-001'', ac_MGatePath = ''/usr/local/bin/mgate.sh'',
       ac_WorkDir = ''/var/lib/mgate-agent'', ac_HeartbeatIntervalSec = 30, ac_StatusIntervalSec = 120,
       ac_DefaultCommandTimeoutSec = 30, ac_LongCommandTimeoutSec = 180, ac_MaxParallelJobs = 1,
       ac_MaxOutputBytes = 32768\<rparr>,
     cfg_Security = \<lparr>sc_CredentialsFile = ''/var/lib/mgate-agent/credentials.json'',
       sc_AllowActions = [''status.snapshot'', ''gateway.status'', ''gateway.start'', ''gateway.stop'', ''wlan.scan'',
         ''wlan.switch.safe''],
       sc_ClockSkewSec = 300, sc_StrictWhitelist = True\<rparr>,
     cfg_Logging = \<lparr>lc_Level = ''info'', lc_AuditFile = ''/var/log/mgate-agent/audit.jsonl''\<rparr>\<rparr>"

text \<open>
  The errors, each a message of the source. A path without its slash is one error: the source ranges over
  a map there, so which of several such paths the message names is not determined.
\<close>

datatype config_error =
    ConfigNil
  | URLInvalid string
  | URLScheme string
  | URLHost string
  | PathNotRooted
  | OutOfRange string int int
  | DeviceNameRequired
  | NotAbsolute string
  | LongBelowDefault
  | AllowActionsEmpty
  | EmptyAction
  | DuplicateAction string
  | LevelUnknown
  | InvalidYAML
  | ConfigEmpty
  | InvalidConfig config_error
  | OpenConfig string os_error
  | DecodeConfig string config_error

section \<open>Validation\<close>

definition filepath_IsAbs :: "string \<Rightarrow> bool" where
  "filepath_IsAbs path \<longleftrightarrow> HasPrefix path ''/''"

definition isAbsolutePath :: "string \<Rightarrow> bool" where
  "isAbsolutePath path \<longleftrightarrow> (if TrimSpace path = [] then False else HasPrefix path ''/'' \<or> filepath_IsAbs path)"

definition validateURL :: "golib \<Rightarrow> string \<Rightarrow> string \<Rightarrow> config_error option" where
  "validateURL L name raw =
     (case lib_url_parse L raw of
        None \<Rightarrow> Some (URLInvalid name)
      | Some u \<Rightarrow>
          if url_Scheme u \<noteq> ''http'' \<and> url_Scheme u \<noteq> ''https'' then Some (URLScheme name)
          else if url_Host u = [] then Some (URLHost name)
          else None)"

definition validateRange :: "string \<Rightarrow> int \<Rightarrow> int \<Rightarrow> int \<Rightarrow> config_error option" where
  "validateRange name value lo hi = (if value < lo \<or> value > hi then Some (OutOfRange name lo hi) else None)"

text \<open>The first check that fails decides.\<close>

fun first_error :: "config_error option list \<Rightarrow> config_error option" where
  "first_error [] = None"
| "first_error (Some e # es) = Some e"
| "first_error (None # es) = first_error es"

definition validateCloud :: "golib \<Rightarrow> CloudConfig \<Rightarrow> config_error option" where
  "validateCloud L c = first_error
     [validateURL L ''cloud.base_url'' (cc_BaseURL c),
      (if list_all (\<lambda>value. HasPrefix value ''/'') [cc_WSPath c, cc_PullPath c, cc_ResultPath c, cc_StatusPath c]
       then None else Some PathNotRooted),
      validateRange ''cloud.request_timeout_sec'' (cc_RequestTimeoutSec c) 1 300,
      validateRange ''cloud.pull_interval_sec'' (cc_PullIntervalSec c) 1 3600]"

definition validateAgent :: "AgentConfig \<Rightarrow> config_error option" where
  "validateAgent c = first_error
     [(if TrimSpace (ac_DeviceName c) = [] then Some DeviceNameRequired else None),
      (if isAbsolutePath (ac_MGatePath c) then None else Some (NotAbsolute ''agent.mgate_path'')),
      (if isAbsolutePath (ac_WorkDir c) then None else Some (NotAbsolute ''agent.work_dir'')),
      validateRange ''agent.heartbeat_interval_sec'' (ac_HeartbeatIntervalSec c) 5 3600,
      validateRange ''agent.status_interval_sec'' (ac_StatusIntervalSec c) 10 86400,
      validateRange ''agent.default_command_timeout_sec'' (ac_DefaultCommandTimeoutSec c) 1 600,
      validateRange ''agent.long_command_timeout_sec'' (ac_LongCommandTimeoutSec c) 1 3600,
      (if ac_LongCommandTimeoutSec c < ac_DefaultCommandTimeoutSec c then Some LongBelowDefault else None),
      validateRange ''agent.max_parallel_jobs'' (ac_MaxParallelJobs c) 1 16,
      validateRange ''agent.max_output_bytes'' (ac_MaxOutputBytes c) 1024 (1024 * 1024)]"

text \<open>The loop over the allowed actions, with the set of those seen.\<close>

fun check_actions :: "string set \<Rightarrow> string list \<Rightarrow> config_error option" where
  "check_actions seen [] = None"
| "check_actions seen (action # actions) =
     (if TrimSpace action = [] then Some EmptyAction
      else if action \<in> seen then Some (DuplicateAction action)
      else check_actions (insert action seen) actions)"

definition validateSecurity :: "SecurityConfig \<Rightarrow> config_error option" where
  "validateSecurity c = first_error
     [(if isAbsolutePath (sc_CredentialsFile c) then None else Some (NotAbsolute ''security.credentials_file'')),
      (if sc_AllowActions c = [] then Some AllowActionsEmpty else None),
      check_actions {} (sc_AllowActions c),
      validateRange ''security.clock_skew_sec'' (sc_ClockSkewSec c) 0 3600]"

definition validateLogging :: "LoggingConfig \<Rightarrow> config_error option" where
  "validateLogging c =
     (if lc_Level c \<in> {''debug'', ''info'', ''warn'', ''error''}
      then (if isAbsolutePath (lc_AuditFile c) then None else Some (NotAbsolute ''logging.audit_file''))
      else Some LevelUnknown)"

definition config_Validate :: "golib \<Rightarrow> Config option \<Rightarrow> config_error option" where
  "config_Validate L c =
     (case c of
        None \<Rightarrow> Some ConfigNil
      | Some c \<Rightarrow> first_error
          [validateCloud L (cfg_Cloud c), validateAgent (cfg_Agent c), validateSecurity (cfg_Security c),
           validateLogging (cfg_Logging c)])"

definition isZeroConfig :: "Config \<Rightarrow> bool" where
  "isZeroConfig cfg \<longleftrightarrow>
     cfg_Cloud cfg = zero_CloudConfig \<and> cfg_Agent cfg = zero_AgentConfig \<and>
     sc_CredentialsFile (cfg_Security cfg) = [] \<and> length (sc_AllowActions (cfg_Security cfg)) = 0 \<and>
     sc_ClockSkewSec (cfg_Security cfg) = 0 \<and> \<not> sc_StrictWhitelist (cfg_Security cfg) \<and>
     cfg_Logging cfg = zero_LoggingConfig"

section \<open>Loading\<close>

text \<open>
  The YAML decoder takes what its reader gives, after being told whether a field it does not know is an
  error; at the end of an empty stream it says so.
\<close>

datatype yaml_error = YamlEOF | YamlError

type_synonym yaml_decoder = "bool \<Rightarrow> os_error + string \<Rightarrow> yaml_error + Config"

definition DecodeYAML :: "golib \<Rightarrow> yaml_decoder \<Rightarrow> os_error + string \<Rightarrow> config_error + Config" where
  "DecodeYAML L yaml r =
     (case yaml True r of
        Inl YamlEOF \<Rightarrow> Inl ConfigEmpty
      | Inl YamlError \<Rightarrow> Inl InvalidYAML
      | Inr cfg \<Rightarrow>
          if isZeroConfig cfg then Inl ConfigEmpty
          else (case config_Validate L (Some cfg) of
                  Some e \<Rightarrow> Inl (InvalidConfig e)
                | None \<Rightarrow> Inr cfg))"

text \<open>os.Open opens directories too; reading one fails.\<close>

definition os_Open :: "path \<Rightarrow> world \<Rightarrow> os_error option \<times> world" where
  "os_Open p w =
     (let (f, w) = sys_call w
      in (case f of
            Some _ \<Rightarrow> (Some ErrIO, w)
          | None \<Rightarrow> ((case map_of (w_fs w) p of None \<Rightarrow> Some ErrNotExist | Some n \<Rightarrow> None), w)))"

definition config_Load :: "golib \<Rightarrow> yaml_decoder \<Rightarrow> string \<Rightarrow> world \<Rightarrow> (config_error + Config) \<times> world" where
  "config_Load L yaml path w =
     (let path = (if path = [] then DefaultPath else path)
      in (case os_Open (clean_path path) w of
            (Some e, w) \<Rightarrow> (Inl (OpenConfig path e), w)
          | (None, w) \<Rightarrow>
              (let (content, w) = os_ReadFile (clean_path path) w; (_, w) = sys_unit w
               in ((case DecodeYAML L yaml content of
                      Inl e \<Rightarrow> Inl (DecodeConfig path e)
                    | Inr cfg \<Rightarrow> Inr cfg), w))))"

section \<open>What validation accepts\<close>

lemma trim_seqs_keeps:
  assumes "s \<noteq> []" and "\<forall>q\<in>set qs. last s \<notin> set q"
  shows "trim_seqs qs s \<noteq> []"
  using assms
proof (induction qs s rule: trim_seqs.induct)
  case (1 qs s)
  show ?case
  proof (cases "find (\<lambda>q. q \<noteq> [] \<and> prefix q s) qs")
    case None
    then show ?thesis using 1(2) by (simp add: trim_seqs.simps)
  next
    case (Some q)
    then have q: "q \<in> set qs" "prefix q s" by (auto simp: find_Some_iff)
    then obtain r where r: "s = q @ r" by (auto simp: prefix_def)
    have "r \<noteq> []" using r 1(2,3) q(1) by (cases r) auto
    then have "trim_seqs qs r \<noteq> []" using 1(1) [OF Some] 1(3) r by simp
    then show ?thesis using Some r by (subst trim_seqs.simps) simp
  qed
qed

lemma TrimSpace_starts: "\<forall>q\<in>set space_seqs. c \<notin> set q \<Longrightarrow> TrimSpace (c # s) \<noteq> []"
proof -
  assume c: "\<forall>q\<in>set space_seqs. c \<notin> set q"
  then have "find (\<lambda>q. q \<noteq> [] \<and> prefix q (c # s)) space_seqs = None"
    by (auto simp: find_None_iff prefix_Cons)
  then have "trim_seqs space_seqs (c # s) = c # s" by (subst trim_seqs.simps) simp
  moreover have "trim_seqs (map rev space_seqs) (rev (c # s)) \<noteq> []"
    by (rule trim_seqs_keeps) (use c in auto)
  ultimately show ?thesis by (simp add: TrimSpace_def)
qed

lemma TrimSpace_rooted: "HasPrefix path ''/'' \<Longrightarrow> TrimSpace path \<noteq> []"
  using TrimSpace_starts [of "CHR ''/''"] by (auto simp: prefix_def space_seqs_def)

lemma isAbsolutePath_iff: "isAbsolutePath path \<longleftrightarrow> HasPrefix path ''/''"
  using TrimSpace_rooted by (auto simp: isAbsolutePath_def filepath_IsAbs_def)

lemma first_error_None [simp]: "first_error (x # xs) = None \<longleftrightarrow> x = None \<and> first_error xs = None"
  by (cases x) auto

lemma validateRange_None: "validateRange name value lo hi = None \<longleftrightarrow> value \<in> {lo..hi}"
  by (auto simp: validateRange_def)

lemma check_actions_None:
  "check_actions seen as = None \<longleftrightarrow> distinct as \<and> set as \<inter> seen = {} \<and> (\<forall>a\<in>set as. TrimSpace a \<noteq> [])"
  by (induction as arbitrary: seen) auto

definition good_url :: "golib \<Rightarrow> string \<Rightarrow> bool" where
  "good_url L raw \<longleftrightarrow> (\<exists>u. lib_url_parse L raw = Some u \<and> url_Scheme u \<in> {''http'', ''https''} \<and> url_Host u \<noteq> [])"

lemma validateURL_None: "validateURL L name raw = None \<longleftrightarrow> good_url L raw"
  by (auto simp: validateURL_def good_url_def split: option.split)

text \<open>A configuration the agent can run with, in one formula.\<close>

definition config_ok :: "golib \<Rightarrow> Config \<Rightarrow> bool" where
  "config_ok L c \<longleftrightarrow>
     (let cl = cfg_Cloud c; a = cfg_Agent c; s = cfg_Security c; l = cfg_Logging c
      in good_url L (cc_BaseURL cl) \<and>
         (\<forall>p\<in>{cc_WSPath cl, cc_PullPath cl, cc_ResultPath cl, cc_StatusPath cl, ac_MGatePath a, ac_WorkDir a,
               sc_CredentialsFile s, lc_AuditFile l}. HasPrefix p ''/'') \<and>
         TrimSpace (ac_DeviceName a) \<noteq> [] \<and>
         cc_RequestTimeoutSec cl \<in> {1..300} \<and> cc_PullIntervalSec cl \<in> {1..3600} \<and>
         ac_HeartbeatIntervalSec a \<in> {5..3600} \<and> ac_StatusIntervalSec a \<in> {10..86400} \<and>
         ac_DefaultCommandTimeoutSec a \<in> {1..600} \<and>
         ac_LongCommandTimeoutSec a \<in> {ac_DefaultCommandTimeoutSec a..3600} \<and>
         ac_MaxParallelJobs a \<in> {1..16} \<and> ac_MaxOutputBytes a \<in> {1024..1048576} \<and>
         sc_AllowActions s \<noteq> [] \<and> distinct (sc_AllowActions s) \<and> (\<forall>x\<in>set (sc_AllowActions s). TrimSpace x \<noteq> []) \<and>
         sc_ClockSkewSec s \<in> {0..3600} \<and> lc_Level l \<in> {''debug'', ''info'', ''warn'', ''error''})"

lemma validateCloud_None:
  "validateCloud L c = None \<longleftrightarrow> good_url L (cc_BaseURL c) \<and>
     (\<forall>p\<in>{cc_WSPath c, cc_PullPath c, cc_ResultPath c, cc_StatusPath c}. HasPrefix p ''/'') \<and>
     cc_RequestTimeoutSec c \<in> {1..300} \<and> cc_PullIntervalSec c \<in> {1..3600}"
  by (auto simp: validateCloud_def validateURL_None validateRange_None)

lemma validateAgent_None:
  "validateAgent c = None \<longleftrightarrow> TrimSpace (ac_DeviceName c) \<noteq> [] \<and> HasPrefix (ac_MGatePath c) ''/'' \<and>
     HasPrefix (ac_WorkDir c) ''/'' \<and> ac_HeartbeatIntervalSec c \<in> {5..3600} \<and> ac_StatusIntervalSec c \<in> {10..86400} \<and>
     ac_DefaultCommandTimeoutSec c \<in> {1..600} \<and> ac_LongCommandTimeoutSec c \<in> {ac_DefaultCommandTimeoutSec c..3600} \<and>
     ac_MaxParallelJobs c \<in> {1..16} \<and> ac_MaxOutputBytes c \<in> {1024..1048576}"
  by (simp add: validateAgent_def validateRange_None isAbsolutePath_iff) linarith

lemma validateSecurity_None:
  "validateSecurity c = None \<longleftrightarrow> HasPrefix (sc_CredentialsFile c) ''/'' \<and> sc_AllowActions c \<noteq> [] \<and>
     distinct (sc_AllowActions c) \<and> (\<forall>x\<in>set (sc_AllowActions c). TrimSpace x \<noteq> []) \<and> sc_ClockSkewSec c \<in> {0..3600}"
  by (simp add: validateSecurity_def validateRange_None isAbsolutePath_iff check_actions_None)

lemma validateLogging_None:
  "validateLogging c = None \<longleftrightarrow> lc_Level c \<in> {''debug'', ''info'', ''warn'', ''error''} \<and> HasPrefix (lc_AuditFile c) ''/''"
  unfolding validateLogging_def isAbsolutePath_iff by (simp split: if_split)

lemma config_Validate_None: "config_Validate L (Some c) = None \<longleftrightarrow> config_ok L c"
  unfolding config_Validate_def config_ok_def Let_def option.case
    first_error_None validateCloud_None validateAgent_None validateSecurity_None validateLogging_None
  by (simp only: ball_simps first_error.simps simp_thms conj_assoc Set.ball_simps) blast

lemma config_ok_not_zero: "config_ok L c \<Longrightarrow> \<not> isZeroConfig c"
  by (auto simp: config_ok_def isZeroConfig_def Let_def)

lemma DecodeYAML_Inr: "DecodeYAML L yaml r = Inr cfg \<longleftrightarrow> yaml True r = Inr cfg \<and> config_ok L cfg"
  using config_ok_not_zero [of L]
  by (auto simp: DecodeYAML_def config_Validate_None [symmetric] split: sum.split yaml_error.split option.split)

lemma os_Open_frame [frame_simps]: "w_fs (snd (os_Open p w)) = w_fs w" "w_fault (snd (os_Open p w)) = w_fault w"
  "w_execs (snd (os_Open p w)) = w_execs w" "w_audit (snd (os_Open p w)) = w_audit w"
  "w_requests (snd (os_Open p w)) = w_requests w" "w_http (snd (os_Open p w)) = w_http w"
  by (simp_all add: os_Open_def sys_call_def Let_def split: option.split)

lemma config_Load_frame [frame_simps]: "w_fs (snd (config_Load L yaml path w)) = w_fs w"
  "w_fault (snd (config_Load L yaml path w)) = w_fault w" "w_execs (snd (config_Load L yaml path w)) = w_execs w"
  "w_audit (snd (config_Load L yaml path w)) = w_audit w" "w_requests (snd (config_Load L yaml path w)) = w_requests w"
  "w_http (snd (config_Load L yaml path w)) = w_http w"
  by (simp_all add: config_Load_def os_Open_def os_ReadFile_def sys_unit_def sys_call_def Let_def
      split: option.split sum.split node.split)

definition config_file :: "string \<Rightarrow> path" where
  "config_file path = clean_path (if path = [] then DefaultPath else path)"

lemma config_Load_Inr:
  "fst (config_Load L yaml path w) = Inr cfg \<longleftrightarrow>
     fst (os_Open (config_file path) w) = None \<and>
     yaml True (fst (os_ReadFile (config_file path) (snd (os_Open (config_file path) w)))) = Inr cfg \<and> config_ok L cfg"
proof -
  have "fst (config_Load L yaml path w) = Inr cfg \<longleftrightarrow>
      fst (os_Open (config_file path) w) = None \<and>
      DecodeYAML L yaml (fst (os_ReadFile (config_file path) (snd (os_Open (config_file path) w)))) = Inr cfg"
    by (simp add: config_Load_def config_file_def Let_def split: option.split prod.split sum.split)
  then show ?thesis by (simp add: DecodeYAML_Inr)
qed

lemma default_config_built:
  assumes "lib_url_parse L ''https://mgate.example.com'' = Some u" "url_Scheme u = ''https''" "url_Host u \<noteq> []"
  shows "(yaml True r = Inr DefaultConfig \<longrightarrow> DecodeYAML L yaml r = Inr DefaultConfig) \<and>
    NewDefaultRegistry = Inr default_registry \<and>
    ValidateAllowedActions (Some default_registry) (sc_AllowActions (cfg_Security DefaultConfig)) = None"
proof -
  have "good_url L ''https://mgate.example.com''" using assms by (auto simp: good_url_def)
  moreover have "TrimSpace ''ufi-001'' \<noteq> []" by (rule TrimSpace_starts) (simp add: space_seqs_def)
  moreover have "\<forall>x\<in>set (sc_AllowActions (cfg_Security DefaultConfig)). TrimSpace x \<noteq> []"
    by (simp add: DefaultConfig_def TrimSpace_starts space_seqs_def)
  ultimately have "config_ok L DefaultConfig" by (simp add: config_ok_def DefaultConfig_def Let_def)
  then have "yaml True r = Inr DefaultConfig \<longrightarrow> DecodeYAML L yaml r = Inr DefaultConfig" by (simp add: DecodeYAML_Inr)
  moreover have "ValidateAllowedActions (Some default_registry) (sc_AllowActions (cfg_Security DefaultConfig)) = None"
    by (simp add: ValidateAllowedActions_def find_None_iff DefaultConfig_def Registry_Get_def default_registry_eq DefaultSpecs_def)
  ultimately show ?thesis using default_registry_built by simp
qed

section \<open>Properties\<close>

text \<open>
  C38: loading succeeds with a configuration exactly when the file (the default one for an empty path) can
  be opened, the strict YAML decoder reads that configuration from it, and it meets every requirement of
  the validation: an http or https base URL with a host, rooted paths, intervals, timeouts, parallelism and
  output size in their ranges, and a list of allowed actions without blanks and repetitions. Loading changes
  no file, starts no process and sends no request.
\<close>

theorem config_load_exact:
  "(fst (config_Load L yaml path w) = Inr cfg \<longleftrightarrow>
      fst (os_Open (config_file path) w) = None \<and>
      yaml True (fst (os_ReadFile (config_file path) (snd (os_Open (config_file path) w)))) = Inr cfg \<and>
      config_ok L cfg) \<and>
   w_fs (snd (config_Load L yaml path w)) = w_fs w \<and> w_execs (snd (config_Load L yaml path w)) = w_execs w \<and>
   w_requests (snd (config_Load L yaml path w)) = w_requests w"
  using config_Load_Inr [of L yaml path w cfg] by (simp add: frame_simps)

text \<open>
  The values of the template that the agent prints are a configuration it loads, whatever the file
  that holds them, and every action the template allows is one of the built-in actions.
\<close>

theorem default_config_accepted:
  assumes "lib_url_parse L ''https://mgate.example.com'' = Some u" "url_Scheme u = ''https''" "url_Host u \<noteq> []"
  shows "(yaml True r = Inr DefaultConfig \<longrightarrow> DecodeYAML L yaml r = Inr DefaultConfig) \<and>
    NewDefaultRegistry = Inr default_registry \<and>
    ValidateAllowedActions (Some default_registry) (sc_AllowActions (cfg_Security DefaultConfig)) = None"
  using default_config_built [OF assms] .

theorem default_config_accepted_witness:
  "DecodeYAML sample_lib (\<lambda>known r. Inr DefaultConfig) (Inr []) = Inr DefaultConfig \<and>
   ValidateAllowedActions (Some default_registry) (sc_AllowActions (cfg_Security DefaultConfig)) = None"
  using default_config_accepted [where L = sample_lib and yaml = "\<lambda>known r. Inr DefaultConfig" and r = "Inr []"]
  by (simp add: sample_lib_def sample_url_parse_def)

end
