(* ===== verification/Identity.thy ===== *)
theory Identity
  imports Config
begin

text \<open>
  internal/identity/credentials.go: the credentials file of the device. The lemmas give the exact
  conditions under which it is accepted, the permission bits among them.
\<close>

section \<open>Credentials\<close>

record Credentials =
  cr_DeviceID :: string
  cr_TenantID :: string
  cr_DeviceSecret :: string
  cr_SecretVersion :: int
  cr_EnrolledAt :: time
  cr_CloudBaseURL :: string

definition zero_Credentials :: Credentials where
  "zero_Credentials = \<lparr>cr_DeviceID = [], cr_TenantID = [], cr_DeviceSecret = [], cr_SecretVersion = 0, cr_EnrolledAt = 0,
     cr_CloudBaseURL = []\<rparr>"

text \<open>The decoder is told to refuse a member without a field.\<close>

definition set_Credentials :: "golib \<Rightarrow> Credentials setter" where
  "set_Credentials L k j c =
     (if k = ''device_id'' then dec_string j (\<lambda>s. c\<lparr>cr_DeviceID := s\<rparr>) c
      else if k = ''tenant_id'' then dec_string j (\<lambda>s. c\<lparr>cr_TenantID := s\<rparr>) c
      else if k = ''device_secret'' then dec_string j (\<lambda>s. c\<lparr>cr_DeviceSecret := s\<rparr>) c
      else if k = ''secret_version'' then dec_int j (\<lambda>i. c\<lparr>cr_SecretVersion := i\<rparr>) c
      else if k = ''enrolled_at'' then dec_time L j (\<lambda>t. c\<lparr>cr_EnrolledAt := t\<rparr>) c
      else if k = ''cloud_base_url'' then dec_string j (\<lambda>s. c\<lparr>cr_CloudBaseURL := s\<rparr>) c
      else None)"

definition decode_Credentials :: "golib \<Rightarrow> string \<Rightarrow> Credentials option" where
  "decode_Credentials L data =
     (case lib_decode L data of
        None \<Rightarrow> None
      | Some (doc, rest) \<Rightarrow> dec_struct (set_Credentials L) doc zero_Credentials)"

datatype credentials_error =
    StatCredentials os_error
  | CredentialsMode nat
  | ReadCredentials os_error
  | DecodeCredentials
  | CredentialsNil
  | DeviceIDRequired
  | TenantIDRequired
  | DeviceSecretRequired
  | SecretVersionPositive
  | EnrolledAtRequired
  | CloudBaseURLInvalid

text \<open>The mode 0600, in octal, is 384.\<close>

definition validateFileMode :: "nat \<Rightarrow> string \<Rightarrow> credentials_error option" where
  "validateFileMode mode goos =
     (if goos \<noteq> ''linux'' then None
      else if mode \<noteq> 384 then Some (CredentialsMode mode)
      else None)"

definition credentials_Validate :: "golib \<Rightarrow> Credentials option \<Rightarrow> credentials_error option" where
  "credentials_Validate L c =
     (case c of
        None \<Rightarrow> Some CredentialsNil
      | Some c \<Rightarrow>
          if TrimSpace (cr_DeviceID c) = [] then Some DeviceIDRequired
          else if TrimSpace (cr_TenantID c) = [] then Some TenantIDRequired
          else if TrimSpace (cr_DeviceSecret c) = [] then Some DeviceSecretRequired
          else if cr_SecretVersion c \<le> 0 then Some SecretVersionPositive
          else if time_IsZero (cr_EnrolledAt c) then Some EnrolledAtRequired
          else if cr_CloudBaseURL c \<noteq> [] then
            (case lib_url_parse L (cr_CloudBaseURL c) of
               None \<Rightarrow> Some CloudBaseURLInvalid
             | Some u \<Rightarrow>
                 if (url_Scheme u \<noteq> ''http'' \<and> url_Scheme u \<noteq> ''https'') \<or> url_Host u = []
                 then Some CloudBaseURLInvalid else None)
          else None)"

text \<open>The permission bits of a node; directories stand with 0755, as the agent makes them.\<close>

fun node_Perm :: "node \<Rightarrow> nat" where
  "node_Perm FDir = 493"
| "node_Perm (FFile mode content) = mode"

definition identity_Load :: "golib \<Rightarrow> string \<Rightarrow> string \<Rightarrow> world \<Rightarrow> (credentials_error + Credentials) \<times> world" where
  "identity_Load L goos path w =
     (case os_Stat (clean_path path) w of
        (Inl e, w) \<Rightarrow> (Inl (StatCredentials e), w)
      | (Inr info, w) \<Rightarrow>
          (case validateFileMode (node_Perm info) goos of
             Some e \<Rightarrow> (Inl e, w)
           | None \<Rightarrow>
               (case os_ReadFile (clean_path path) w of
                  (Inl e, w) \<Rightarrow> (Inl (ReadCredentials e), w)
                | (Inr data, w) \<Rightarrow>
                    ((case decode_Credentials L data of
                        None \<Rightarrow> Inl DecodeCredentials
                      | Some cred \<Rightarrow>
                          (case credentials_Validate L (Some cred) of
                             Some e \<Rightarrow> Inl e
                           | None \<Rightarrow> Inr cred)), w))))"

section \<open>What is accepted\<close>

definition credentials_ok :: "golib \<Rightarrow> Credentials \<Rightarrow> bool" where
  "credentials_ok L c \<longleftrightarrow>
     (\<forall>s\<in>{cr_DeviceID c, cr_TenantID c, cr_DeviceSecret c}. TrimSpace s \<noteq> []) \<and> 0 < cr_SecretVersion c \<and>
     \<not> time_IsZero (cr_EnrolledAt c) \<and> (cr_CloudBaseURL c = [] \<or> good_url L (cr_CloudBaseURL c))"

lemma credentials_Validate_None: "credentials_Validate L (Some c) = None \<longleftrightarrow> credentials_ok L c"
  by (auto simp: credentials_Validate_def credentials_ok_def good_url_def split: option.splits if_splits)

definition credentials_names :: "string set" where
  "credentials_names = {''device_id'', ''tenant_id'', ''device_secret'', ''secret_version'', ''enrolled_at'', ''cloud_base_url''}"

lemma dec_fields_names:
  "dec_fields (set_Credentials L) kvs c = Some c' \<Longrightarrow> fold_name ` fst ` set kvs \<subseteq> credentials_names"
proof (induction kvs arbitrary: c)
  case (Cons kv kvs)
  obtain k j where kv: "kv = (k, j)" by fastforce
  with Cons.prems obtain c1 where c1: "set_Credentials L (fold_name k) j c = Some c1" "dec_fields (set_Credentials L) kvs c1 = Some c'"
    by (auto split: option.splits)
  then have "fold_name k \<in> credentials_names" by (auto simp: set_Credentials_def credentials_names_def split: if_splits)
  with Cons.IH [OF c1(2)] show ?case by (simp add: kv)
qed simp

lemma identity_Load_frame [frame_simps]: "w_fs (snd (identity_Load L goos path w)) = w_fs w"
  "w_fault (snd (identity_Load L goos path w)) = w_fault w" "w_execs (snd (identity_Load L goos path w)) = w_execs w"
  "w_audit (snd (identity_Load L goos path w)) = w_audit w" "w_requests (snd (identity_Load L goos path w)) = w_requests w"
  "w_http (snd (identity_Load L goos path w)) = w_http w"
  by (simp_all add: identity_Load_def os_Stat_def os_ReadFile_def sys_call_def Let_def
      split: option.split sum.split node.split)

lemma identity_Load_Inr:
  "fst (identity_Load L goos path w) = Inr cred \<longleftrightarrow>
     w_fault w (w_calls w) = None \<and> w_fault w (Suc (w_calls w)) = None \<and>
     (\<exists>mode content. map_of (w_fs w) (clean_path path) = Some (FFile mode content) \<and> (goos = ''linux'' \<longrightarrow> mode = 384) \<and>
        decode_Credentials L content = Some cred) \<and>
     credentials_ok L cred"
  unfolding identity_Load_def os_Stat_def os_ReadFile_def sys_call_def Let_def validateFileMode_def
    credentials_Validate_None [symmetric]
  by (auto split: option.splits sum.splits node.splits if_splits)

section \<open>Properties\<close>

text \<open>
  C39: the credentials are accepted exactly when both system calls succeed on a regular file whose mode on
  Linux is 0600, the file decodes, device id, tenant id and secret are not blank, the version is positive,
  the enrolment time is set and the base URL is empty or an http or https URL with a host; no member of
  the accepted document has a name outside the six fields, and the file system is left as it was.
\<close>

theorem credentials_load_exact:
  "(fst (identity_Load L goos path w) = Inr cred \<longleftrightarrow>
      w_fault w (w_calls w) = None \<and> w_fault w (Suc (w_calls w)) = None \<and>
      (\<exists>mode content. map_of (w_fs w) (clean_path path) = Some (FFile mode content) \<and> (goos = ''linux'' \<longrightarrow> mode = 384) \<and>
         decode_Credentials L content = Some cred) \<and>
      credentials_ok L cred) \<and>
   (lib_decode L data = Some (JObj kvs, rest) \<and> decode_Credentials L data = Some cred \<longrightarrow>
      (\<forall>k\<in>fst ` set kvs. fold_name k \<in> credentials_names)) \<and>
   w_fs (snd (identity_Load L goos path w)) = w_fs w"
proof -
  have "lib_decode L data = Some (JObj kvs, rest) \<and> decode_Credentials L data = Some cred \<longrightarrow>
      (\<forall>k\<in>fst ` set kvs. fold_name k \<in> credentials_names)"
    using dec_fields_names [of L kvs zero_Credentials cred] by (force simp: decode_Credentials_def dec_struct_def)
  then show ?thesis using identity_Load_Inr [of L goos path w cred] by (simp add: frame_simps)
qed

text \<open>A file that is accepted.\<close>

definition sample_credentials :: Credentials where
  "sample_credentials = \<lparr>cr_DeviceID = ''dev'', cr_TenantID = ''ten'', cr_DeviceSecret = ''s3'', cr_SecretVersion = 1,
     cr_EnrolledAt = 5, cr_CloudBaseURL = []\<rparr>"

definition credentials_doc :: "(string \<times> json) list" where
  "credentials_doc = [(''device_id'', JStr ''dev''), (''tenant_id'', JStr ''ten''), (''device_secret'', JStr ''s3''),
     (''secret_version'', JNum ''1''), (''enrolled_at'', JStr ''5'')]"

definition credentials_world :: world where
  "credentials_world = sample_world\<lparr>w_fs := [((True, [''cred'']), FFile 384 (enc_json (JObj credentials_doc)))]\<rparr>"

lemma fold_credentials_names [simp]: "fold_name ''tenant_id'' = ''tenant_id''" "fold_name ''device_secret'' = ''device_secret''"
  "fold_name ''secret_version'' = ''secret_version''" "fold_name ''enrolled_at'' = ''enrolled_at''"
  "fold_name ''device_id'' = ''device_id''"
  by (code_simp+)

lemma decode_sample_credentials: "lib_decode sample_lib (enc_json (JObj credentials_doc)) = Some (JObj credentials_doc, [])"
  "decode_Credentials sample_lib (enc_json (JObj credentials_doc)) = Some sample_credentials"
proof -
  show d: "lib_decode sample_lib (enc_json (JObj credentials_doc)) = Some (JObj credentials_doc, [])"
    using dec_enc_json(1) [of "JObj credentials_doc" "length (enc_json (JObj credentials_doc))" "[]"]
    by (simp add: sample_lib_def)
  have "ParseInt ''1'' = Some 1" "ParseInt ''5'' = Some 5" by (code_simp+)
  then show "decode_Credentials sample_lib (enc_json (JObj credentials_doc)) = Some sample_credentials"
    using d by (simp add: decode_Credentials_def credentials_doc_def dec_defs set_Credentials_def zero_Credentials_def
        sample_credentials_def sample_lib_def)
qed

lemma credentials_file: "clean_path ''/cred'' = (True, [''cred''])"
  by code_simp

theorem credentials_load_exact_witness:
  "fst (identity_Load sample_lib ''linux'' ''/cred'' credentials_world) = Inr sample_credentials \<and>
   list_all (\<lambda>(k, v). fold_name k \<in> credentials_names) credentials_doc"
proof -
  have ok: "credentials_ok sample_lib sample_credentials"
    by (simp add: credentials_ok_def sample_credentials_def TrimSpace_starts space_seqs_def time_IsZero_def)
  have "fst (identity_Load sample_lib ''linux'' ''/cred'' credentials_world) = Inr sample_credentials \<and>
      (\<forall>k\<in>fst ` set credentials_doc. fold_name k \<in> credentials_names)"
    using credentials_load_exact [where L = sample_lib and goos = "''linux''" and path = "''/cred''" and w = credentials_world
        and cred = sample_credentials and data = "enc_json (JObj credentials_doc)" and kvs = credentials_doc and rest = "[]"]
      ok decode_sample_credentials
    by (simp add: credentials_file credentials_world_def sample_world_def del: enc_json.simps)
  then show ?thesis by (auto simp: list_all_iff)
qed

end
