(* ===== verification/Offline.thy ===== *)
theory Offline
  imports Dispatcher Handler MGate_Client
begin

text \<open>
  Which operations reach outside the machine: the file, audit and clock operations start no process and
  send no request, so a transport's processes and requests are those of its handler, its status provider
  and its sender.
\<close>

named_theorems net_simps \<open>operations that start no process and send no request\<close>

definition net :: "world \<Rightarrow> proc list \<times> http_request list" where
  "net w = (w_execs w, w_requests w)"

lemma net_eq_iff: "net w' = net w \<longleftrightarrow> w_execs w' = w_execs w \<and> w_requests w' = w_requests w"
  by (simp add: net_def)

section \<open>System calls\<close>

lemma net_calls [net_simps]:
  "net (snd (time_Now w)) = net w" "net (snd (rand_Int b w)) = net w" "net (snd (rand_Read n w)) = net w"
  "net (snd (sys_call w)) = net w" "net (snd (sys_unit w)) = net w"
  by (simp_all add: net_def time_Now_def rand_Int_def rand_Read_def sys_call_def sys_unit_def)

lemma net_files [net_simps]:
  "net (snd (os_ReadFile p w)) = net w" "net (snd (os_ReadDir p w)) = net w" "net (snd (os_Stat p w)) = net w"
  "net (snd (os_Remove p w)) = net w" "net (snd (os_Rename p q w)) = net w" "net (snd (os_OpenTrunc p m w)) = net w"
  "net (snd (file_Write p dat w)) = net w" "net (snd (os_MkdirAll p w)) = net w"
  by (simp_all add: net_def sys_defs Let_def split: option.split node.split)

section \<open>Audit, outbox, dispatcher\<close>

lemma net_writeAudit [net_simps]: "net (writeAudit L wr e w) = net w"
proof -
  have "net (snd (stamp_event e w)) = net w" by (simp add: stamp_event_def split_beta Let_def net_simps)
  moreover have "net (snd (append_line e w)) = net w" for e w
    by (simp add: append_line_def sys_call_def net_def Let_def split: option.split)
  ultimately show ?thesis by (simp add: writeAudit_def audit_Write_def split_beta Let_def split: option.split)
qed

lemma net_records [net_simps]:
  "net (snd (readRecordFile L p w)) = net w" "net (syncDir w) = net w" "net (snd (write_file_atomic p dat w)) = net w"
  "net (snd (writeRecordAtomic L s r w)) = net w"
proof -
  show rd: "net (snd (readRecordFile L p w)) = net w" for p w
    by (simp add: readRecordFile_def split_beta Let_def net_simps)
  show sy: "net (syncDir w) = net w" for w by (simp add: syncDir_def split_beta Let_def net_simps)
  show at: "net (snd (write_file_atomic p dat w)) = net w" for p dat w
    by (simp add: write_file_atomic_def split_beta Let_def net_simps sy split: option.split)
  show "net (snd (writeRecordAtomic L s r w)) = net w" by (simp add: writeRecordAtomic_def at split: option.split)
qed

lemma net_lists [net_simps]:
  "net (snd (list_entries L s es w)) = net w" "net (snd (listLocked L s w)) = net w"
  "net (snd (total_size s rs w)) = net w" "net (snd (snapshotLocked L s w)) = net w"
  "net (snd (Due L s now n w)) = net w" "net (snd (PendingCount L s w)) = net w"
proof -
  show le: "net (snd (list_entries L s es w)) = net w" for es w
    by (induction es arbitrary: w) (auto simp: split_beta Let_def net_simps)
  show ll: "net (snd (listLocked L s w)) = net w" for w
    by (simp add: listLocked_def split_beta Let_def net_simps le split: sum.split)
  show ts: "net (snd (total_size s rs w)) = net w" for rs w
    by (induction rs arbitrary: w) (auto simp: split_beta Let_def net_simps)
  show "net (snd (snapshotLocked L s w)) = net w"
    by (simp add: snapshotLocked_def split_beta Let_def ll ts split: sum.split)
  show "net (snd (Due L s now n w)) = net w" by (simp add: Due_def split_beta Let_def ll)
  show "net (snd (PendingCount L s w)) = net w" by (simp add: PendingCount_def All_def split_beta Let_def ll split: sum.split)
qed

lemma net_MarkFailure [net_simps]: "net (snd (MarkFailure L s k e w)) = net w"
proof -
  have "net (snd (retryJitter dl w)) = net w" for dl w
    by (simp add: retryJitter_def Let_def split_beta net_simps)
  then show ?thesis by (simp add: MarkFailure_eq split_beta Let_def net_simps split: sum.split)
qed

lemma net_Delete [net_simps]: "net (snd (Delete L s k w)) = net w"
  by (simp add: Delete_def split_beta Let_def net_simps)

text \<open>The limit loop: by induction over the calls it makes, whether or not it would ever return.\<close>

lemma net_enforce: "enforceLimitsLocked L s w = Some (e, w') \<Longrightarrow> net w' = net w"
proof -
  have "net (snd y) = net w" if "enforceLimitsLocked L s w = Some y" for y
  proof (rule enforceLimitsLocked.raw_induct [where P = "\<lambda>L s w y. net (snd y) = net w", OF _ that], goal_cases)
    case (1 f L s w y)
    show ?case
      using 1(2) by (auto simp: split_beta Let_def net_simps split: sum.splits if_splits list.splits dest!: 1(1))
  qed
  then show "enforceLimitsLocked L s w = Some (e, w') \<Longrightarrow> net w' = net w" by fastforce
qed

lemma net_Save: "Save L s env w = Some (r, w') \<Longrightarrow> net w' = net w"
  by (auto simp: Save_def split_beta Let_def net_simps split: sum.splits option.splits dest!: net_enforce)

section \<open>Senders\<close>

text \<open>
  What a run of a dispatcher does outside is what its sender does: any reflexive and transitive
  relation that each call of the sender keeps is kept by the run.
\<close>

definition sender_keeps :: "(proc list \<times> http_request list \<Rightarrow> proc list \<times> http_request list \<Rightarrow> bool) \<Rightarrow> ResultDispatcher \<Rightarrow> bool" where
  "sender_keeps R d \<longleftrightarrow> reflp R \<and> transp R \<and>
     (case sender d of None \<Rightarrow> True | Some (send, _) \<Rightarrow> (\<forall>r w. R (net w) (net (snd (send r w)))))"

lemma dispatch_loop_net:
  assumes R: "reflp R" "transp R" and send: "case snder of None \<Rightarrow> True | Some (send, _) \<Rightarrow> (\<forall>r w. R (net w) (net (snd (send r w))))"
    and run: "dispatch_loop (writeAudit L wr) (MarkFailure L s) (Delete L s) ctx snder rs w = (e, sent, w')"
  shows "R (net w) (net w')"
  using run
proof (induction rs arbitrary: w e sent)
  case Nil
  then show ?case using R(1) by (simp add: reflpD)
next
  case (Cons r rs)
  show ?case
  proof (cases "ctx w \<or> snder = None")
    case True
    then have "w' = w" using Cons.prems by (cases "ctx w") simp_all
    then show ?thesis using R(1) by (simp add: reflpD)
  next
    case False
    then obtain snd' t where sd: "snder = Some (snd', t)" by (cases snder) auto
    let ?w1 = "writeAudit L wr (send_event_of EventOutboxRecordSendStarted r t []) w"
    let ?w2 = "snd (snd' r ?w1)"
    have step: "R (net w) (net ?w2)" using send sd net_writeAudit by (metis (mono_tags, lifting) case_prod_conv option.simps(5))
    have rest: "\<exists>v e' sent'. net v = net ?w2 \<and>
        (w' = v \<or> dispatch_loop (writeAudit L wr) (MarkFailure L s) (Delete L s) ctx snder rs v = (e', sent', w'))"
    proof (cases "fst (snd' r ?w1)")
      case (Some msg)
      then show ?thesis
        using Cons.prems False net_MarkFailure [of L s "rec_RecordID r" "Some msg" ?w2] net_writeAudit [of L wr]
        by (auto simp: sd split_beta Let_def split: sum.splits) (metis prod.collapse)+
    next
      case None
      then show ?thesis
        using Cons.prems False net_Delete [of L s "rec_RecordID r"] net_writeAudit [of L wr]
        by (auto simp: sd split_beta Let_def split: option.splits) (metis prod.collapse)+
    qed
    then show ?thesis using step Cons.IH R(2) by (metis transpE)
  qed
qed

lemma DispatchOnce_net:
  assumes "sender_keeps R d" and "DispatchOnce L ctx (d, w) = (e, sent, d', w')"
  shows "R (net w) (net w')" and "sender d' = sender d" and "disp_store d' = disp_store d"
proof -
  let ?due = "Due L (disp_store d) (fst (time_Now w)) 16 (snd (time_Now w))"
  have due: "net (snd ?due) = net w" by (simp add: net_simps)
  have sd: "sender (d\<lparr>disp_sending := b\<rparr>) = sender d" for b by (simp add: sender_def split: option.split)
  have R: "reflp R" "transp R" "case sender d of None \<Rightarrow> True | Some (send, _) \<Rightarrow> (\<forall>r w. R (net w) (net (snd (send r w))))"
    using assms(1) by (auto simp: sender_keeps_def)
  show "R (net w) (net w')"
  proof (cases "disp_sending d \<or> (\<exists>err. fst ?due = Inl err)")
    case True
    then have "net w' = net w" using assms(2) due by (auto simp: DispatchOnce_def split_beta Let_def split: if_splits)
    then show ?thesis using R(1) by (simp add: reflpD)
  next
    case False
    then obtain rs where rs: "fst ?due = Inr rs" by (cases "fst ?due") auto
    obtain e' sent' v where loop: "dispatch_loop (writeAudit L (disp_audit d)) (MarkFailure L (disp_store d))
        (Delete L (disp_store d)) ctx (sender d) rs (snd ?due) = (e', sent', v)" by (metis prod_cases3)
    then have "v = w'" using assms(2) False rs by (simp add: DispatchOnce_def split_beta Let_def sd)
    then show ?thesis using dispatch_loop_net [OF R loop] due by simp
  qed
  show "sender d' = sender d" "disp_store d' = disp_store d"
    using assms(2) sd by (auto simp: DispatchOnce_def split_beta Let_def split: if_splits)
qed

lemma Enqueue_net:
  assumes "sender_keeps R d" and "Enqueue L ctx env (d, w) = Some (e, sent, d', w')"
  shows "R (net w) (net w')" and "sender d' = sender d" and "disp_store d' = disp_store d"
proof -
  have R: "reflp R" using assms(1) by (simp add: sender_keeps_def)
  have "R (net w) (net w') \<and> sender d' = sender d \<and> disp_store d' = disp_store d"
  proof (cases "Save L (disp_store d) env w")
    case None
    then show ?thesis using assms(2) by (simp add: Enqueue_def)
  next
    case (Some x)
    obtain r v where x: "x = (r, v)" by fastforce
    have net: "net v = net w" using net_Save Some x by blast
    show ?thesis
    proof (cases r)
      case (Inl err)
      then show ?thesis using assms(2) Some x net R by (auto simp: Enqueue_def reflpD)
    next
      case (Inr y)
      then have "DispatchOnce L ctx (d, v) = (e, sent, d', w')" using assms(2) Some x by (simp add: Enqueue_def)
      from DispatchOnce_net [OF assms(1) this] show ?thesis using net by simp
    qed
  qed
  then show "R (net w) (net w')" "sender d' = sender d" "disp_store d' = disp_store d" by auto
qed

section \<open>The handler\<close>

text \<open>A runner that also sends nothing.\<close>

locale offline_runner = command_runner +
  assumes run_requests: "w_requests (snd (run req w)) = w_requests w"
begin

lemma run_net: "net (snd (run req w)) =
    (w_execs w @ (case Spec_Argv (req_Spec req) (req_Args req) of Inl _ \<Rightarrow> [] | Inr argv \<Rightarrow> [child_process req argv]), w_requests w)"
  by (simp add: net_def run_execs run_requests)

end

interpretation quiet_runner: offline_runner "Run L" for L
  by unfold_locales (simp add: Run_def finish_def time_Now_def cmd_Run_def Let_def split: run_splits)

definition handler_offline :: "Handler \<Rightarrow> bool" where
  "handler_offline h \<longleftrightarrow> handler_ok h \<and> offline_runner (h_runner h)"

lemma NewHandler_offline:
  "NewHandler L opts = Inr h \<Longrightarrow> handler_ok h \<Longrightarrow> opt_Runner opts = None \<Longrightarrow> handler_offline h"
  by (auto simp: handler_offline_def NewHandler_def quiet_runner.offline_runner_axioms split: if_splits option.splits)

lemma Handle_offline:
  assumes "handler_offline h"
  shows "w_requests (snd (snd (Handle L cmd (h, w)))) = w_requests w"
    and "handler_offline (fst (snd (Handle L cmd (h, w))))"
proof -
  have ok: "handler_ok h" and run: "\<And>req w. w_requests (snd (h_runner h req w)) = w_requests w"
    using assms offline_runner.run_requests by (auto simp: handler_offline_def)
  have wa: "w_requests (writeAudit L wr e w) = w_requests w" for wr e w
    using net_writeAudit [of L wr e w] by (simp add: net_eq_iff)
  have tn: "w_requests (snd (time_Now w)) = w_requests w" for w by (simp add: time_Now_def)
  have "w_requests (snd (snd (reject L h' cmd code msg w))) = w_requests w" for h' code msg w
    by (simp add: reject_def split_beta Let_def wa tn)
  moreover have "w_requests (snd (snd (run_accepted L (after_reserve L cmd h w) cmd spec v t w'))) = w_requests w'" for spec v t w'
    by (simp add: run_accepted_def split_beta Let_def wa run after_reserve_def)
  moreover have "w_requests (received L cmd h w) = w_requests w" by (simp add: received_def wa)
  ultimately show "w_requests (snd (snd (Handle L cmd (h, w)))) = w_requests w"
    using Handle_decide [OF ok, where L = L and w = w and cmd = cmd] by (auto simp: tn split: sum.splits prod.splits)
  have "h_runner (fst (snd (Handle L cmd (h, w)))) = h_runner h"
    by (simp add: Handle_frame(7) [OF ok] after_reserve_def)
  then show "handler_offline (fst (snd (Handle L cmd (h, w))))"
    using assms Handle_ok [OF ok] by (simp add: handler_offline_def)
qed

end
