(* ===== verification/Pull_Properties.thy ===== *)
theory Pull_Properties
  imports Pull_Client Offline
begin

text \<open>
  What holds of the HTTP transport: which envelopes reach the command handler, when a result counts as
  delivered, and what a whole poll can start and send.
\<close>

section \<open>Envelopes\<close>

text \<open>An item of a response that is a command for this device.\<close>

definition own_command :: "golib \<Rightarrow> string \<Rightarrow> Envelope \<Rightarrow> CommandPayload \<Rightarrow> bool" where
  "own_command L deviceID env cmd \<longleftrightarrow> unmarshal_CommandPayload L (env_Payload env) = Some cmd \<and>
     env_Version env = envelopeVersion \<and> env_Type env = MessageTypeCommand \<and> env_DeviceID env = deviceID"

definition refusal_code :: "golib \<Rightarrow> string \<Rightarrow> Envelope \<Rightarrow> string" where
  "refusal_code L deviceID env =
     (if unmarshal_CommandPayload L (env_Payload env) = None then ''invalid_payload''
      else if env_Version env \<noteq> envelopeVersion then ''invalid_version''
      else if env_Type env \<noteq> MessageTypeCommand then ''invalid_type'' else ''device_mismatch'')"

lemma rejectedResult_simps [simp]:
  "res_CommandID (fst (rejectedResult i a c m w)) = i" "res_Action (fst (rejectedResult i a c m w)) = a"
  "res_State (fst (rejectedResult i a c m w)) = CommandRejected" "res_ErrorCode (fst (rejectedResult i a c m w)) = c"
  "snd (rejectedResult i a c m w) = snd (time_Now w)"
  by (simp_all add: rejectedResult_def split_beta Let_def zero_ResultPayload_def)

lemma handleEnvelope_own:
  "own_command L dev env cmd \<Longrightarrow> handleEnvelope L dev env (h, w) = Handle L cmd (h, w)"
  by (simp add: own_command_def handleEnvelope_def)

lemma handleEnvelope_refused:
  assumes "\<nexists>cmd. own_command L dev env cmd"
  shows "res_State (fst (handleEnvelope L dev env (h, w))) = CommandRejected"
    and "res_ErrorCode (fst (handleEnvelope L dev env (h, w))) = refusal_code L dev env"
    and "fst (snd (handleEnvelope L dev env (h, w))) = h"
    and "snd (snd (handleEnvelope L dev env (h, w))) = snd (time_Now w)"
  using assms
  by (auto simp: handleEnvelope_def own_command_def refusal_code_def split_beta Let_def split: option.splits)

section \<open>Requests\<close>

text \<open>A request of the agent to one of its two endpoints.\<close>

definition agent_request :: "golib \<Rightarrow> PullClientOptions \<Rightarrow> string \<Rightarrow> http_request \<Rightarrow> bool" where
  "agent_request L opts path req \<longleftrightarrow> hr_Method req = ''POST'' \<and> BuildHTTPURL L (po_BaseURL opts) path = Inr (hr_URL req) \<and>
     signed_by L (po_DeviceSecret opts) path req \<and> Header_Get ''X-MGate-Device-ID'' (hr_Header req) = po_DeviceID opts"

lemma newSignedJSONRequest_net: "net (snd (newSignedJSONRequest L m u p b opts w)) = net w"
  by (simp add: net_eq_iff frame_simps)

lemma newSignedJSONRequest_ok:
  assumes "lib_url_parse L u \<noteq> None" and "w_random w (w_randoms w) \<noteq> None"
  shows "\<exists>req. fst (newSignedJSONRequest L m u p b opts w) = Inr req"
proof -
  obtain x where "w_random w (w_randoms w) = Some x" using assms(2) by blast
  then obtain nonce v where "randomNonce (snd (time_Now w)) = (Inr nonce, v)"
    by (simp add: randomNonce_def rand_Read_def time_Now_def)
  then show ?thesis using assms(1) by (auto simp: newSignedJSONRequest_def signedHeader_def split_beta Let_def)
qed

lemma agent_request_new:
  assumes "newSignedJSONRequest L ''POST'' u p b opts w = (Inr req, w')" and "BuildHTTPURL L (po_BaseURL opts) p = Inr u"
  shows "agent_request L opts p req"
  using newSignedJSONRequest_Inr [OF assms(1)] assms(2) by (simp add: agent_request_def)

lemma postEnvelope_net:
  "\<exists>reqs. net (snd (postEnvelope L opts env w)) = (w_execs w, w_requests w @ reqs) \<and>
     (\<forall>req \<in> set reqs. agent_request L opts (po_ResultPath opts) req)"
proof (cases "BuildHTTPURL L (po_BaseURL opts) (po_ResultPath opts)")
  case (Inl e)
  then show ?thesis by (simp add: postEnvelope_def net_def)
next
  case (Inr u)
  show ?thesis
  proof (cases "marshal_Envelope L env")
    case None
    then show ?thesis using Inr by (simp add: postEnvelope_def net_def)
  next
    case (Some j)
    obtain r w1 where new: "newSignedJSONRequest L ''POST'' u (po_ResultPath opts) (lib_marshal L j) opts w = (r, w1)"
      by fastforce
    have w1: "net w1 = net w" using newSignedJSONRequest_net [of L "''POST''" u "po_ResultPath opts" "lib_marshal L j" opts w] new by simp
    show ?thesis
    proof (cases r)
      case (Inl e)
      then show ?thesis using Inr Some new w1 by (simp add: postEnvelope_def net_def)
    next
      case req: (Inr req)
      then have "agent_request L opts (po_ResultPath opts) req" using agent_request_new new Inr by simp
      moreover have "net (snd (postEnvelope L opts env w)) = (w_execs w, w_requests w @ [req])"
        using Inr Some new req w1 by (simp add: postEnvelope_def http_Do_def net_def split: sum.split)
      ultimately show ?thesis by (intro exI [of _ "[req]"]) simp
    qed
  qed
qed

lemma postEnvelope_accepted:
  assumes "postEnvelope L opts env w = (None, w')"
  shows "\<exists>j req resp. marshal_Envelope L env = Some j \<and> agent_request L opts (po_ResultPath opts) req \<and>
     hr_Body req = lib_marshal L j \<and> w_http w (w_requests w) req = Inr resp \<and>
     200 \<le> hs_StatusCode resp \<and> hs_StatusCode resp < 300 \<and> w_requests w' = w_requests w @ [req]"
proof -
  obtain u where u: "BuildHTTPURL L (po_BaseURL opts) (po_ResultPath opts) = Inr u"
    using assms by (auto simp: postEnvelope_def split: sum.splits)
  obtain j where j: "marshal_Envelope L env = Some j"
    using assms u by (auto simp: postEnvelope_def split: option.splits)
  obtain r w1 where new: "newSignedJSONRequest L ''POST'' u (po_ResultPath opts) (lib_marshal L j) opts w = (r, w1)" by fastforce
  obtain req where r: "r = Inr req" using assms u j new by (cases r) (auto simp: postEnvelope_def)
  have w1: "w_requests w1 = w_requests w" 
    using newSignedJSONRequest_net [of L "''POST''" u "po_ResultPath opts" "lib_marshal L j" opts w] new by (simp add: net_eq_iff)
  have http: "w_http w1 = w_http w"
    using newSignedJSONRequest_frame(6) [of L "''POST''" u "po_ResultPath opts" "lib_marshal L j" opts w] new by simp
  obtain resp where resp: "w_http w1 (w_requests w1) req = Inr resp" "is_2xx (hs_StatusCode resp)" "w' = w1\<lparr>w_requests := w_requests w1 @ [req]\<rparr>"
    using assms u j new r by (auto simp: postEnvelope_def http_Do_def split: sum.splits if_splits)
  show ?thesis
    using j r resp w1 http agent_request_new [OF new [unfolded r] u] newSignedJSONRequest_Inr(4) [OF new [unfolded r]]
    by (intro exI [of _ j] exI [of _ req] exI [of _ resp]) (simp add: is_2xx_def)
qed

section \<open>A poll\<close>

definition result_requests :: "golib \<Rightarrow> PullClientOptions \<Rightarrow> proc list \<times> http_request list \<Rightarrow> proc list \<times> http_request list \<Rightarrow> bool" where
  "result_requests L opts n n' \<longleftrightarrow> (\<exists>reqs. n' = (fst n, snd n @ reqs) \<and> (\<forall>req \<in> set reqs. agent_request L opts (po_ResultPath opts) req))"

lemma result_requests_order: "reflp (result_requests L opts)" "transp (result_requests L opts)"
  by (auto simp: result_requests_def reflp_def transp_def)

text \<open>
  The dispatcher of a client with these options: its pull sender is the client's, and a WebSocket
  sender, if there is one, uses its own connection.
\<close>

definition pull_dispatcher :: "golib \<Rightarrow> (transport_error \<Rightarrow> string) \<Rightarrow> PullClientOptions \<Rightarrow> ResultDispatcher \<Rightarrow> bool" where
  "pull_dispatcher L etext opts d \<longleftrightarrow> disp_pullSender d = Some (SendRecord L etext opts) \<and>
     (case disp_wsSender d of None \<Rightarrow> True | Some f \<Rightarrow> (\<forall>r w. net (snd (f r w)) = net w))"

lemma pull_dispatcher_keeps:
  assumes "pull_dispatcher L etext opts d"
  shows "sender_keeps (result_requests L opts) d"
proof -
  have "result_requests L opts (net w) (net (snd (SendRecord L etext opts r w)))" for r w
    using postEnvelope_net [of L opts "rec_Envelope r" w]
    by (simp add: SendRecord_def split_beta Let_def result_requests_def net_def)
  moreover have "result_requests L opts n n" for n using result_requests_order(1) by (rule reflpD)
  ultimately show ?thesis
    using assms result_requests_order
    by (auto simp: sender_keeps_def pull_dispatcher_def sender_def split: option.splits)
qed

lemma makeEnvelope_net: "net (snd (makeEnvelope t dv c p w)) = net w"
  by (simp add: net_eq_iff frame_simps)

definition poll_processes :: "golib \<Rightarrow> Handler \<Rightarrow> string \<Rightarrow> Envelope list \<Rightarrow> proc list \<Rightarrow> bool" where
  "poll_processes L h deviceID envs procs \<longleftrightarrow>
     (\<forall>p \<in> set procs. \<exists>env \<in> set envs. \<exists>cmd. own_command L deviceID env cmd \<and> process_allowed h cmd p)"

lemma handleEnvelope_net:
  assumes "handler_offline h" and "h_registry h = Some default_registry"
    and "handleEnvelope L dev env (h, w) = (r, h', w')"
  shows "\<exists>procs. net w' = (w_execs w @ procs, w_requests w) \<and> poll_processes L h dev [env] procs"
    and "handler_offline h'" and "h_registry h' = h_registry h" and "h_mgatePath h' = h_mgatePath h"
    and "h_allowActions h' = h_allowActions h"
proof -
  have ok: "handler_ok h" using assms(1) by (simp add: handler_offline_def)
  have "(\<exists>procs. net w' = (w_execs w @ procs, w_requests w) \<and> poll_processes L h dev [env] procs) \<and> handler_offline h' \<and>
    h_registry h' = h_registry h \<and> h_mgatePath h' = h_mgatePath h \<and> h_allowActions h' = h_allowActions h"
  proof (cases "\<exists>cmd. own_command L dev env cmd")
    case True
    then obtain cmd where own: "own_command L dev env cmd" by blast
    have eq: "Handle L cmd (h, w) = (r, h', w')" using assms(3) handleEnvelope_own [OF own] by simp
    have "net w' = (w_execs w @ decided_processes L h (reserve_time L cmd h w) cmd, w_requests w)"
      using Handle_execs [OF ok, of L cmd w] Handle_offline(1) [OF assms(1), of L cmd w] by (simp add: eq net_def)
    moreover have "poll_processes L h dev [env] (decided_processes L h (reserve_time L cmd h w) cmd)"
      using decided_allowed [OF assms(2)] own by (auto simp: poll_processes_def)
    ultimately show ?thesis
      using Handle_offline(2) [OF assms(1), of L cmd w] after_Handle_frame [OF ok, of L cmd w] by (auto simp: eq)
  next
    case False
    then show ?thesis
      using handleEnvelope_refused(3,4) [OF False, of h w] assms
      by (intro conjI exI [of _ "[]"]) (simp_all add: net_simps poll_processes_def, simp add: net_def)
  qed
  then show "\<exists>procs. net w' = (w_execs w @ procs, w_requests w) \<and> poll_processes L h dev [env] procs"
    and "handler_offline h'" and "h_registry h' = h_registry h" and "h_mgatePath h' = h_mgatePath h"
    and "h_allowActions h' = h_allowActions h" by blast+
qed

lemma process_allowed_cong:
  "h_mgatePath h' = h_mgatePath h \<Longrightarrow> h_allowActions h' = h_allowActions h \<Longrightarrow> process_allowed h' cmd p = process_allowed h cmd p"
  by (simp add: process_allowed_def)

lemma poll_loop_net:
  assumes "handler_offline h" and "h_registry h = Some default_registry" and "sender_keeps (result_requests L (pc_opts c)) d"
    and "poll_loop L ctx c envs (h, d, w) = Some (e, c', sent, h', d', w')"
  shows "\<exists>procs reqs. net w' = (w_execs w @ procs, w_requests w @ reqs) \<and>
    poll_processes L h (po_DeviceID (pc_opts c)) envs procs \<and>
    (\<forall>req \<in> set reqs. agent_request L (pc_opts c) (po_ResultPath (pc_opts c)) req)"
  using assms
proof (induction envs arbitrary: h d w c e sent)
  case Nil
  then show ?case by (simp add: net_def poll_processes_def)
next
  case (Cons env envs)
  let ?dev = "po_DeviceID (pc_opts c)"
  obtain r h1 w1 where handled: "handleEnvelope L ?dev env (h, w) = (r, h1, w1)" by (metis prod_cases3)
  note h1 = handleEnvelope_net [OF Cons.prems(1,2) handled]
  obtain procs1 where procs1: "net w1 = (w_execs w @ procs1, w_requests w)" "poll_processes L h ?dev [env] procs1"
    using h1(1) by blast
  have allow: "process_allowed h1 cmd p = process_allowed h cmd p" for cmd p using h1(4,5) by (rule process_allowed_cong)
  have reg1: "h_registry h1 = Some default_registry" using h1(3) Cons.prems(2) by simp
  have join: "\<exists>procs reqs. net w' = (w_execs w @ procs, w_requests w @ reqs) \<and> poll_processes L h ?dev (env # envs) procs \<and>
      (\<forall>req \<in> set reqs. agent_request L (pc_opts c) (po_ResultPath (pc_opts c)) req)"
    if v: "result_requests L (pc_opts c) (net w1) (net v)" and procs: "net w' = (w_execs v @ procs, w_requests v @ reqs)"
      and allowed: "poll_processes L h1 ?dev envs procs" and reqs: "\<forall>req \<in> set reqs. agent_request L (pc_opts c) (po_ResultPath (pc_opts c)) req"
    for v procs reqs
  proof -
    obtain rq where rq: "net v = (w_execs w @ procs1, w_requests w @ rq)"
      "\<forall>req \<in> set rq. agent_request L (pc_opts c) (po_ResultPath (pc_opts c)) req"
      using v procs1(1) by (auto simp: result_requests_def)
    have "net w' = (w_execs w @ procs1 @ procs, w_requests w @ rq @ reqs)" using procs rq(1) by (simp add: net_def)
    moreover have "poll_processes L h ?dev (env # envs) (procs1 @ procs)"
      using procs1(2) allowed allow by (auto simp: poll_processes_def)
    ultimately show ?thesis using rq(2) reqs by (intro exI [of _ "procs1 @ procs"] exI [of _ "rq @ reqs"]) auto
  qed
  have none: "poll_processes L h1 ?dev envs []" by (simp add: poll_processes_def)
  have refl: "result_requests L (pc_opts c) n n" for n using result_requests_order(1) by (rule reflpD)
  show ?case
  proof (cases "res_CommandID r = []")
    case True
    then have "poll_loop L ctx c envs (h1, d, w1) = Some (e, c', sent, h', d', w')"
      using Cons.prems(4) handled by simp
    from Cons.IH [OF h1(2) reg1 Cons.prems(3) this] show ?thesis using join [OF refl] by blast
  next
    case False
    obtain me w2 where me: "makeEnvelope MessageTypeResult ?dev (res_CommandID r) (marshal_ResultPayload L r) w1 = (me, w2)"
      by fastforce
    have w2: "net w2 = net w1"
      using makeEnvelope_net [of MessageTypeResult ?dev "res_CommandID r" "marshal_ResultPayload L r" w1] me by simp
    show ?thesis
    proof (cases me)
      case None
      then have "w' = w2" using Cons.prems(4) handled False me by simp
      then show ?thesis using join [OF refl, of "[]" "[]"] w2 none by (simp add: net_def)
    next
      case (Some renv)
      obtain e1 sent1 d1 w3 where enq: "Enqueue L ctx renv (d, w2) = Some (e1, sent1, d1, w3)"
        using Cons.prems(4) handled False me Some by (cases "Enqueue L ctx renv (d, w2)") auto
      note en = Enqueue_net [OF Cons.prems(3) enq]
      have v: "result_requests L (pc_opts c) (net w1) (net w3)" using en(1) w2 by simp
      show ?thesis
      proof (cases e1)
        case (Some err)
        then have "w' = w3" using Cons.prems(4) handled False me enq \<open>me = Some renv\<close> by simp
        then show ?thesis using join [OF v, of "[]" "[]"] none by (simp add: net_def)
      next
        case ok: None
        let ?c = "c\<lparr>pc_lastCommandID := res_CommandID r, pc_lastCommandState := res_State r\<rparr>"
        obtain more where rec: "poll_loop L ctx ?c envs (h1, d1, w3) = Some (e, c', more, h', d', w')"
          using Cons.prems(4) handled False me enq ok Some by auto
        have "sender_keeps (result_requests L (pc_opts ?c)) d1" using Cons.prems(3) en(2) by (simp add: sender_keeps_def)
        from Cons.IH [OF h1(2) reg1 this rec] show ?thesis using join [OF v] by auto
      qed
    qed
  qed
qed

text \<open>The request of a poll, when the status comes from mgate.\<close>

lemma fetch_commands_net:
  assumes "po_MGateStatus (pc_opts c) = None \<or> po_MGateStatus (pc_opts c) = Some (Summary L mg)"
  shows "\<exists>procs reqs. net (snd (fetch_commands L c w)) = (w_execs w @ procs, w_requests w @ reqs) \<and>
    set procs \<subseteq> {mgate_proc mg ''agent-snapshot'' (mo_SnapshotTimeout (mc_opts mg))} \<and>
    (\<forall>req \<in> set reqs. agent_request L (pc_opts c) (po_PullPath (pc_opts c)) req)"
proof (cases "BuildHTTPURL L (po_BaseURL (pc_opts c)) (po_PullPath (pc_opts c))")
  case (Inl e)
  then show ?thesis by (simp add: fetch_commands_def net_def)
next
  case (Inr u)
  let ?o = "pc_opts c" and ?path = "po_PullPath (pc_opts c)"
  obtain mgs w1 where sm: "pull_mgateSummary ?o w = (mgs, w1)" by fastforce
  have "\<exists>procs. net w1 = (w_execs w @ procs, w_requests w) \<and> set procs \<subseteq> {mgate_proc mg ''agent-snapshot'' (mo_SnapshotTimeout (mc_opts mg))}"
    using assms sm Summary_execs [of L mg w] Summary_frame(4) [of L mg w]
    by (auto simp: pull_mgateSummary_def net_def split_beta Let_def intro: exI [of _ "[]"])
  then obtain procs where procs: "net w1 = (w_execs w @ procs, w_requests w)"
    "set procs \<subseteq> {mgate_proc mg ''agent-snapshot'' (mo_SnapshotTimeout (mc_opts mg))}" by blast
  obtain j where j: "marshal_PullRequestPayload L (pull_request c mgs) = Some j"
    by (simp add: marshal_PullRequestPayload_def)
  obtain r w2 where new: "newSignedJSONRequest L ''POST'' u ?path (lib_marshal L j) ?o w1 = (r, w2)" by fastforce
  have w2: "net w2 = net w1" using newSignedJSONRequest_net [of L "''POST''" u ?path "lib_marshal L j" ?o w1] new by simp
  show ?thesis
  proof (cases r)
    case (Inl e)
    then have "net (snd (fetch_commands L c w)) = (w_execs w @ procs, w_requests w)"
      using Inr sm j new w2 procs(1) by (simp add: fetch_commands_def)
    then show ?thesis using procs(2) by (intro exI [of _ procs] exI [of _ "[]"]) simp
  next
    case req: (Inr req)
    have "net (snd (fetch_commands L c w)) = net (snd (http_Do req w2))"
      using Inr sm j new req by (simp add: fetch_commands_def http_Do_def split: sum.split option.split)
    also have "\<dots> = (w_execs w @ procs, w_requests w @ [req])" using w2 procs(1) by (simp add: http_Do_def net_def)
    finally show ?thesis
      using procs(2) agent_request_new [of L u ?path "lib_marshal L j" ?o w1 req w2] new req Inr
      by (intro exI [of _ procs] exI [of _ "[req]"]) simp
  qed
qed

lemma readLimited_Inr:
  assumes "0 \<le> n" and "n < 2 ^ 63 - 1"
  shows "readLimited resp n = Inr data \<longleftrightarrow> data = hs_Body resp \<and> int (length data) \<le> n \<and> \<not> hs_broken resp"
proof -
  have "wrap64 (n + 1) = n + 1" using assms by (intro wrap64_id) (simp add: int64_def)
  then show ?thesis using assms by (auto simp: readLimited_def Let_def split: if_splits)
qed

lemma fetch_commands_Inr:
  assumes "fetch_commands L c w = (Inr envs, w')"
  shows "\<exists>resp data st. 200 \<le> hs_StatusCode resp \<and> hs_StatusCode resp < 300 \<and>
    readLimited resp (po_MaxResponseBytes (pc_opts c)) = Inr data \<and>
    unmarshal_PullResponsePayload L data = Some \<lparr>pp_ServerTime = st, pp_Commands = envs\<rparr> \<and>
    int (length envs) \<le> po_MaxCommands (pc_opts c)"
proof -
  obtain u where u: "BuildHTTPURL L (po_BaseURL (pc_opts c)) (po_PullPath (pc_opts c)) = Inr u"
    using assms by (auto simp: fetch_commands_def split: sum.splits)
  obtain mgs w1 where sm: "pull_mgateSummary (pc_opts c) w = (mgs, w1)" by fastforce
  obtain j where j: "marshal_PullRequestPayload L (pull_request c mgs) = Some j"
    by (simp add: marshal_PullRequestPayload_def)
  obtain r w2 where new: "newSignedJSONRequest L ''POST'' u (po_PullPath (pc_opts c)) (lib_marshal L j) (pc_opts c) w1 = (r, w2)" by fastforce
  obtain req where r: "r = Inr req" using assms u sm j new by (cases r) (auto simp: fetch_commands_def)
  note eq = assms [unfolded fetch_commands_def u sum.case sm j option.case split_beta Let_def fst_conv snd_conv new r]
  obtain resp where resp: "w_http w2 (w_requests w2) req = Inr resp"
    using eq by (cases "w_http w2 (w_requests w2) req") (auto simp: http_Do_def)
  have ok: "is_2xx (hs_StatusCode resp)" using eq resp by (auto simp: http_Do_def split: if_splits)
  obtain data where data: "readLimited resp (po_MaxResponseBytes (pc_opts c)) = Inr data"
    using eq resp ok by (cases "readLimited resp (po_MaxResponseBytes (pc_opts c))") (auto simp: http_Do_def)
  obtain p where p: "unmarshal_PullResponsePayload L data = Some p"
    using eq resp ok data by (cases "unmarshal_PullResponsePayload L data") (auto simp: http_Do_def)
  have "pp_Commands p = envs" "int (length envs) \<le> po_MaxCommands (pc_opts c)"
    using eq resp ok data p by (auto simp: http_Do_def split: if_splits)
  then show ?thesis
    using ok data p by (intro exI [of _ resp] exI [of _ data] exI [of _ "pp_ServerTime p"]) (auto simp: is_2xx_def)
qed

lemma poll_processes_requests:
  assumes h: "handler_offline h" and reg: "h_registry h = Some default_registry"
    and d: "pull_dispatcher L etext (pc_opts c) d"
    and mg: "po_MGateStatus (pc_opts c) = None \<or> po_MGateStatus (pc_opts c) = Some (Summary L mg)"
    and run: "PollOnce L ctx c (h, d, w) = Some (e, c', sent, h', d', w')"
  shows "\<exists>procs reqs. w_execs w' = w_execs w @ procs \<and> w_requests w' = w_requests w @ reqs \<and>
    (\<forall>p \<in> set procs. p = mgate_proc mg ''agent-snapshot'' (mo_SnapshotTimeout (mc_opts mg)) \<or>
       (\<exists>env cmd. own_command L (po_DeviceID (pc_opts c)) env cmd \<and> process_allowed h cmd p)) \<and>
    (\<forall>req \<in> set reqs. agent_request L (pc_opts c) (po_PullPath (pc_opts c)) req \<or>
       agent_request L (pc_opts c) (po_ResultPath (pc_opts c)) req)"
proof -
  obtain r w1 where fetch: "fetch_commands L c w = (r, w1)" by fastforce
  obtain procs1 reqs1 where one: "net w1 = (w_execs w @ procs1, w_requests w @ reqs1)"
    "set procs1 \<subseteq> {mgate_proc mg ''agent-snapshot'' (mo_SnapshotTimeout (mc_opts mg))}"
    "\<forall>req \<in> set reqs1. agent_request L (pc_opts c) (po_PullPath (pc_opts c)) req"
    using fetch_commands_net [OF mg, of w] fetch by auto
  show ?thesis
  proof (cases r)
    case (Inl err)
    then have "w' = w1" using run fetch by (simp add: PollOnce_def)
    then show ?thesis using one by (intro exI [of _ procs1] exI [of _ reqs1]) (auto simp: net_def)
  next
    case (Inr envs)
    then have "poll_loop L ctx c envs (h, d, w1) = Some (e, c', sent, h', d', w')" using run fetch by (simp add: PollOnce_def)
    from poll_loop_net [OF h reg pull_dispatcher_keeps [OF d] this] obtain procs2 reqs2
      where two: "net w' = (w_execs w1 @ procs2, w_requests w1 @ reqs2)" "poll_processes L h (po_DeviceID (pc_opts c)) envs procs2"
        "\<forall>req \<in> set reqs2. agent_request L (pc_opts c) (po_ResultPath (pc_opts c)) req" by blast
    show ?thesis
      using one two by (intro exI [of _ "procs1 @ procs2"] exI [of _ "reqs1 @ reqs2"]) (auto simp: net_def poll_processes_def)
  qed
qed

section \<open>Properties\<close>

text \<open>
  C29: an item of a poll response reaches the command handler exactly when its payload is a command, its
  version and type are right and it names this device; every other item gets a rejection with the code
  of the first check it fails, and changes neither the handler nor a file, and starts and sends nothing.
\<close>

theorem pull_envelope_gates:
  "(\<forall>cmd. own_command L dev env cmd \<longrightarrow> handleEnvelope L dev env (h, w) = Handle L cmd (h, w)) \<and>
   ((\<nexists>cmd. own_command L dev env cmd) \<longrightarrow>
      (\<exists>r w'. handleEnvelope L dev env (h, w) = (r, h, w') \<and> res_State r = CommandRejected \<and>
         res_ErrorCode r = refusal_code L dev env \<and> net w' = net w \<and> w_fs w' = w_fs w \<and> w_audit w' = w_audit w))"
proof (intro conjI impI allI)
  show "handleEnvelope L dev env (h, w) = Handle L cmd (h, w)" if "own_command L dev env cmd" for cmd
    using that by (rule handleEnvelope_own)
  assume no: "\<nexists>cmd. own_command L dev env cmd"
  obtain r h' w' where eq: "handleEnvelope L dev env (h, w) = (r, h', w')" by (metis prod_cases3)
  show "\<exists>r w'. handleEnvelope L dev env (h, w) = (r, h, w') \<and> res_State r = CommandRejected \<and>
      res_ErrorCode r = refusal_code L dev env \<and> net w' = net w \<and> w_fs w' = w_fs w \<and> w_audit w' = w_audit w"
    using handleEnvelope_refused [OF no, of h w] by (simp add: eq net_simps frame_simps)
qed

definition foreign_envelope :: Envelope where
  "foreign_envelope = \<lparr>env_Version = ''1'', env_Type = ''command'', env_MessageID = ''m'', env_CorrelationID = [],
     env_DeviceID = ''other'', env_Timestamp = 0, env_Payload = Some (JObj [])\<rparr>"

theorem pull_envelope_gates_witness:
  "\<exists>r w'. handleEnvelope sample_lib ''dev-1'' foreign_envelope (sample_handler, sample_world) = (r, sample_handler, w') \<and>
     res_ErrorCode r = ''device_mismatch''"
proof -
  have payload: "unmarshal_CommandPayload sample_lib (Some (JObj [])) = Some zero_CommandPayload"
    by (simp add: unmarshal_CommandPayload_def dec_struct_def)
  have "\<nexists>cmd. own_command sample_lib ''dev-1'' foreign_envelope cmd" by (simp add: own_command_def foreign_envelope_def)
  moreover have "refusal_code sample_lib ''dev-1'' foreign_envelope = ''device_mismatch''"
    by (simp add: refusal_code_def foreign_envelope_def payload envelopeVersion_def MessageTypeCommand_def)
  ultimately show ?thesis
    using pull_envelope_gates [of sample_lib "''dev-1''" foreign_envelope sample_handler sample_world] by auto
qed

definition pull_opts :: PullClientOptions where
  "pull_opts = \<lparr>po_BaseURL = ''https://cloud'', po_PullPath = ''/pull'', po_ResultPath = ''/result'', po_RequestTimeout = 15 * Second,
     po_PullInterval = 10 * Second, po_MaxResponseBytes = 65536, po_MaxCommands = 16, po_ReconnectMinDelay = 0,
     po_ReconnectMaxDelay = 0, po_DeviceID = ''dev-1'', po_TenantID = ''t'', po_DeviceSecret = ''s'', po_AgentVersion = ''v'',
     po_DeviceName = ''n'', po_Handler = Some (), po_MGateStatus = None, po_Client = Some (15 * Second), po_Dispatcher = Some ()\<rparr>"

text \<open>A cloud that answers every request with one body.\<close>

definition answering_world :: "string \<Rightarrow> world" where
  "answering_world body = sample_world\<lparr>w_http := (\<lambda>_ _. Inr \<lparr>hs_StatusCode = 200, hs_Body = body, hs_broken = False\<rparr>)\<rparr>"

lemma sample_urls:
  "BuildHTTPURL sample_lib (po_BaseURL pull_opts) ''/result'' = Inr ''https://cloud/result''"
  "BuildHTTPURL sample_lib (po_BaseURL pull_opts) ''/pull'' = Inr ''https://cloud/pull''"
  by (code_simp+)


definition sent_record :: Record where
  "sent_record = zero_Record\<lparr>rec_RecordID := ''cmd-0001'', rec_CommandID := ''cmd-0001''\<rparr>"

lemma sample_sends:
  "\<exists>w'. SendRecord sample_lib (\<lambda>_. ''failed'') pull_opts sent_record (answering_world []) = (None, w')"
proof -
  let ?w = "answering_world []"
  obtain j where j: "marshal_Envelope sample_lib (rec_Envelope sent_record) = Some j"
    by (simp add: marshal_Envelope_def sent_record_def zero_Record_def zero_Envelope_def json_time_ok_def)
  have "lib_url_parse sample_lib ''https://cloud/result'' \<noteq> None" by code_simp
  then obtain req w1 where new: "newSignedJSONRequest sample_lib ''POST'' ''https://cloud/result'' ''/result'' (lib_marshal sample_lib j) pull_opts ?w = (Inr req, w1)"
    using newSignedJSONRequest_ok [of sample_lib "''https://cloud/result''" ?w "''POST''" "''/result''" "lib_marshal sample_lib j" pull_opts]
    by (auto simp: answering_world_def sample_world_def prod_eq_iff)
  have "w_http w1 = w_http ?w"
    using newSignedJSONRequest_frame(6) [of sample_lib "''POST''" "''https://cloud/result''" "''/result''" "lib_marshal sample_lib j" pull_opts ?w] new
    by simp
  then have "fst (postEnvelope sample_lib pull_opts (rec_Envelope sent_record) ?w) = None"
    using new j sample_urls(1) by (simp add: postEnvelope_def http_Do_def pull_opts_def answering_world_def is_2xx_def)
  then show ?thesis by (simp add: SendRecord_def split_beta Let_def)
qed



text \<open>The sample client polls a cloud that has nothing to say.\<close>

definition sample_client :: PullClient where
  "sample_client = \<lparr>pc_opts = pull_opts, pc_lastCommandID = [], pc_lastCommandState = []\<rparr>"

definition sample_dispatcher :: ResultDispatcher where
  "sample_dispatcher = \<lparr>disp_store = \<lparr>st_dir = ''/o'', st_maxRecords = 100, st_maxBytes = 1000, st_audit = None\<rparr>, disp_audit = None,
     disp_wsSender = None, disp_pullSender = Some (SendRecord sample_lib (\<lambda>_. ''failed'') pull_opts), disp_sending = False\<rparr>"

text \<open>One command for this device, without an id.\<close>

definition sample_response :: string where
  "sample_response = enc_json (JObj [(''commands'', JArr [JObj [(''version'', JStr ''1''), (''type'', JStr ''command''),
     (''device_id'', JStr ''dev-1''), (''payload'', JObj [(''action'', JStr ''status.snapshot'')])]])])"

definition sample_item :: Envelope where
  "sample_item = zero_Envelope\<lparr>env_Version := ''1'', env_Type := ''command'', env_DeviceID := ''dev-1'',
     env_Payload := Some (JObj [(''action'', JStr ''status.snapshot'')])\<rparr>"

lemma sample_response_decodes:
  "unmarshal_PullResponsePayload sample_lib sample_response = Some \<lparr>pp_ServerTime = 0, pp_Commands = [sample_item]\<rparr>"
proof -
  let ?item = "[(''version'', JStr ''1''), (''type'', JStr ''command''), (''device_id'', JStr ''dev-1''), (''payload'', JObj [(''action'', JStr ''status.snapshot'')])]"
  have parse: "lib_parse sample_lib sample_response = Some (JObj [(''commands'', JArr [JObj ?item])])"
    by (simp add: sample_lib_def sample_response_def del: enc_json.simps)
  have name: "fold_name ''commands'' = ''commands''" by code_simp
  have item: "dec_struct (set_Envelope sample_lib) (JObj ?item) zero_Envelope = Some sample_item"
    by (simp add: dec_struct_def set_Envelope_simps dec_string_def dec_raw_def sample_item_def zero_Envelope_def)
  show ?thesis
    by (simp add: unmarshal_PullResponsePayload_def parse dec_struct_def [of "set_PullResponsePayload sample_lib"]
        set_PullResponsePayload_def name item)
qed

lemma sample_fetch: "\<exists>v. fetch_commands sample_lib sample_client (answering_world sample_response) = (Inr [sample_item], v)"
proof -
  let ?w = "answering_world sample_response"
  obtain j where j: "marshal_PullRequestPayload sample_lib (pull_request sample_client None) = Some j"
    by (simp add: marshal_PullRequestPayload_def)
  have "lib_url_parse sample_lib ''https://cloud/pull'' \<noteq> None" by code_simp
  then obtain req w1 where new: "newSignedJSONRequest sample_lib ''POST'' ''https://cloud/pull'' ''/pull'' (lib_marshal sample_lib j) pull_opts ?w = (Inr req, w1)"
    using newSignedJSONRequest_ok [of sample_lib "''https://cloud/pull''" ?w "''POST''" "''/pull''" "lib_marshal sample_lib j" pull_opts]
    by (auto simp: answering_world_def sample_world_def prod_eq_iff)
  have http: "w_http w1 = w_http ?w"
    using newSignedJSONRequest_frame(6) [of sample_lib "''POST''" "''https://cloud/pull''" "''/pull''" "lib_marshal sample_lib j" pull_opts ?w] new
    by simp
  have len: "length sample_response \<le> 65536" by (simp add: sample_response_def)
  have opts: "pc_opts sample_client = pull_opts" "po_PullPath pull_opts = ''/pull''" "po_MaxResponseBytes pull_opts = 65536"
    "po_MaxCommands pull_opts = 16" "po_MGateStatus pull_opts = None"
    by (simp_all add: sample_client_def pull_opts_def)
  have "readLimited \<lparr>hs_StatusCode = 200, hs_Body = sample_response, hs_broken = False\<rparr> 65536 = Inr sample_response"
    using len by (simp add: readLimited_def Let_def int64_def)
  then show ?thesis
    using j new http sample_urls(2) sample_response_decodes
    by (simp add: fetch_commands_def opts pull_mgateSummary_def http_Do_def answering_world_def is_2xx_def)
qed

lemma sample_poll:
  "\<exists>h' w'. PollOnce sample_lib (\<lambda>_. False) sample_client (sample_handler, sample_dispatcher, answering_world sample_response) =
     Some (None, sample_client, [], h', sample_dispatcher, w')"
proof -
  obtain v where fetch: "fetch_commands sample_lib sample_client (answering_world sample_response) = (Inr [sample_item], v)"
    using sample_fetch by blast
  have payload: "unmarshal_CommandPayload sample_lib (env_Payload sample_item) = Some (zero_CommandPayload\<lparr>cmd_Action := ''status.snapshot''\<rparr>)"
    by (simp add: sample_item_def unmarshal_CommandPayload_def dec_struct_def set_CommandPayload_def dec_string_def)
  then have own: "own_command sample_lib ''dev-1'' sample_item (zero_CommandPayload\<lparr>cmd_Action := ''status.snapshot''\<rparr>)"
    by (simp add: own_command_def) (simp add: sample_item_def envelopeVersion_def MessageTypeCommand_def)
  obtain r h1 w1 where h: "Handle sample_lib (zero_CommandPayload\<lparr>cmd_Action := ''status.snapshot''\<rparr>) (sample_handler, v) = (r, h1, w1)"
    by (metis prod_cases3)
  have "res_CommandID r = []"
    using Handle_frame(3) [OF sample_handler_ok, of sample_lib "zero_CommandPayload\<lparr>cmd_Action := ''status.snapshot''\<rparr>" v] h
    by (simp add: zero_CommandPayload_def)
  moreover have "po_DeviceID (pc_opts sample_client) = ''dev-1''" by (simp add: sample_client_def pull_opts_def)
  ultimately show ?thesis using fetch h handleEnvelope_own [OF own, of sample_handler v] by (simp add: PollOnce_def)
qed


text \<open>
  Whatever a cloud answers to a poll, the agent starts only the status call of mgate and processes that
  the whitelist allows for a command addressed to this device, and sends only requests to its two
  endpoints that are signed with the device secret; this covers the results of earlier commands that
  leave the outbox meanwhile.
\<close>

theorem poll_confined:
  assumes h: "handler_offline h" and reg: "h_registry h = Some default_registry"
    and d: "pull_dispatcher L etext (pc_opts c) d"
    and mg: "po_MGateStatus (pc_opts c) = None \<or> po_MGateStatus (pc_opts c) = Some (Summary L mg)"
    and run: "PollOnce L ctx c (h, d, w) = Some (e, c', sent, h', d', w')"
  shows "\<exists>procs reqs. w_execs w' = w_execs w @ procs \<and> w_requests w' = w_requests w @ reqs \<and>
    (\<forall>p \<in> set procs. p = mgate_proc mg ''agent-snapshot'' (mo_SnapshotTimeout (mc_opts mg)) \<or>
       (\<exists>env cmd. own_command L (po_DeviceID (pc_opts c)) env cmd \<and> process_allowed h cmd p)) \<and>
    (\<forall>req \<in> set reqs. agent_request L (pc_opts c) (po_PullPath (pc_opts c)) req \<or>
       agent_request L (pc_opts c) (po_ResultPath (pc_opts c)) req)"
  by (rule poll_processes_requests [OF assms])

theorem poll_confined_witness:
  "\<exists>h' w' procs reqs. PollOnce sample_lib (\<lambda>_. False) sample_client (sample_handler, sample_dispatcher, answering_world sample_response) =
     Some (None, sample_client, [], h', sample_dispatcher, w') \<and> w_execs w' = procs \<and> w_requests w' = reqs \<and>
     (\<forall>req \<in> set reqs. agent_request sample_lib pull_opts ''/pull'' req \<or> agent_request sample_lib pull_opts ''/result'' req)"
proof -
  obtain h' w' where run: "PollOnce sample_lib (\<lambda>_. False) sample_client (sample_handler, sample_dispatcher, answering_world sample_response) =
     Some (None, sample_client, [], h', sample_dispatcher, w')" using sample_poll by blast
  have h: "handler_offline sample_handler"
    using sample_handler_ok quiet_runner.offline_runner_axioms by (simp add: handler_offline_def sample_handler_def)
  have reg: "h_registry sample_handler = Some default_registry" by (simp add: sample_handler_def)
  have d: "pull_dispatcher sample_lib (\<lambda>_. ''failed'') (pc_opts sample_client) sample_dispatcher"
    by (simp add: pull_dispatcher_def sample_dispatcher_def sample_client_def)
  have mg: "po_MGateStatus (pc_opts sample_client) = None \<or> po_MGateStatus (pc_opts sample_client) = Some (Summary sample_lib mg)" for mg
    by (simp add: sample_client_def pull_opts_def)
  have opts: "pc_opts sample_client = pull_opts" "po_PullPath pull_opts = ''/pull''" "po_ResultPath pull_opts = ''/result''"
    by (simp_all add: sample_client_def pull_opts_def)
  show ?thesis
    using poll_confined [OF h reg d mg run] run by (auto simp: opts answering_world_def sample_world_def)
qed

end
