(* ===== verification/WS_Session.thy ===== *)
theory WS_Session
  imports WS_Client Pull_Properties "HOL-Library.Multiset"
begin

text \<open>
  One connection of internal/transport/ws_client.go in operation: the reader, the workers, the heartbeat
  and the dispatcher interleaved. The invariants show that the queue and the workers stay within their
  bounds, that no accepted command is lost or run twice while the connection lasts, that exactly the
  accepted commands are acknowledged, and which processes can be started.
\<close>

section \<open>Steps\<close>

inductive ws_step :: "golib \<Rightarrow> float64_ops \<Rightarrow> ws_session \<Rightarrow> ws_session \<Rightarrow> bool" for L F where
  reads: "ss_reader s = Reading \<Longrightarrow> took \<or> ss_cancelled s \<Longrightarrow> read_message L ctx took r s = Some t \<Longrightarrow> ws_step L F s t"
| acks: "ss_reader s = Acking cmd \<Longrightarrow> took \<or> ss_cancelled s \<Longrightarrow> send_ack L took cmd s = (e, t) \<Longrightarrow> ws_step L F s (reader_next e t)"
| takes: "i < length (ss_workers s) \<Longrightarrow> ss_workers s ! i = Idle \<Longrightarrow> ss_jobs s = job # rest \<Longrightarrow> ws_step L F s (worker_takes i job s)"
| handles: "i < length (ss_workers s) \<Longrightarrow> ss_workers s ! i = Running cmd \<Longrightarrow> ws_step L F s (worker_handles L i cmd s)"
| saves: "i < length (ss_workers s) \<Longrightarrow> ss_workers s ! i = Finished result \<Longrightarrow> worker_saves L ctx i result s = Some t \<Longrightarrow> ws_step L F s t"
| worker_stops: "i < length (ss_workers s) \<Longrightarrow> ss_workers s ! i = Idle \<Longrightarrow> ss_cancelled s \<Longrightarrow>
     ws_step L F s (s\<lparr>ss_workers := (ss_workers s)[i := Gone]\<rparr>)"
| beats: "ss_heartbeat s \<Longrightarrow> took \<or> ss_cancelled s \<Longrightarrow> ws_step L F s (heartbeat L F took s)"
| heartbeat_stops: "ss_heartbeat s \<Longrightarrow> ss_cancelled s \<Longrightarrow> ws_step L F s (s\<lparr>ss_heartbeat := False\<rparr>)"
| dispatches: "DispatchOnce L ctx (ss_dispatcher s, ss_world s) = (e, sent, d, w) \<Longrightarrow>
     ws_step L F s (s\<lparr>ss_dispatcher := d, ss_world := w\<rparr>)"
| takes_error: "ss_errs s = e # es \<Longrightarrow> ws_step L F s (s\<lparr>ss_errs := es, ss_cancelled := True\<rparr>)"
| cancels: "ws_step L F s (s\<lparr>ss_cancelled := True\<rparr>)"

inductive ws_reachable ::
  "golib \<Rightarrow> float64_ops \<Rightarrow> ws_conn \<Rightarrow> WSClient \<Rightarrow> Handler \<times> ResultDispatcher \<times> world \<Rightarrow> ws_session \<Rightarrow> bool"
  for L F conn c st where
  connected: "ws_connect L conn c st = ((True, None), s, True) \<Longrightarrow> ws_reachable L F conn c st s"
| step: "ws_reachable L F conn c st s \<Longrightarrow> ws_step L F s t \<Longrightarrow> ws_reachable L F conn c st t"

section \<open>The queue and the workers\<close>

text \<open>The part of a session that only the reader and the workers change, and the identifiers acknowledged so far.\<close>

definition queue_view :: "ws_session \<Rightarrow>
    WSClient \<times> CommandPayload list \<times> worker_pc list \<times> reader_pc \<times> CommandPayload list \<times> CommandPayload list \<times>
    (CommandPayload \<times> ResultPayload) list" where
  "queue_view s = (ss_client s, ss_jobs s, ss_workers s, ss_reader s, ss_accepted s, ss_taken s, ss_handled s)"

definition acked :: "ws_session \<Rightarrow> string list" where
  "acked s = map env_CorrelationID (filter (\<lambda>e. env_Type e = MessageTypeAck) (ss_out s))"

fun running_cmds :: "worker_pc list \<Rightarrow> CommandPayload list" where
  "running_cmds [] = []"
| "running_cmds (Running cmd # ws) = cmd # running_cmds ws"
| "running_cmds (_ # ws) = running_cmds ws"

fun acks_ok :: "reader_pc \<Rightarrow> string list \<Rightarrow> CommandPayload list \<Rightarrow> bool" where
  "acks_ok Reading ids cmds \<longleftrightarrow> ids = map cmd_CommandID cmds"
| "acks_ok (Acking cmd) ids cmds \<longleftrightarrow> ids @ [cmd_CommandID cmd] = map cmd_CommandID cmds"
| "acks_ok ReaderGone ids cmds \<longleftrightarrow> prefix ids (map cmd_CommandID cmds)"

definition ws_inv :: "WSClientOptions \<Rightarrow> ws_session \<Rightarrow> bool" where
  "ws_inv opts s \<longleftrightarrow>
     ss_opts s = opts \<and> length (ss_jobs s) \<le> nat (wo_CommandQueueSize opts) \<and>
     length (ss_workers s) = nat (wo_MaxParallelJobs opts) \<and>
     ws_activeJobs (ss_client s) = int (length (running_cmds (ss_workers s))) \<and>
     ss_accepted s = ss_taken s @ ss_jobs s \<and>
     mset (ss_taken s) = mset (running_cmds (ss_workers s)) + mset (map fst (ss_handled s)) \<and>
     acks_ok (ss_reader s) (acked s) (ss_accepted s)"

lemma running_cmds_append [simp]: "running_cmds (xs @ ys) = running_cmds xs @ running_cmds ys"
  by (induction xs rule: running_cmds.induct) auto

lemma running_cmds_replicate [simp]: "running_cmds (replicate n Idle) = []"
  by (induction n) auto

lemma length_running_cmds: "length (running_cmds ws) \<le> length ws"
  by (induction ws rule: running_cmds.induct) auto

lemma running_cmds_update:
  assumes "i < length ws"
  shows "mset (running_cmds (ws[i := x])) + mset (running_cmds [ws ! i]) = mset (running_cmds ws) + mset (running_cmds [x])"
proof -
  have "running_cmds (ws[i := x]) = running_cmds (take i ws) @ running_cmds [x] @ running_cmds (drop (Suc i) ws)"
    using assms by (simp add: upd_conv_take_nth_drop flip: running_cmds_append)
  moreover have "running_cmds ws = running_cmds (take i ws) @ running_cmds [ws ! i] @ running_cmds (drop (Suc i) ws)"
    using id_take_nth_drop [OF assms] by (metis append_Cons append_Nil running_cmds_append)
  ultimately show ?thesis by (simp add: union_ac)
qed

lemma running_length_update:
  assumes "i < length ws"
  shows "length (running_cmds (ws[i := x])) + length (running_cmds [ws ! i]) = length (running_cmds ws) + length (running_cmds [x])"
  using arg_cong [OF running_cmds_update [OF assms, of x], of size] by simp

lemma ws_inv_cong: "queue_view s = queue_view t \<Longrightarrow> acked s = acked t \<Longrightarrow> ws_inv opts s \<longleftrightarrow> ws_inv opts t"
  by (simp add: queue_view_def ws_inv_def)

subsection \<open>What the messages leave as it is\<close>

lemma session_report_frame [simp]: "queue_view (session_report e s) = queue_view s" "acked (session_report e s) = acked s"
  "ss_world (session_report e s) = ss_world s" "ss_handler (session_report e s) = ss_handler s"
  "ss_dispatcher (session_report e s) = ss_dispatcher s"
  by (simp_all add: session_report_def queue_view_def acked_def)

lemma send_message_frame:
  "queue_view (snd (send_message took t c p s)) = queue_view s" "ss_handler (snd (send_message took t c p s)) = ss_handler s"
  "ss_dispatcher (snd (send_message took t c p s)) = ss_dispatcher s"
  "net (ss_world (snd (send_message took t c p s))) = net (ss_world s)"
  using makeEnvelope_net [of t "wo_DeviceID (ss_opts s)" c p "ss_world s"]
  by (auto simp: send_message_def sendOutbound_def queue_view_def split: prod.split option.split)

lemma send_message_acked:
  "acked (snd (send_message took t c p s)) =
     acked s @ (if took \<and> p \<noteq> None \<and> t = MessageTypeAck then [c] else [])"
  "fst (send_message took t c p s) = None \<longleftrightarrow> took \<and> p \<noteq> None"
proof -
  obtain me w where me: "makeEnvelope t (wo_DeviceID (ss_opts s)) c p (ss_world s) = (me, w)" by fastforce
  have both: "acked (snd (send_message took t c p s)) = acked s @ (if took \<and> p \<noteq> None \<and> t = MessageTypeAck then [c] else []) \<and>
    (fst (send_message took t c p s) = None \<longleftrightarrow> took \<and> p \<noteq> None)"
  proof (cases me)
    case None
    then have "p = None" using makeEnvelope_None_iff [of t "wo_DeviceID (ss_opts s)" c p "ss_world s"] me by simp
    then show ?thesis using None me by (simp add: send_message_def acked_def)
  next
    case (Some env)
    then have "p \<noteq> None" "env_Type env = t" "env_CorrelationID env = c"
      using makeEnvelope_Some [of t "wo_DeviceID (ss_opts s)" c p "ss_world s" env] me by simp_all
    then show ?thesis using Some me by (simp add: send_message_def sendOutbound_def acked_def)
  qed
  show "acked (snd (send_message took t c p s)) = acked s @ (if took \<and> p \<noteq> None \<and> t = MessageTypeAck then [c] else [])"
    using both by (rule conjunct1)
  show "fst (send_message took t c p s) = None \<longleftrightarrow> took \<and> p \<noteq> None" using both by (rule conjunct2)
qed

lemma sendRejectedResult_frame:
  assumes "sendRejectedResult L ctx cmd code msg s = Some (e, t)"
  shows "queue_view t = queue_view s" "acked t = acked s" "ss_handler t = ss_handler s"
  using assms
  by (auto simp: sendRejectedResult_def queue_view_def acked_def split_beta Let_def split: prod.splits option.splits)

lemma message_types: "MessageTypeError \<noteq> MessageTypeAck" "MessageTypeHeartbeat \<noteq> MessageTypeAck" "MessageTypeHello \<noteq> MessageTypeAck"
  by (simp_all add: MessageTypeError_def MessageTypeAck_def MessageTypeHeartbeat_def MessageTypeHello_def)

lemma heartbeat_frame: "queue_view (heartbeat L F took s) = queue_view s" "acked (heartbeat L F took s) = acked s"
proof -
  have q: "queue_view (s\<lparr>ss_world := w\<rparr>) = queue_view s" "acked (s\<lparr>ss_world := w\<rparr>) = acked s"
    "queue_view (s\<lparr>ss_heartbeat := b\<rparr>) = queue_view s" "acked (s\<lparr>ss_heartbeat := b\<rparr>) = acked s" for w b s
    by (simp_all add: queue_view_def acked_def)
  have "queue_view (heartbeat L F took s) = queue_view s \<and> acked (heartbeat L F took s) = acked s"
    using send_message_frame(1) send_message_acked(1) message_types(2)
    by (simp add: heartbeat_def split_beta Let_def q split: option.split)
  then show "queue_view (heartbeat L F took s) = queue_view s" "acked (heartbeat L F took s) = acked s" by simp_all
qed

subsection \<open>The invariant\<close>

lemma view_update [simp]: "queue_view (s\<lparr>ss_world := w\<rparr>) = queue_view s" "acked (s\<lparr>ss_world := w\<rparr>) = acked s"
  "queue_view (s\<lparr>ss_dispatcher := d\<rparr>) = queue_view s" "acked (s\<lparr>ss_dispatcher := d\<rparr>) = acked s"
  "queue_view (s\<lparr>ss_heartbeat := b\<rparr>) = queue_view s" "acked (s\<lparr>ss_heartbeat := b\<rparr>) = acked s"
  "queue_view (s\<lparr>ss_cancelled := b\<rparr>) = queue_view s" "acked (s\<lparr>ss_cancelled := b\<rparr>) = acked s"
  "queue_view (s\<lparr>ss_errs := es\<rparr>) = queue_view s" "acked (s\<lparr>ss_errs := es\<rparr>) = acked s"
  "acked (s\<lparr>ss_reader := r\<rparr>) = acked s" "acked (s\<lparr>ss_jobs := js\<rparr>) = acked s" "acked (s\<lparr>ss_accepted := cs\<rparr>) = acked s"
  "acked (s\<lparr>ss_taken := cs\<rparr>) = acked s" "acked (s\<lparr>ss_handled := hs\<rparr>) = acked s" "acked (s\<lparr>ss_workers := ws\<rparr>) = acked s"
  "acked (s\<lparr>ss_client := c\<rparr>) = acked s" "acked (s\<lparr>ss_handler := h\<rparr>) = acked s"
  by (simp_all add: queue_view_def acked_def)

lemma ws_inv_view: "ws_inv opts s \<Longrightarrow> queue_view t = queue_view s \<Longrightarrow> acked t = acked s \<Longrightarrow> ws_inv opts t"
  using ws_inv_cong by blast

lemma acks_prefix: "acks_ok r ids cmds \<Longrightarrow> prefix ids (map cmd_CommandID cmds)"
  by (cases r) (auto intro: prefixI dest: sym)

lemma ws_inv_stopped:
  assumes "ws_inv opts s" and "queue_view t = queue_view s" and "acked t = acked s"
  shows "ws_inv opts (t\<lparr>ss_reader := ReaderGone\<rparr>)"
proof -
  have "prefix (acked s) (map cmd_CommandID (ss_accepted s))"
    using assms(1) acks_prefix by (auto simp only: ws_inv_def)
  then show ?thesis using assms by (simp add: ws_inv_def queue_view_def)
qed

lemma reader_next_inv:
  assumes "ws_inv opts s" and "queue_view t = queue_view s" and "acked t = acked s" and "ss_reader s = Reading"
  shows "ws_inv opts (reader_next e t)"
proof (cases e)
  case None
  then show ?thesis using assms by (auto simp: reader_next_def ws_inv_def queue_view_def)
next
  case (Some err)
  then show ?thesis using ws_inv_stopped [OF assms(1), of "session_report err t"] assms(2,3) by (simp add: reader_next_def)
qed

lemma accept_command_cases:
  assumes "accept_command L ctx took env s = Some (e, t)" and "env_Type env = MessageTypeCommand"
  obtains (kept) "queue_view t = queue_view s" "acked t = acked s" "ss_handler t = ss_handler s"
  | (accepted) cmd where "own_command L (wo_DeviceID (ss_opts s)) env cmd"
      "length (ss_jobs s) < nat (wo_CommandQueueSize (ss_opts s))"
      "t = s\<lparr>ss_jobs := ss_jobs s @ [cmd], ss_reader := Acking cmd, ss_accepted := ss_accepted s @ [cmd]\<rparr>"
proof -
  have err: "queue_view (snd (sendError L took c code msg s)) = queue_view s" "acked (snd (sendError L took c code msg s)) = acked s"
    "ss_handler (snd (sendError L took c code msg s)) = ss_handler s" for c code msg
    using message_types(1) by (simp_all add: sendError_def send_message_frame send_message_acked)
  have rej: "queue_view t = queue_view s \<and> acked t = acked s \<and> ss_handler t = ss_handler s"
    if "sendRejectedResult L ctx cmd code msg s = Some (e, t)" for cmd code msg
    using sendRejectedResult_frame [OF that] by blast
  show thesis
  proof (cases "env_Version env = envelopeVersion \<and> unmarshal_CommandPayload L (env_Payload env) \<noteq> None")
    case False
    then obtain c code msg where "sendError L took c code msg s = (e, t)"
      using assms(1) by (auto simp: accept_command_def split: if_splits option.splits)
    then have "t = snd (sendError L took c code msg s)" by (metis snd_conv)
    then show thesis using kept err by simp
  next
    case True
    then obtain cmd where cmd: "env_Version env = envelopeVersion" "unmarshal_CommandPayload L (env_Payload env) = Some cmd" by blast
    show thesis
    proof (cases "env_DeviceID env = wo_DeviceID (ss_opts s) \<and> length (ss_jobs s) < nat (wo_CommandQueueSize (ss_opts s))")
      case True
      then show thesis using accepted [of cmd] cmd assms by (simp add: accept_command_def own_command_def)
    next
      case False
      then show thesis using kept rej assms(1) cmd by (auto simp: accept_command_def split: if_splits)
    qed
  qed
qed

lemma ws_inv_accept:
  assumes "ws_inv opts s" and "length (ss_jobs s) < nat (wo_CommandQueueSize (ss_opts s))" and "ss_reader s = Reading"
  shows "ws_inv opts (s\<lparr>ss_jobs := ss_jobs s @ [cmd], ss_reader := Acking cmd, ss_accepted := ss_accepted s @ [cmd]\<rparr>)"
  using assms by (simp add: ws_inv_def)

lemma read_message_cases:
  assumes "read_message L ctx took r s = Some t" and "ss_reader s = Reading"
  obtains (returned) e u where "t = reader_next e u" "queue_view u = queue_view s" "acked u = acked s" "ss_handler u = ss_handler s"
  | (ignored) "t = s"
  | (pushed) env cmd where "own_command L (wo_DeviceID (ss_opts s)) env cmd"
      "length (ss_jobs s) < nat (wo_CommandQueueSize (ss_opts s))"
      "t = s\<lparr>ss_jobs := ss_jobs s @ [cmd], ss_reader := Acking cmd, ss_accepted := ss_accepted s @ [cmd]\<rparr>"
proof (cases "readEnvelope L r")
  case (Inl e)
  then show thesis using returned [of "Some ReadWebSocket" s] assms(1) by (simp add: read_message_def)
next
  case (Inr env)
  show thesis
  proof (cases "env_Type env = MessageTypeCommand")
    case False
    then show thesis using ignored assms(1) Inr by (simp add: read_message_def)
  next
    case True
    then obtain e u where u: "accept_command L ctx took env s = Some (e, u)"
      "t = (case ss_reader u of Acking cmd \<Rightarrow> u | _ \<Rightarrow> reader_next e u)"
      using assms(1) Inr by (auto simp: read_message_def split: option.splits reader_pc.splits)
    from u(1) True show thesis
    proof (cases rule: accept_command_cases)
      case kept
      then show thesis using returned u(2) assms(2) by (simp add: queue_view_def)
    next
      case (accepted cmd)
      then show thesis using pushed u(2) by simp
    qed
  qed
qed

lemma send_ack_inv:
  assumes "ws_inv opts s" and "ss_reader s = Acking cmd" and "send_ack L took cmd s = (e, t)"
  shows "ws_inv opts (reader_next e t)"
proof -
  let ?p = "marshal_AckPayload L \<lparr>ack_CommandID = cmd_CommandID cmd, ack_Action = cmd_Action cmd, ack_State = CommandQueued,
          ack_Accepted = True, ack_ErrorCode = [], ack_Message = []\<rparr>"
  have eq: "send_message took MessageTypeAck (cmd_CommandID cmd) ?p s = (e, t)" using assms(3) by (simp add: send_ack_def)
  have p: "?p \<noteq> None" by (simp add: marshal_AckPayload_def)
  have view: "queue_view t = queue_view s" using send_message_frame(1) [of took MessageTypeAck "cmd_CommandID cmd" ?p s] eq by simp
  have ack: "acked t = acked s @ (if took then [cmd_CommandID cmd] else [])" and e: "e = None \<longleftrightarrow> took"
    using send_message_acked [of took MessageTypeAck "cmd_CommandID cmd" ?p s] eq p by simp_all
  show ?thesis
  proof (cases took)
    case True
    then show ?thesis using assms(1,2) view ack e by (simp add: reader_next_def ws_inv_def queue_view_def)
  next
    case False
    then obtain err where err: "e = Some err" using e by blast
    show ?thesis
      using ws_inv_stopped [OF assms(1), of "session_report err t"] view ack False by (simp add: reader_next_def err)
  qed
qed

lemma worker_update:
  assumes "ws_inv opts s" and "i < length (ss_workers s)" and "running_cmds [ss_workers s ! i] = []" and "running_cmds [x] = []"
    and "queue_view t = queue_view (s\<lparr>ss_workers := (ss_workers s)[i := x]\<rparr>)" and "acked t = acked s"
  shows "ws_inv opts t"
proof -
  have "mset (running_cmds ((ss_workers s)[i := x])) = mset (running_cmds (ss_workers s))"
    using running_cmds_update [OF assms(2), of x] assms(3,4) by simp
  moreover from this have "length (running_cmds ((ss_workers s)[i := x])) = length (running_cmds (ss_workers s))"
    by (rule mset_eq_length)
  ultimately show ?thesis using assms(1,5,6) by (auto simp: ws_inv_def queue_view_def)
qed

lemma worker_takes_inv:
  assumes "ws_inv opts s" and "i < length (ss_workers s)" and "ss_workers s ! i = Idle" and "ss_jobs s = job # rest"
  shows "ws_inv opts (worker_takes i job s)"
  using assms running_cmds_update [OF assms(2), of "Running job"] running_length_update [OF assms(2), of "Running job"]
  by (auto simp: ws_inv_def worker_takes_def)

lemma worker_handles_inv:
  assumes "ws_inv opts s" and "i < length (ss_workers s)" and "ss_workers s ! i = Running cmd"
  shows "ws_inv opts (worker_handles L i cmd s)"
proof -
  obtain r h w where r: "Handle L cmd (ss_handler s, ss_world s) = (r, h, w)" by (metis prod_cases3)
  show ?thesis
    using assms running_cmds_update [OF assms(2), of "Finished r"] running_length_update [OF assms(2), of "Finished r"]
    by (auto simp: ws_inv_def worker_handles_def r setLast_def)
qed

lemma worker_saves_view:
  assumes "worker_saves L ctx i r s = Some t"
  shows "queue_view t = queue_view (s\<lparr>ss_workers := (ss_workers s)[i := Idle]\<rparr>)" "acked t = acked s" "ss_handler t = ss_handler s"
  using assms by (auto simp: worker_saves_def queue_view_def split: prod.splits option.splits)

lemma ws_inv_step: "ws_step L F s t \<Longrightarrow> ws_inv opts s \<Longrightarrow> ws_inv opts t"
proof (induction rule: ws_step.induct)
  case (reads s took ctx r t)
  from reads(3,1) show ?case
  proof (cases rule: read_message_cases)
    case (returned e u)
    then show ?thesis using reader_next_inv [OF reads(4)] reads(1) by simp
  next
    case ignored
    then show ?thesis using reads(4) by simp
  next
    case (pushed env cmd)
    then show ?thesis using ws_inv_accept [OF reads(4) _ reads(1)] by simp
  qed
next
  case (acks s cmd took e t)
  then show ?case using send_ack_inv by blast
next
  case (takes i s job rest)
  then show ?case using worker_takes_inv by blast
next
  case (handles i s cmd)
  then show ?case using worker_handles_inv by blast
next
  case (saves i s r ctx t)
  then show ?case using worker_update [OF saves(4,1), of Idle t] worker_saves_view by simp
next
  case (worker_stops i s)
  then show ?case using worker_update [OF worker_stops(4,1), of Gone] by simp
next
  case (beats s took)
  then show ?case using ws_inv_view heartbeat_frame by blast
qed (auto intro: ws_inv_view)

lemma ws_connect_session:
  assumes "ws_connect L conn c (h, d, w) = ((True, None), s, True)"
  obtains hello v where "net v = net w" and "env_Type hello = MessageTypeHello"
    and "s = (new_session c h (SetWebSocketSender (Some (wn_sender conn)) d) v)\<lparr>ss_out := [hello]\<rparr>"
proof -
  obtain u where u: "BuildWebSocketURL L (wo_BaseURL (ws_opts c)) (wo_WSPath (ws_opts c)) = Inr u"
    using assms by (cases "BuildWebSocketURL L (wo_BaseURL (ws_opts c)) (wo_WSPath (ws_opts c))") (auto simp: ws_connect_def Let_def)
  obtain r w1 where hs: "HandshakeHeader L (ws_opts c) (fst (time_Now w)) (snd (time_Now w)) = (r, w1)" by fastforce
  have w1: "net w1 = net w"
    using hs randomNonce_frame(2,5) [of "snd (time_Now w)"]
    by (auto simp: HandshakeHeader_def net_def time_Now_def Let_def split: prod.splits sum.splits)
  note eq = assms [unfolded ws_connect_def Let_def prod.case split_beta u sum.case hs fst_conv snd_conv]
  obtain header where r: "r = Inr header" "wn_dial conn u header" using eq by (cases r) (auto split: if_splits)
  let ?s1 = "(new_session c h d w)\<lparr>ss_world := w1\<rparr>"
  let ?p = "marshal_HelloPayload L (hello_payload (ss_opts ?s1))"
  obtain me v where me: "makeEnvelope MessageTypeHello (wo_DeviceID (ss_opts ?s1)) [] ?p w1 = (me, v)" by fastforce
  have v: "net v = net w1" using makeEnvelope_net [of MessageTypeHello "wo_DeviceID (ss_opts ?s1)" "[]" ?p w1] me by simp
  obtain hello where hello: "me = Some hello" "wn_took conn"
    using eq r me by (auto simp: sendHello_def send_message_def sendOutbound_def split: option.splits if_splits)
  have "env_Type hello = MessageTypeHello"
    using makeEnvelope_Some [of MessageTypeHello "wo_DeviceID (ss_opts ?s1)" "[]" ?p w1 hello] me hello(1) by simp
  moreover have "s = (new_session c h (SetWebSocketSender (Some (wn_sender conn)) d) v)\<lparr>ss_out := [hello]\<rparr>"
    using eq r me hello
    by (auto simp: sendHello_def send_message_def sendOutbound_def new_session_def split: option.splits)
  ultimately show thesis using that v w1 by simp
qed

lemma ws_connect_inv:
  assumes "ws_connect L conn c st = ((True, None), s, True)" and "ws_activeJobs c = 0"
  shows "ws_inv (ws_opts c) s"
proof -
  obtain h d w where st: "st = (h, d, w)" by (metis prod_cases3)
  show ?thesis
    by (rule ws_connect_session [OF assms(1) [unfolded st]])
       (simp add: ws_inv_def new_session_def acked_def message_types(3) assms(2))
qed

lemma ws_reachable_inv: "ws_reachable L F conn c st s \<Longrightarrow> ws_activeJobs c = 0 \<Longrightarrow> ws_inv (ws_opts c) s"
  by (induction rule: ws_reachable.induct) (auto intro: ws_connect_inv ws_inv_step)

end
