(* ===== verification/WS_Properties.thy ===== *)
theory WS_Properties
  imports WS_Session
begin

text \<open>
  What a WebSocket connection guarantees, for every interleaving of its goroutines and every behaviour of
  the cloud, and a connection on which it is tried.
\<close>

section \<open>Processes\<close>

definition ws_process :: "mgate_Client \<Rightarrow> Handler \<Rightarrow> CommandPayload list \<Rightarrow> proc \<Rightarrow> bool" where
  "ws_process mg h cmds p \<longleftrightarrow> p = mgate_proc mg ''agent-snapshot'' (mo_SnapshotTimeout (mc_opts mg)) \<or>
     (\<exists>cmd \<in> set cmds. process_allowed h cmd p)"

text \<open>What has happened outside since the connection was opened, and what the later steps rely on.\<close>

definition ws_safe :: "golib \<Rightarrow> mgate_Client \<Rightarrow> Handler \<Rightarrow> world \<Rightarrow> ws_session \<Rightarrow> bool" where
  "ws_safe L mg h0 w0 s \<longleftrightarrow>
     handler_offline (ss_handler s) \<and> h_registry (ss_handler s) = Some default_registry \<and>
     h_mgatePath (ss_handler s) = h_mgatePath h0 \<and> h_allowActions (ss_handler s) = h_allowActions h0 \<and>
     sender_keeps (=) (ss_dispatcher s) \<and>
     (\<forall>cmd \<in> set (ss_accepted s). \<exists>env. own_command L (wo_DeviceID (ss_opts s)) env cmd) \<and>
     (\<forall>(cmd, r) \<in> set (ss_handled s). res_CommandID r = cmd_CommandID cmd \<and> final_state (res_State r)) \<and>
     (\<exists>procs. net (ss_world s) = (w_execs w0 @ procs, w_requests w0) \<and> (\<forall>p \<in> set procs. ws_process mg h0 (ss_taken s) p))"

lemma ws_safe_more:
  assumes "ws_safe L mg h0 w0 s" and "net (ss_world t) = (w_execs (ss_world s) @ procs, w_requests (ss_world s))"
    and "\<forall>p \<in> set procs. ws_process mg h0 (ss_taken t) p" and "set (ss_taken s) \<subseteq> set (ss_taken t)"
  shows "\<exists>procs. net (ss_world t) = (w_execs w0 @ procs, w_requests w0) \<and> (\<forall>p \<in> set procs. ws_process mg h0 (ss_taken t) p)"
proof -
  obtain ps where ps: "net (ss_world s) = (w_execs w0 @ ps, w_requests w0)" "\<forall>p \<in> set ps. ws_process mg h0 (ss_taken s) p"
    using assms(1) by (auto simp: ws_safe_def)
  have "\<forall>p \<in> set ps. ws_process mg h0 (ss_taken t) p" using ps(2) assms(4) by (auto simp: ws_process_def)
  then show ?thesis using assms(2,3) ps(1) by (intro exI [of _ "ps @ procs"]) (auto simp: net_def)
qed

text \<open>A step that starts nothing and leaves queue, workers and handler alone.\<close>

lemma ws_safe_quiet:
  assumes "ws_safe L mg h0 w0 s" and "net (ss_world t) = net (ss_world s)" and "ss_handler t = ss_handler s"
    and "ss_opts t = ss_opts s" and "ss_accepted t = ss_accepted s" and "ss_taken t = ss_taken s" and "ss_handled t = ss_handled s"
    and "sender (ss_dispatcher t) = sender (ss_dispatcher s)"
  shows "ws_safe L mg h0 w0 t"
  using assms by (simp add: ws_safe_def sender_keeps_def)

lemma sendRejectedResult_net:
  assumes "sendRejectedResult L ctx cmd code msg s = Some (e, t)" and "sender_keeps (=) (ss_dispatcher s)"
  shows "net (ss_world t) = net (ss_world s)" "sender (ss_dispatcher t) = sender (ss_dispatcher s)"
proof -
  let ?r = "fst (rejectedResult (cmd_CommandID cmd) (cmd_Action cmd) code msg (ss_world s))"
  let ?w = "snd (rejectedResult (cmd_CommandID cmd) (cmd_Action cmd) code msg (ss_world s))"
  have w: "net ?w = net (ss_world s)" by (simp add: rejectedResult_def split_beta Let_def net_simps)
  obtain me v where me: "makeEnvelope MessageTypeResult (wo_DeviceID (ss_opts s)) (cmd_CommandID cmd) (marshal_ResultPayload L ?r) ?w = (me, v)"
    by fastforce
  have v: "net v = net ?w" using makeEnvelope_net [of MessageTypeResult "wo_DeviceID (ss_opts s)" "cmd_CommandID cmd" "marshal_ResultPayload L ?r" ?w] me by simp
  have "net (ss_world t) = net (ss_world s) \<and> sender (ss_dispatcher t) = sender (ss_dispatcher s)"
  proof (cases me)
    case None
    then show ?thesis using assms(1) me v w by (auto simp: sendRejectedResult_def split_beta Let_def)
  next
    case (Some env)
    obtain e' sent d u where enq: "Enqueue L ctx env (ss_dispatcher s, v) = Some (e', sent, d, u)"
      using assms(1) me Some by (cases "Enqueue L ctx env (ss_dispatcher s, v)") (auto simp: sendRejectedResult_def split_beta Let_def)
    have "t = s\<lparr>ss_dispatcher := d, ss_world := u\<rparr>" using assms(1) me Some enq by (simp add: sendRejectedResult_def split_beta Let_def)
    then show ?thesis using Enqueue_net [OF assms(2) enq] v w by simp
  qed
  then show "net (ss_world t) = net (ss_world s)" "sender (ss_dispatcher t) = sender (ss_dispatcher s)" by blast+
qed

lemma accept_command_net:
  assumes "accept_command L ctx took env s = Some (e, t)" and "sender_keeps (=) (ss_dispatcher s)"
  shows "net (ss_world t) = net (ss_world s) \<and> sender (ss_dispatcher t) = sender (ss_dispatcher s)"
proof (cases "\<exists>cmd code msg. sendRejectedResult L ctx cmd code msg s = Some (e, t)")
  case True
  then show ?thesis using sendRejectedResult_net [OF _ assms(2)] by blast
next
  case False
  then have "net (ss_world t) = net (ss_world s) \<and> ss_dispatcher t = ss_dispatcher s"
    using assms(1) send_message_frame(3,4)
    by (auto simp: accept_command_def sendError_def split: if_splits option.splits) (metis snd_conv)+
  then show ?thesis by simp
qed

lemma reader_next_frame: "ss_world (reader_next e s) = ss_world s" "ss_dispatcher (reader_next e s) = ss_dispatcher s"
  "ss_handler (reader_next e s) = ss_handler s" "ss_client (reader_next e s) = ss_client s"
  "ss_accepted (reader_next e s) = ss_accepted s" "ss_taken (reader_next e s) = ss_taken s" "ss_handled (reader_next e s) = ss_handled s"
  by (simp_all add: reader_next_def session_report_def split: option.split)

lemma read_message_net:
  assumes "read_message L ctx took r s = Some t" and "sender_keeps (=) (ss_dispatcher s)"
  shows "net (ss_world t) = net (ss_world s)" and "sender (ss_dispatcher t) = sender (ss_dispatcher s)"
proof -
  have "net (ss_world t) = net (ss_world s) \<and> sender (ss_dispatcher t) = sender (ss_dispatcher s)"
    using assms(1) accept_command_net [OF _ assms(2)]
    by (auto simp: read_message_def reader_next_frame split: sum.splits if_splits option.splits reader_pc.splits)
  then show "net (ss_world t) = net (ss_world s)" and "sender (ss_dispatcher t) = sender (ss_dispatcher s)" by blast+
qed

lemma worker_saves_net:
  assumes "worker_saves L ctx i r s = Some t" and "sender_keeps (=) (ss_dispatcher s)"
  shows "net (ss_world t) = net (ss_world s)" and "sender (ss_dispatcher t) = sender (ss_dispatcher s)"
proof -
  obtain me v where me: "makeEnvelope MessageTypeResult (wo_DeviceID (ss_opts s)) (res_CommandID r) (marshal_ResultPayload L r) (ss_world s) = (me, v)"
    by fastforce
  have v: "net v = net (ss_world s)"
    using makeEnvelope_net [of MessageTypeResult "wo_DeviceID (ss_opts s)" "res_CommandID r" "marshal_ResultPayload L r" "ss_world s"] me by simp
  have "net (ss_world t) = net (ss_world s) \<and> sender (ss_dispatcher t) = sender (ss_dispatcher s)"
  proof (cases me)
    case None
    then show ?thesis using assms(1) me v by (auto simp: worker_saves_def)
  next
    case (Some env)
    obtain e' sent d u where enq: "Enqueue L ctx env (ss_dispatcher s, v) = Some (e', sent, d, u)"
      using assms(1) me Some by (cases "Enqueue L ctx env (ss_dispatcher s, v)") (auto simp: worker_saves_def)
    then have "ss_world t = u" "ss_dispatcher t = d" using assms(1) me Some by (auto simp: worker_saves_def)
    then show ?thesis using Enqueue_net [OF assms(2) enq] v by simp
  qed
  then show "net (ss_world t) = net (ss_world s)" and "sender (ss_dispatcher t) = sender (ss_dispatcher s)" by blast+
qed

lemma heartbeat_net:
  assumes "wo_MGateStatus (ss_opts s) = None \<or> wo_MGateStatus (ss_opts s) = Some (Summary L mg)"
  shows "\<exists>procs. net (ss_world (heartbeat L F took s)) = (w_execs (ss_world s) @ procs, w_requests (ss_world s)) \<and>
      set procs \<subseteq> {mgate_proc mg ''agent-snapshot'' (mo_SnapshotTimeout (mc_opts mg))}"
    and "ss_dispatcher (heartbeat L F took s) = ss_dispatcher s" and "ss_handler (heartbeat L F took s) = ss_handler s"
proof -
  let ?w1 = "snd (Dispatcher_PendingCount L (ss_dispatcher s) (snd (time_Now (ss_world s))))"
  let ?w2 = "snd (ws_mgateSummary (ss_opts s) ?w1)"
  have w1: "net ?w1 = net (ss_world s)" by (simp add: Dispatcher_PendingCount_def net_simps)
  have "\<exists>procs. net ?w2 = (w_execs ?w1 @ procs, w_requests ?w1) \<and> set procs \<subseteq> {mgate_proc mg ''agent-snapshot'' (mo_SnapshotTimeout (mc_opts mg))}"
    using assms Summary_execs [of L mg ?w1] Summary_frame(4) [of L mg ?w1]
    by (auto simp: ws_mgateSummary_def net_def split_beta Let_def intro: exI [of _ "[]"])
  moreover have "w_execs ?w1 = w_execs (ss_world s)" "w_requests ?w1 = w_requests (ss_world s)" using w1 by (simp_all add: net_def)
  moreover have "net (ss_world (heartbeat L F took s)) = net ?w2"
    using send_message_frame(4) by (simp add: heartbeat_def split_beta Let_def split: option.split)
  ultimately show "\<exists>procs. net (ss_world (heartbeat L F took s)) = (w_execs (ss_world s) @ procs, w_requests (ss_world s)) \<and>
      set procs \<subseteq> {mgate_proc mg ''agent-snapshot'' (mo_SnapshotTimeout (mc_opts mg))}" by simp
  show "ss_dispatcher (heartbeat L F took s) = ss_dispatcher s" "ss_handler (heartbeat L F took s) = ss_handler s"
    using send_message_frame(2,3) by (simp_all add: heartbeat_def split_beta Let_def split: option.split)
qed

section \<open>Every step keeps to them\<close>

lemma ws_safe_reads:
  assumes "ws_safe L mg h0 w0 s" and "ss_reader s = Reading" and "read_message L ctx took r s = Some t"
  shows "ws_safe L mg h0 w0 t"
proof -
  have keeps: "sender_keeps (=) (ss_dispatcher s)" using assms(1) by (simp add: ws_safe_def)
  note net = read_message_net [OF assms(3) keeps]
  from assms(3,2) show ?thesis
  proof (cases rule: read_message_cases)
    case (returned e u)
    then show ?thesis
      using ws_safe_quiet [OF assms(1) net(1) _ _ _ _ _ net(2)] by (simp add: reader_next_frame queue_view_def)
  next
    case ignored
    then show ?thesis using assms(1) by simp
  next
    case (pushed env cmd)
    then show ?thesis using assms(1) by (auto simp: ws_safe_def)
  qed
qed

lemma ws_safe_handles:
  assumes safe: "ws_safe L mg h0 w0 s" and cmd: "cmd \<in> set (ss_taken s)"
  shows "ws_safe L mg h0 w0 (worker_handles L i cmd s)"
proof -
  let ?t = "worker_handles L i cmd s"
  have h: "handler_offline (ss_handler s)" "handler_ok (ss_handler s)" and reg: "h_registry (ss_handler s) = Some default_registry"
    using safe by (auto simp: ws_safe_def handler_offline_def)
  obtain r h1 w1 where hd: "Handle L cmd (ss_handler s, ss_world s) = (r, h1, w1)" by (metis prod_cases3)
  let ?ps = "decided_processes L (ss_handler s) (reserve_time L cmd (ss_handler s) (ss_world s)) cmd"
  have net: "net w1 = (w_execs (ss_world s) @ ?ps, w_requests (ss_world s))"
    using Handle_execs [OF h(2), of L cmd "ss_world s"] Handle_offline(1) [OF h(1), of L cmd "ss_world s"] by (simp add: hd net_def)
  have t: "ss_world ?t = w1" "ss_taken ?t = ss_taken s" "ss_handler ?t = h1" "ss_accepted ?t = ss_accepted s"
    "ss_handled ?t = ss_handled s @ [(cmd, r)]" "ss_opts ?t = ss_opts s" "ss_dispatcher ?t = ss_dispatcher s"
    by (simp_all add: worker_handles_def hd setLast_def)
  have allowed: "process_allowed (ss_handler s) cmd p = process_allowed h0 cmd p" for p
    by (rule process_allowed_cong) (use safe in \<open>simp_all add: ws_safe_def\<close>)
  have "\<forall>p \<in> set ?ps. ws_process mg h0 (ss_taken s) p"
    using decided_allowed [OF reg, of _ L _ cmd] cmd by (auto simp: ws_process_def allowed)
  then have procs: "\<exists>procs. net (ss_world ?t) = (w_execs w0 @ procs, w_requests w0) \<and> (\<forall>p \<in> set procs. ws_process mg h0 (ss_taken ?t) p)"
    using ws_safe_more [OF safe, of ?t ?ps] net by (simp add: t)
  have "res_CommandID r = cmd_CommandID cmd" "final_state (res_State r)"
    using handler.handle_id [OF h(2), of L cmd "ss_world s"] handler.handle_final [OF h(2), of L cmd "ss_world s"] by (simp_all add: hd)
  moreover have "handler_offline h1" "h_registry h1 = Some default_registry" "h_mgatePath h1 = h_mgatePath h0" "h_allowActions h1 = h_allowActions h0"
    using Handle_offline(2) [OF h(1), of L cmd "ss_world s"] after_Handle_frame [OF h(2), of L cmd "ss_world s"] safe
    by (auto simp: hd ws_safe_def)
  ultimately show ?thesis using safe procs unfolding ws_safe_def t by auto
qed

lemma running_taken:
  assumes "ws_inv opts s" and "i < length (ss_workers s)" and "ss_workers s ! i = Running cmd"
  shows "cmd \<in> set (ss_taken s)"
proof -
  have "cmd \<in># mset (running_cmds (ss_workers s))"
    using assms(2,3) running_cmds_update [OF assms(2), of Idle] by (metis add_mset_add_single add_0_right insert_noteq_member
        mset.simps(1) mset.simps(2) running_cmds.simps(1,2,3) union_iff union_single_eq_member)
  then have "cmd \<in># mset (ss_taken s)" using assms(1) by (simp add: ws_inv_def)
  then show ?thesis by simp
qed

lemma ws_safe_step:
  assumes "ws_step L F s t" and "ws_safe L mg h0 w0 s" and "ws_inv opts s"
    and mg: "wo_MGateStatus opts = None \<or> wo_MGateStatus opts = Some (Summary L mg)"
  shows "ws_safe L mg h0 w0 t"
  using assms(1-3)
proof (induction rule: ws_step.induct)
  case (reads s took ctx r t)
  then show ?case using ws_safe_reads by blast
next
  case (acks s cmd took e t)
  then show ?case
    using ws_safe_quiet [OF acks(4), of "reader_next e t"] send_message_frame
    by (auto simp: reader_next_frame send_ack_def queue_view_def) (metis (no_types, lifting) prod.inject snd_conv)+
next
  case (takes i s job rest)
  then have "\<exists>procs. net (ss_world s) = (w_execs w0 @ procs, w_requests w0) \<and> (\<forall>p \<in> set procs. ws_process mg h0 (ss_taken s @ [job]) p)"
    using ws_safe_more [OF takes(4), of "worker_takes i job s" "[]"] by (simp add: worker_takes_def net_def subset_insertI)
  then show ?case using takes(4) by (simp add: ws_safe_def worker_takes_def)
next
  case (handles i s cmd)
  then show ?case using ws_safe_handles running_taken by blast
next
  case (saves i s r ctx t)
  then have keeps: "sender_keeps (=) (ss_dispatcher s)" by (simp add: ws_safe_def)
  show ?case
    using ws_safe_quiet [OF saves(4) worker_saves_net(1) [OF saves(3) keeps] _ _ _ _ _ worker_saves_net(2) [OF saves(3) keeps]]
      worker_saves_view [OF saves(3)] by (simp add: queue_view_def)
next
  case (beats s took)
  have opts: "ss_opts s = opts" using beats(4) by (simp add: ws_inv_def)
  note hb = heartbeat_net [of s L mg F took, unfolded opts, OF mg]
  have view: "ss_client (heartbeat L F took s) = ss_client s" "ss_taken (heartbeat L F took s) = ss_taken s"
    "ss_accepted (heartbeat L F took s) = ss_accepted s" "ss_handled (heartbeat L F took s) = ss_handled s"
    using heartbeat_frame(1) [of L F took s] by (simp_all add: queue_view_def)
  obtain procs where procs: "net (ss_world (heartbeat L F took s)) = (w_execs (ss_world s) @ procs, w_requests (ss_world s))"
    "set procs \<subseteq> {mgate_proc mg ''agent-snapshot'' (mo_SnapshotTimeout (mc_opts mg))}" using hb(1) by blast
  have "\<forall>p \<in> set procs. ws_process mg h0 (ss_taken s) p" using procs(2) by (auto simp: ws_process_def)
  then show ?case
    using ws_safe_more [OF beats(3), of "heartbeat L F took s" procs] procs(1) beats(3) hb(2,3) view by (simp add: ws_safe_def)
next
  case (dispatches ctx s e sent d w)
  then have keeps: "sender_keeps (=) (ss_dispatcher s)" by (simp add: ws_safe_def)
  show ?case using ws_safe_quiet [OF dispatches(2)] DispatchOnce_net [OF keeps dispatches(1)] by simp
qed (auto intro: ws_safe_quiet)

lemma ws_connect_safe:
  assumes "ws_connect L conn c (h, d, w) = ((True, None), s, True)"
    and "handler_offline h" and "h_registry h = Some default_registry" and "\<forall>r w. net (snd (wn_sender conn r w)) = net w"
  shows "ws_safe L mg h w s"
proof -
  obtain hello v where s: "net v = net w" "s = (new_session c h (SetWebSocketSender (Some (wn_sender conn)) d) v)\<lparr>ss_out := [hello]\<rparr>"
    using ws_connect_session [OF assms(1)] .
  have "sender_keeps (=) (ss_dispatcher s)"
    using assms(4) by (simp add: s(2) new_session_def SetWebSocketSender_def sender_keeps_def sender_def reflp_def transp_def)
  then show ?thesis using s assms(2,3) by (simp add: ws_safe_def new_session_def net_def)
qed

lemma ws_reachable_safe:
  assumes "ws_reachable L F conn c (h, d, w) s" and "ws_activeJobs c = 0"
    and "handler_offline h" and "h_registry h = Some default_registry" and "\<forall>r w. net (snd (wn_sender conn r w)) = net w"
    and "wo_MGateStatus (ws_opts c) = None \<or> wo_MGateStatus (ws_opts c) = Some (Summary L mg)"
  shows "ws_safe L mg h w s"
  using assms(1)
proof (induction rule: ws_reachable.induct)
  case (connected s)
  then show ?case using ws_connect_safe assms(3-5) by blast
next
  case (step s t)
  then show ?case using ws_safe_step [OF step(2,3) ws_reachable_inv [OF step(1) assms(2)] assms(6)] by blast
qed

section \<open>A connection\<close>

definition ws_sample_client :: WSClient where
  "ws_sample_client = \<lparr>ws_opts = \<lparr>wo_BaseURL = ''https://cloud'', wo_WSPath = ''/ws'', wo_RequestTimeout = 15 * Second,
       wo_HeartbeatInterval = 30 * Second, wo_MaxMessageBytes = 65536, wo_CommandQueueSize = 1, wo_OutboundSize = 32,
       wo_MaxParallelJobs = 1, wo_MaxOutputBytes = 1024, wo_ReconnectMinDelay = 0, wo_ReconnectMaxDelay = 0, wo_DeviceID = ''dev-1'',
       wo_TenantID = ''t'', wo_DeviceSecret = ''s'', wo_AgentVersion = ''v'', wo_DeviceName = ''n'', wo_AllowedActions = [],
       wo_PullFallback = True, wo_Handler = Some (), wo_MGateStatus = None, wo_HealthEvents = None, wo_Dispatcher = Some ()\<rparr>,
     ws_startedAt = 0, ws_activeJobs = 0, ws_lastCommandID = [], ws_lastCommandState = []\<rparr>"

definition ws_sample_mgate :: mgate_Client where
  "ws_sample_mgate = \<lparr>mc_opts = \<lparr>mo_Path = [], mo_CapabilitiesTimeout = 0, mo_SnapshotTimeout = 0\<rparr>\<rparr>"

definition hello_ack :: json where
  "hello_ack = JObj [(''version'', JStr envelopeVersion), (''type'', JStr MessageTypeHelloAck), (''payload'', JObj [(''accepted'', JBool True)])]"

definition ws_sample_command :: CommandPayload where
  "ws_sample_command = zero_CommandPayload\<lparr>cmd_CommandID := ''c1'', cmd_Action := ''status.snapshot''\<rparr>"

definition command_doc :: json where
  "command_doc = JObj [(''version'', JStr envelopeVersion), (''type'', JStr MessageTypeCommand), (''device_id'', JStr ''dev-1''),
     (''payload'', JObj [(''command_id'', JStr ''c1''), (''action'', JStr ''status.snapshot'')])]"

definition ws_sample_conn :: ws_conn where
  "ws_sample_conn = \<lparr>wn_dial = (\<lambda>_ _. True), wn_took = True, wn_first = Inr (True, enc_json hello_ack), wn_sender = (\<lambda>r w. (None, w))\<rparr>"

lemma fold_accepted: "fold_name ''accepted'' = ''accepted''"
  by code_simp

lemma hello_ack_accepted: "waitHelloAck sample_lib (Inr (True, enc_json hello_ack)) = None"
  by (simp add: fold_accepted waitHelloAck_def readEnvelope_def sample_lib_def hello_ack_def unmarshal_Envelope_def dec_defs set_Envelope_def
      unmarshal_HelloAckPayload_def set_HelloAckPayload_def zero_HelloAckPayload_def zero_Envelope_def del: enc_json.simps)

lemma sample_connects:
  "\<exists>s. ws_connect sample_lib ws_sample_conn ws_sample_client (sample_handler, sample_dispatcher, sample_world) = ((True, None), s, True)"
proof -
  obtain u where u: "BuildWebSocketURL sample_lib ''https://cloud'' ''/ws'' = Inr u"
    by (simp add: BuildWebSocketURL_def with_path_def url_IsAbs_def sample_lib_def sample_url_parse_def)
  obtain header w1 where hs: "HandshakeHeader sample_lib (ws_opts ws_sample_client) (fst (time_Now sample_world)) (snd (time_Now sample_world)) = (Inr header, w1)"
    by (simp add: HandshakeHeader_def randomNonce_def rand_Read_def time_Now_def sample_world_def Let_def)
  have opts: "wo_BaseURL (ws_opts ws_sample_client) = ''https://cloud''" "wo_WSPath (ws_opts ws_sample_client) = ''/ws''"
    by (simp_all add: ws_sample_client_def)
  show ?thesis
    using hello_ack_accepted
    by (simp add: ws_connect_def Let_def split_beta opts u hs ws_sample_conn_def sendHello_def send_message_def sendOutbound_def
        makeEnvelope_def marshal_HelloPayload_def split: option.split)
qed

text \<open>The connection after its reader took one command.\<close>

lemma sample_session:
  "\<exists>s. ws_reachable sample_lib sample_floats ws_sample_conn ws_sample_client (sample_handler, sample_dispatcher, sample_world) s \<and>
     ss_jobs s = [ws_sample_command] \<and> ss_reader s = Acking ws_sample_command"
proof -
  obtain s where s: "ws_connect sample_lib ws_sample_conn ws_sample_client (sample_handler, sample_dispatcher, sample_world) = ((True, None), s, True)"
    using sample_connects by blast
  then have r: "ws_reachable sample_lib sample_floats ws_sample_conn ws_sample_client (sample_handler, sample_dispatcher, sample_world) s"
    by (rule ws_reachable.connected)
  have start: "ss_reader s = Reading" "ss_jobs s = []" "ss_client s = ws_sample_client"
    by (rule ws_connect_session [OF s], simp add: new_session_def)+
  let ?env = "zero_Envelope\<lparr>env_Version := envelopeVersion, env_Type := MessageTypeCommand, env_DeviceID := ''dev-1'',
     env_Payload := Some (JObj [(''command_id'', JStr ''c1''), (''action'', JStr ''status.snapshot'')])\<rparr>"
  have env: "readEnvelope sample_lib (Inr (True, enc_json command_doc)) = Inr ?env"
    by (simp add: readEnvelope_def sample_lib_def command_doc_def unmarshal_Envelope_def dec_defs set_Envelope_def
        zero_Envelope_def del: enc_json.simps)
  have cmd: "unmarshal_CommandPayload sample_lib (env_Payload ?env) = Some ws_sample_command"
    by (simp add: unmarshal_CommandPayload_def dec_defs set_CommandPayload_def ws_sample_command_def)
  let ?t = "s\<lparr>ss_jobs := [ws_sample_command], ss_reader := Acking ws_sample_command, ss_accepted := ss_accepted s @ [ws_sample_command]\<rparr>"
  have "read_message sample_lib (\<lambda>_. False) True (Inr (True, enc_json command_doc)) s = Some ?t"
    using env cmd start by (simp add: read_message_def accept_command_def ws_sample_client_def)
  then have "ws_step sample_lib sample_floats s ?t" using start(1) ws_step.reads by blast
  then have "ws_reachable sample_lib sample_floats ws_sample_conn ws_sample_client (sample_handler, sample_dispatcher, sample_world) ?t"
    by (rule ws_reachable.step [OF r])
  then show ?thesis by (intro exI [of _ ?t]) simp
qed

section \<open>Properties\<close>

text \<open>
  C33: on a WebSocket connection opened while no job of an earlier one runs, whatever the cloud sends and
  however reader, workers, heartbeat and dispatcher interleave: the job queue stays within its capacity;
  activeJobs is the number of workers inside the handler, at most one for each configured parallel job;
  the commands accepted are, in order, those the workers took and those still in the queue, and those taken
  are those handled or in a worker, each once; and the acknowledgements sent are those of the accepted
  commands, in their order, complete whenever the reader waits for the next message.
\<close>

theorem ws_session_bounded:
  assumes "ws_reachable L F conn c st s" and "ws_activeJobs c = 0"
  shows "length (ss_jobs s) \<le> nat (wo_CommandQueueSize (ws_opts c)) \<and>
    ws_activeJobs (ss_client s) = int (length (running_cmds (ss_workers s))) \<and>
    length (running_cmds (ss_workers s)) \<le> nat (wo_MaxParallelJobs (ws_opts c)) \<and>
    ss_accepted s = ss_taken s @ ss_jobs s \<and>
    mset (ss_taken s) = mset (running_cmds (ss_workers s)) + mset (map fst (ss_handled s)) \<and>
    prefix (acked s) (map cmd_CommandID (ss_accepted s)) \<and>
    (ss_reader s = Reading \<longrightarrow> acked s = map cmd_CommandID (ss_accepted s))"
proof -
  have inv: "ws_inv (ws_opts c) s" using assms by (rule ws_reachable_inv)
  have acks: "acks_ok (ss_reader s) (acked s) (ss_accepted s)" using inv unfolding ws_inv_def by blast
  show ?thesis
    using inv length_running_cmds [of "ss_workers s"] acks_prefix [OF acks] acks unfolding ws_inv_def
    by (intro conjI) (auto simp only: acks_ok.simps)
qed

theorem ws_session_bounded_witness:
  "\<exists>s :: ws_session. ss_jobs s = [ws_sample_command] \<and> length (ss_jobs s) \<le> nat 1 \<and> ss_accepted s = ss_taken s @ [ws_sample_command]"
proof -
  obtain s where s: "ws_reachable sample_lib sample_floats ws_sample_conn ws_sample_client (sample_handler, sample_dispatcher, sample_world) s"
    "ss_jobs s = [ws_sample_command]" using sample_session by blast
  show ?thesis using ws_session_bounded [OF s(1)] s(2) by (auto simp: ws_sample_client_def intro!: exI [of _ s])
qed



end
