(* ===== verification/App.thy ===== *)
theory App
  imports Manager Identity WS_Properties
begin

text \<open>
  internal/app/app.go: how the agent is put together from its configuration, and internal/logx, the level
  of its logger. The lemmas show what the assembled agent is made of: the whitelist of the configuration
  over the built-in actions, options in their ranges, and a pull sender of its own, so that the theorems
  about the transports apply to it.
\<close>

unbundle bit_operations_syntax

section \<open>Constants, paths, levels\<close>

definition app_Version :: string where "app_Version = ''v0.1.0''"
definition app_Name :: string where "app_Name = ''mgate-agent''"

text \<open>filepath.Join gives a cleaned path as text.\<close>

fun join_slash :: "string list \<Rightarrow> string" where
  "join_slash [] = []"
| "join_slash [c] = c"
| "join_slash (c # cs) = c @ ''/'' @ join_slash cs"

definition path_string :: "path \<Rightarrow> string" where
  "path_string p = (if fst p then ''/'' @ join_slash (snd p) else if snd p = [] then ''.'' else join_slash (snd p))"

definition filepath_Join :: "string \<Rightarrow> string \<Rightarrow> string" where
  "filepath_Join dir name = path_string (path_join dir name)"

datatype slog_level = LevelDebug | LevelInfo | LevelWarn | LevelError

definition logx_New :: "string \<Rightarrow> slog_level" where
  "logx_New level =
     (if level = ''debug'' then LevelDebug
      else if level = ''warn'' then LevelWarn
      else if level = ''error'' then LevelError
      else LevelInfo)"

section \<open>Loading\<close>

datatype app_error =
    ConfigFailed config_error
  | CredentialsFailed credentials_error
  | RegistryFailed spec_error
  | AllowFailed registry_error
  | OutboxStoreFailed outbox_error
  | DispatcherFailed dispatcher_error
  | HandlerFailed handler_error
  | ManagerFailed manager_error
  | TransportFailed transport_error
  | ErrUsage
  | ErrCheckFailed

definition loadRuntime ::
  "golib \<Rightarrow> yaml_decoder \<Rightarrow> string \<Rightarrow> string \<Rightarrow> world \<Rightarrow> (app_error + Config \<times> Credentials \<times> Registry) \<times> world" where
  "loadRuntime L yaml goos configPath w =
     (case config_Load L yaml configPath w of
        (Inl e, w) \<Rightarrow> (Inl (ConfigFailed e), w)
      | (Inr cfg, w) \<Rightarrow>
          (case identity_Load L goos (sc_CredentialsFile (cfg_Security cfg)) w of
             (Inl e, w) \<Rightarrow> (Inl (CredentialsFailed e), w)
           | (Inr cred, w) \<Rightarrow>
               (case NewDefaultRegistry of
                  Inl e \<Rightarrow> (Inl (RegistryFailed e), w)
                | Inr registry \<Rightarrow>
                    (case ValidateAllowedActions (Some registry) (sc_AllowActions (cfg_Security cfg)) of
                       Some e \<Rightarrow> (Inl (AllowFailed e), w)
                     | None \<Rightarrow> (Inr (cfg, cred, registry), w)))))"

datatype path_error = PathMissing os_error | PathIsDir | PathNotExecutable

definition checkMGatePath :: "string \<Rightarrow> string \<Rightarrow> world \<Rightarrow> path_error option \<times> world" where
  "checkMGatePath goos path w =
     (case os_Stat (clean_path path) w of
        (Inl e, w) \<Rightarrow> (Some (PathMissing e), w)
      | (Inr FDir, w) \<Rightarrow> (Some PathIsDir, w)
      | (Inr (FFile mode content), w) \<Rightarrow>
          ((if goos \<noteq> ''windows'' \<and> mode AND 73 = 0 then Some PathNotExecutable else None), w))"

section \<open>Assembling the agent\<close>

text \<open>time.Duration of a number of seconds, at 64 bits.\<close>

definition seconds :: "int \<Rightarrow> duration" where
  "seconds n = wrap64 (n * Second)"

definition app_mgate :: "Config \<Rightarrow> mgate_Client" where
  "app_mgate cfg = NewClient \<lparr>mo_Path = ac_MGatePath (cfg_Agent cfg), mo_CapabilitiesTimeout = 2 * Second, mo_SnapshotTimeout = 2 * Second\<rparr>"

definition app_store_options :: "Config \<Rightarrow> StoreOptions" where
  "app_store_options cfg = \<lparr>so_Dir = filepath_Join (ac_WorkDir (cfg_Agent cfg)) ''outbox'', so_MaxRecords = 0, so_MaxBytes = 0,
     so_Audit = Some (NewWriter (lc_AuditFile (cfg_Logging cfg)))\<rparr>"

definition app_handler_options :: "Config \<Rightarrow> Registry \<Rightarrow> Options" where
  "app_handler_options cfg registry = \<lparr>opt_Registry = Some registry, opt_AllowActions = sc_AllowActions (cfg_Security cfg),
     opt_Audit = Some (NewWriter (lc_AuditFile (cfg_Logging cfg))), opt_Dedupe = None, opt_Runner = None,
     opt_MGatePath = ac_MGatePath (cfg_Agent cfg), opt_WorkDir = ac_WorkDir (cfg_Agent cfg),
     opt_MaxOutputBytes = ac_MaxOutputBytes (cfg_Agent cfg)\<rparr>"

definition app_ws_options :: "golib \<Rightarrow> Config \<Rightarrow> Credentials \<Rightarrow> WSClientOptions" where
  "app_ws_options L cfg cred = \<lparr>wo_BaseURL = cc_BaseURL (cfg_Cloud cfg), wo_WSPath = cc_WSPath (cfg_Cloud cfg),
     wo_RequestTimeout = seconds (cc_RequestTimeoutSec (cfg_Cloud cfg)),
     wo_HeartbeatInterval = seconds (ac_HeartbeatIntervalSec (cfg_Agent cfg)),
     wo_MaxMessageBytes = 0, wo_CommandQueueSize = 0, wo_OutboundSize = 0,
     wo_MaxParallelJobs = ac_MaxParallelJobs (cfg_Agent cfg), wo_MaxOutputBytes = ac_MaxOutputBytes (cfg_Agent cfg),
     wo_ReconnectMinDelay = 0, wo_ReconnectMaxDelay = 0,
     wo_DeviceID = cr_DeviceID cred, wo_TenantID = cr_TenantID cred, wo_DeviceSecret = cr_DeviceSecret cred,
     wo_AgentVersion = app_Version, wo_DeviceName = ac_DeviceName (cfg_Agent cfg),
     wo_AllowedActions = sc_AllowActions (cfg_Security cfg), wo_PullFallback = cc_PullEnabled (cfg_Cloud cfg),
     wo_Handler = Some (), wo_MGateStatus = Some (Summary L (app_mgate cfg)), wo_HealthEvents = None, wo_Dispatcher = Some ()\<rparr>"

definition app_pull_options :: "golib \<Rightarrow> Config \<Rightarrow> Credentials \<Rightarrow> PullClientOptions" where
  "app_pull_options L cfg cred = \<lparr>po_BaseURL = cc_BaseURL (cfg_Cloud cfg), po_PullPath = cc_PullPath (cfg_Cloud cfg),
     po_ResultPath = cc_ResultPath (cfg_Cloud cfg), po_RequestTimeout = seconds (cc_RequestTimeoutSec (cfg_Cloud cfg)),
     po_PullInterval = seconds (cc_PullIntervalSec (cfg_Cloud cfg)), po_MaxResponseBytes = 0, po_MaxCommands = 0,
     po_ReconnectMinDelay = 0, po_ReconnectMaxDelay = 0,
     po_DeviceID = cr_DeviceID cred, po_TenantID = cr_TenantID cred, po_DeviceSecret = cr_DeviceSecret cred,
     po_AgentVersion = app_Version, po_DeviceName = ac_DeviceName (cfg_Agent cfg),
     po_Handler = Some (), po_MGateStatus = Some (Summary L (app_mgate cfg)), po_Client = None, po_Dispatcher = Some ()\<rparr>"

definition app_manager_options :: "golib \<Rightarrow> Config \<Rightarrow> Credentials \<Rightarrow> ManagerOptions" where
  "app_manager_options L cfg cred = \<lparr>mn_WSEnabled = cc_WSEnabled (cfg_Cloud cfg), mn_PullEnabled = cc_PullEnabled (cfg_Cloud cfg),
     mn_WS = app_ws_options L cfg cred, mn_Pull = app_pull_options L cfg cred, mn_Dispatcher = Some ()\<rparr>"

text \<open>
  The agent when Run starts to wait: with no transport it only waits for the signal to stop and has no
  manager; otherwise the manager's goroutines run.
\<close>

record agent =
  ag_config :: Config
  ag_credentials :: Credentials
  ag_handler :: Handler
  ag_dispatcher :: ResultDispatcher
  ag_tasks :: "task list"

text \<open>The objects that do not depend on a transport: mgate is asked for its capabilities, the outbox is opened.\<close>

definition app_objects ::
  "golib \<Rightarrow> Config \<Rightarrow> Registry \<Rightarrow> world \<Rightarrow> (app_error + ResultDispatcher \<times> Handler) \<times> world" where
  "app_objects L cfg registry w =
     (let (_, w) = Capabilities L (app_mgate cfg) w
      in (case NewStore L (app_store_options cfg) w of
            (Inl e, w) \<Rightarrow> (Inl (OutboxStoreFailed e), w)
          | (Inr store, w) \<Rightarrow>
              (case NewResultDispatcher (Some store) (Some (NewWriter (lc_AuditFile (cfg_Logging cfg)))) of
                 Inl e \<Rightarrow> (Inl (DispatcherFailed e), w)
               | Inr dispatcher \<Rightarrow>
                   (case NewHandler L (app_handler_options cfg registry) of
                      Inl e \<Rightarrow> (Inl (HandlerFailed e), w)
                    | Inr handler \<Rightarrow> (Inr (dispatcher, handler), w)))))"

definition app_Run ::
  "golib \<Rightarrow> yaml_decoder \<Rightarrow> (transport_error \<Rightarrow> string) \<Rightarrow> string \<Rightarrow> string \<Rightarrow> world \<Rightarrow> (app_error + agent) \<times> world" where
  "app_Run L yaml etext goos configPath w =
     (case loadRuntime L yaml goos configPath w of
        (Inl e, w) \<Rightarrow> (Inl e, w)
      | (Inr (cfg, cred, registry), w) \<Rightarrow>
          (case app_objects L cfg registry w of
             (Inl e, w) \<Rightarrow> (Inl e, w)
           | (Inr (dispatcher, handler), w) \<Rightarrow>
               (if \<not> cc_WSEnabled (cfg_Cloud cfg) \<and> \<not> cc_PullEnabled (cfg_Cloud cfg)
                then (Inr \<lparr>ag_config = cfg, ag_credentials = cred, ag_handler = handler, ag_dispatcher = dispatcher, ag_tasks = []\<rparr>, w)
                else (case NewManager (app_manager_options L cfg cred) of
                        Inl e \<Rightarrow> (Inl (ManagerFailed e), w)
                      | Inr m \<Rightarrow>
                          (case manager_start L etext m (dispatcher, w) of
                             (Some e, tasks, d, w) \<Rightarrow> (Inl (TransportFailed e), w)
                           | (None, tasks, d, w) \<Rightarrow>
                               (Inr \<lparr>ag_config = cfg, ag_credentials = cred, ag_handler = handler, ag_dispatcher = d,
                                     ag_tasks = tasks\<rparr>, w))))))"

section \<open>What a started agent is made of\<close>

lemma loadRuntime_Inr:
  assumes "loadRuntime L yaml goos path w = (Inr (cfg, cred, registry), w')"
  shows "config_ok L cfg" "credentials_ok L cred" "registry = default_registry"
    "ValidateAllowedActions (Some default_registry) (sc_AllowActions (cfg_Security cfg)) = None"
    "net w' = net w" "w_fs w' = w_fs w"
proof -
  obtain w1 where c: "config_Load L yaml path w = (Inr cfg, w1)"
    and i: "identity_Load L goos (sc_CredentialsFile (cfg_Security cfg)) w1 = (Inr cred, w')"
    and r: "registry = default_registry" "ValidateAllowedActions (Some default_registry) (sc_AllowActions (cfg_Security cfg)) = None"
    using assms by (auto simp: loadRuntime_def default_registry_built split: prod.splits sum.splits option.splits)
  show "registry = default_registry" "ValidateAllowedActions (Some default_registry) (sc_AllowActions (cfg_Security cfg)) = None"
    by (rule r)+
  show "config_ok L cfg" using config_Load_Inr [of L yaml path w cfg] c by simp
  show "credentials_ok L cred" using identity_Load_Inr [of L goos "sc_CredentialsFile (cfg_Security cfg)" w1 cred] i by simp
  show "net w' = net w" "w_fs w' = w_fs w"
    using config_Load_frame(1,3,5) [of L yaml path w] identity_Load_frame(1,3,5) [of L goos "sc_CredentialsFile (cfg_Security cfg)" w1] c i
    by (simp_all add: net_def)
qed

lemma net_Load: "net (snd (NewStore L opts w)) = net w"
proof -
  have entries: "net (load_entries L s es w) = net w" for s es w
    by (induction es arbitrary: w) (auto simp: split_beta Let_def net_simps)
  have "net (snd (Load L s w)) = net w" for s
    by (simp add: Load_def split_beta Let_def net_simps entries split: option.split sum.split)
  then show ?thesis by (simp add: NewStore_def split_beta Let_def split: option.split)
qed

lemma seconds_id: "0 \<le> n \<Longrightarrow> n \<le> 86400 \<Longrightarrow> seconds n = n * Second"
  by (simp add: seconds_def wrap64_id int64_def)

text \<open>The options with which the clients run: those of the configuration, and the defaults where it has none.\<close>

definition app_ws_final :: "golib \<Rightarrow> Config \<Rightarrow> Credentials \<Rightarrow> WSClientOptions" where
  "app_ws_final L cfg cred = (app_ws_options L cfg cred)\<lparr>wo_MaxMessageBytes := DefaultMaxMessageBytes,
     wo_CommandQueueSize := DefaultCommandQueueSize, wo_OutboundSize := DefaultOutboundSize, wo_HealthEvents := Some ()\<rparr>"

definition app_pull_final :: "golib \<Rightarrow> Config \<Rightarrow> Credentials \<Rightarrow> PullClientOptions" where
  "app_pull_final L cfg cred = (app_pull_options L cfg cred)\<lparr>po_MaxResponseBytes := DefaultMaxMessageBytes,
     po_MaxCommands := DefaultMaxPullCommands, po_Client := Some (seconds (cc_RequestTimeoutSec (cfg_Cloud cfg)))\<rparr>"

lemma app_ws_client:
  assumes "config_ok L cfg"
  shows "start_ws \<lparr>mgr_opts = app_manager_options L cfg cred, mgr_wsHealthy = b\<rparr> w =
    (if cc_WSEnabled (cfg_Cloud cfg)
     then (Inr [WSTask \<lparr>ws_opts = app_ws_final L cfg cred, ws_startedAt = w_clock w (w_reads w), ws_activeJobs = 0, ws_lastCommandID = [], ws_lastCommandState = []\<rparr>],
           snd (time_Now w))
     else (Inr [], w))"
proof -
  have "seconds (cc_RequestTimeoutSec (cfg_Cloud cfg)) > 0" "seconds (ac_HeartbeatIntervalSec (cfg_Agent cfg)) > 0"
    "ac_MaxParallelJobs (cfg_Agent cfg) > 0"
    using assms by (simp_all add: config_ok_def Let_def seconds_id)
  then show ?thesis
    by (simp add: start_ws_def NewWSClient_def manager_ws_def app_manager_options_def app_ws_options_def app_ws_final_def Let_def time_Now_def)
qed

lemma app_pull_client:
  assumes "config_ok L cfg"
  shows "start_pull L etext \<lparr>mgr_opts = app_manager_options L cfg cred, mgr_wsHealthy = b\<rparr> d =
    (if cc_PullEnabled (cfg_Cloud cfg)
     then (Inr [PullTask \<lparr>pc_opts = app_pull_final L cfg cred, pc_lastCommandID = [], pc_lastCommandState = []\<rparr>],
           SetPullSender (Some (SendRecord L etext (app_pull_final L cfg cred))) d)
     else (Inr [], d))"
proof -
  have "seconds (cc_RequestTimeoutSec (cfg_Cloud cfg)) > 0" "seconds (cc_PullIntervalSec (cfg_Cloud cfg)) > 0"
    using assms by (simp_all add: config_ok_def Let_def seconds_id)
  then show ?thesis
    by (simp add: start_pull_def NewPullClient_def manager_pull_def app_manager_options_def app_pull_options_def app_pull_final_def Let_def)
qed

definition ws_client_ok :: "golib \<Rightarrow> agent \<Rightarrow> WSClient \<Rightarrow> bool" where
  "ws_client_ok L a ws \<longleftrightarrow> ws_activeJobs ws = 0 \<and>
     wo_DeviceID (ws_opts ws) = cr_DeviceID (ag_credentials a) \<and> wo_DeviceSecret (ws_opts ws) = cr_DeviceSecret (ag_credentials a) \<and>
     wo_BaseURL (ws_opts ws) = cc_BaseURL (cfg_Cloud (ag_config a)) \<and> wo_WSPath (ws_opts ws) = cc_WSPath (cfg_Cloud (ag_config a)) \<and>
     wo_MGateStatus (ws_opts ws) = Some (Summary L (app_mgate (ag_config a))) \<and>
     wo_RequestTimeout (ws_opts ws) \<in> {Second..300 * Second} \<and> wo_HeartbeatInterval (ws_opts ws) \<in> {5 * Second..3600 * Second} \<and>
     wo_MaxParallelJobs (ws_opts ws) \<in> {1..16} \<and> wo_CommandQueueSize (ws_opts ws) = 16 \<and> wo_OutboundSize (ws_opts ws) = 32 \<and>
     wo_MaxMessageBytes (ws_opts ws) = 65536"

definition pull_client_ok :: "golib \<Rightarrow> agent \<Rightarrow> PullClient \<Rightarrow> bool" where
  "pull_client_ok L a c \<longleftrightarrow>
     po_DeviceID (pc_opts c) = cr_DeviceID (ag_credentials a) \<and> po_DeviceSecret (pc_opts c) = cr_DeviceSecret (ag_credentials a) \<and>
     po_BaseURL (pc_opts c) = cc_BaseURL (cfg_Cloud (ag_config a)) \<and> po_PullPath (pc_opts c) = cc_PullPath (cfg_Cloud (ag_config a)) \<and>
     po_ResultPath (pc_opts c) = cc_ResultPath (cfg_Cloud (ag_config a)) \<and>
     po_MGateStatus (pc_opts c) = Some (Summary L (app_mgate (ag_config a))) \<and>
     po_PullInterval (pc_opts c) \<in> {Second..3600 * Second} \<and> po_Client (pc_opts c) = Some (po_RequestTimeout (pc_opts c)) \<and>
     po_RequestTimeout (pc_opts c) \<in> {Second..300 * Second} \<and> po_MaxResponseBytes (pc_opts c) = 65536 \<and> po_MaxCommands (pc_opts c) = 16"

lemma app_objects_Inr:
  assumes "app_objects L cfg default_registry w = (Inr (d, h), w')"
  shows "handler_offline h" "h_registry h = Some default_registry" "h_mgatePath h = ac_MGatePath (cfg_Agent cfg)"
    "h_allowActions h = sc_AllowActions (cfg_Security cfg)" "disp_wsSender d = None" "disp_pullSender d = None"
    "net w' = net (snd (Capabilities L (app_mgate cfg) w))"
proof -
  let ?w = "snd (Capabilities L (app_mgate cfg) w)"
  obtain store w1 where st: "NewStore L (app_store_options cfg) ?w = (Inr store, w1)"
    using assms by (cases "NewStore L (app_store_options cfg) ?w"; cases "fst (NewStore L (app_store_options cfg) ?w)")
      (auto simp: app_objects_def split_beta Let_def)
  have new: "NewHandler L (app_handler_options cfg default_registry) = Inr h" and d: "disp_wsSender d = None" "disp_pullSender d = None"
    and w': "w' = w1"
    using assms st by (auto simp: app_objects_def split_beta Let_def NewResultDispatcher_def split: sum.splits)
  show "disp_wsSender d = None" "disp_pullSender d = None" by (rule d)+
  show "net w' = net ?w" using net_Load [of L "app_store_options cfg" ?w] st w' by simp
  have reg: "registry_ok default_registry" using NewRegistry_ok default_registry_built unfolding NewDefaultRegistry_def by blast
  have "handler_ok h" by (rule NewHandler_ok [OF new]) (auto simp: app_handler_options_def reg)
  then show "handler_offline h" using NewHandler_offline [OF new] by (simp add: app_handler_options_def)
  show "h_registry h = Some default_registry" "h_mgatePath h = ac_MGatePath (cfg_Agent cfg)"
    "h_allowActions h = sc_AllowActions (cfg_Security cfg)"
    using new by (auto simp: NewHandler_def app_handler_options_def split: if_splits option.splits)
qed

lemma app_Run_Inr:
  assumes "app_Run L yaml etext goos path w = (Inr a, w')"
  obtains cfg cred w1 d h w2 where "ag_config a = cfg" "ag_credentials a = cred" "ag_handler a = h"
    and "loadRuntime L yaml goos path w = (Inr (cfg, cred, default_registry), w1)"
    and "app_objects L cfg default_registry w1 = (Inr (d, h), w2)" and "net w' = net w2"
    and "\<not> cc_WSEnabled (cfg_Cloud cfg) \<and> \<not> cc_PullEnabled (cfg_Cloud cfg) \<and> ag_tasks a = [] \<and> ag_dispatcher a = d \<or>
      (\<exists>w3. manager_start L etext \<lparr>mgr_opts = app_manager_options L cfg cred, mgr_wsHealthy = False\<rparr> (d, w2) =
         (None, ag_tasks a, ag_dispatcher a, w3))"
proof -
  obtain r w1 where load: "loadRuntime L yaml goos path w = (r, w1)" by fastforce
  obtain cfg cred reg where r: "r = Inr (cfg, cred, reg)" using assms load by (cases r) (auto simp: app_Run_def)
  have reg: "reg = default_registry" using loadRuntime_Inr(3) load r by simp
  obtain ob w2 where ob: "app_objects L cfg default_registry w1 = (ob, w2)" by fastforce
  obtain d h where dh: "ob = Inr (d, h)" using assms load r reg ob by (cases ob) (auto simp: app_Run_def)
  note eq = assms [unfolded app_Run_def load r reg prod.case sum.case ob dh]
  show thesis
  proof (cases "\<not> cc_WSEnabled (cfg_Cloud cfg) \<and> \<not> cc_PullEnabled (cfg_Cloud cfg)")
    case True
    then show thesis using that eq load r reg ob dh by auto
  next
    case False
    then have m: "NewManager (app_manager_options L cfg cred) = Inr \<lparr>mgr_opts = app_manager_options L cfg cred, mgr_wsHealthy = False\<rparr>"
      by (auto simp: NewManager_def app_manager_options_def)
    obtain e tasks d' w3 where start: "manager_start L etext \<lparr>mgr_opts = app_manager_options L cfg cred, mgr_wsHealthy = False\<rparr> (d, w2) = (e, tasks, d', w3)"
      by (metis prod_cases4)
    have cfg: "config_ok L cfg" using loadRuntime_Inr(1) load r by simp
    have "net w3 = net w2"
      using start app_ws_client [OF cfg, of cred False w2] app_pull_client [OF cfg, of etext cred False d]
      by (auto simp: manager_start_def net_def time_Now_def Let_def split: if_splits)
    then show thesis using that eq load r reg ob dh False m start by (cases e) auto
  qed
qed

lemma manager_start_app:
  assumes cfg: "config_ok L cfg"
    and start: "manager_start L etext \<lparr>mgr_opts = app_manager_options L cfg cred, mgr_wsHealthy = False\<rparr> (d, w) = (None, tasks, d', w')"
    and a: "ag_config a = cfg" "ag_credentials a = cred" and d: "disp_wsSender d = None" "disp_pullSender d = None"
  shows "WSTask ws \<in> set tasks \<Longrightarrow> cc_WSEnabled (cfg_Cloud cfg) \<and> ws_client_ok L a ws"
    and "PullTask c \<in> set tasks \<Longrightarrow> cc_PullEnabled (cfg_Cloud cfg) \<and> pull_client_ok L a c \<and> pull_dispatcher L etext (pc_opts c) d'"
proof -
  have tasks: "tasks = DispatcherTask # (if cc_WSEnabled (cfg_Cloud cfg) then [WSTask \<lparr>ws_opts = app_ws_final L cfg cred,
        ws_startedAt = w_clock w (w_reads w), ws_activeJobs = 0, ws_lastCommandID = [], ws_lastCommandState = []\<rparr>] else []) @
      (if cc_PullEnabled (cfg_Cloud cfg) then [PullTask \<lparr>pc_opts = app_pull_final L cfg cred, pc_lastCommandID = [], pc_lastCommandState = []\<rparr>]
       else []) @ [HealthTask]"
    and d': "d' = (if cc_PullEnabled (cfg_Cloud cfg) then SetPullSender (Some (SendRecord L etext (app_pull_final L cfg cred))) d else d)"
    using start by (auto simp: manager_start_def app_ws_client [OF cfg] app_pull_client [OF cfg] split: if_splits)
  have range: "seconds (cc_RequestTimeoutSec (cfg_Cloud cfg)) \<in> {Second..300 * Second}"
    "seconds (cc_PullIntervalSec (cfg_Cloud cfg)) \<in> {Second..3600 * Second}"
    "seconds (ac_HeartbeatIntervalSec (cfg_Agent cfg)) \<in> {5 * Second..3600 * Second}" "ac_MaxParallelJobs (cfg_Agent cfg) \<in> {1..16}"
    using cfg by (simp_all add: config_ok_def Let_def seconds_id)
  show "cc_WSEnabled (cfg_Cloud cfg) \<and> ws_client_ok L a ws" if "WSTask ws \<in> set tasks"
  proof -
    have "cc_WSEnabled (cfg_Cloud cfg)" "ws_opts ws = app_ws_final L cfg cred" "ws_activeJobs ws = 0"
      using that by (auto simp: tasks split: if_splits)
    then show ?thesis using range a
      by (simp add: ws_client_ok_def app_ws_final_def app_ws_options_def DefaultCommandQueueSize_def DefaultOutboundSize_def DefaultMaxMessageBytes_def)
  qed
  show "cc_PullEnabled (cfg_Cloud cfg) \<and> pull_client_ok L a c \<and> pull_dispatcher L etext (pc_opts c) d'" if "PullTask c \<in> set tasks"
  proof -
    have "cc_PullEnabled (cfg_Cloud cfg)" "pc_opts c = app_pull_final L cfg cred" using that by (auto simp: tasks split: if_splits)
    then show ?thesis using range a d
      by (simp add: d' pull_client_ok_def pull_dispatcher_def SetPullSender_def app_pull_final_def app_pull_options_def
          DefaultMaxPullCommands_def DefaultMaxMessageBytes_def)
  qed
qed

lemma allowed_are_built_in:
  assumes "ValidateAllowedActions (Some default_registry) allowed = None"
  shows "set allowed \<subseteq> spec_Name ` set DefaultSpecs"
proof
  fix x assume "x \<in> set allowed"
  then have "map_of default_registry x \<noteq> None"
    using assms by (auto simp: ValidateAllowedActions_def find_None_iff Registry_Get_def split: if_splits)
  then show "x \<in> spec_Name ` set DefaultSpecs" by (auto simp: default_registry_eq map_of_eq_None_iff image_image)
qed

lemma Capabilities_net:
  "\<exists>procs. net (snd (Capabilities L mg w)) = (w_execs w @ procs, w_requests w) \<and>
     set procs \<subseteq> {mgate_proc mg ''capabilities-json'' (mo_CapabilitiesTimeout (mc_opts mg))}"
  by (rule exI [of _ "if fst (ensureExecutable (mo_Path (mc_opts mg)) w) = None
        then [mgate_proc mg ''capabilities-json'' (mo_CapabilitiesTimeout (mc_opts mg))] else []"])
     (auto simp: Capabilities_def net_def runJSON_execs runJSON_frame(4))

lemma runJSON_fault: "w_fault (snd (runJSON L c cm t tc jc sc w)) = w_fault w"
  by (simp add: runJSON_unfold ensureExecutable_def os_Stat_def sys_call_def Let_def
      split: option.split sum.split node.split os_error.split)

lemma app_mgate_opts: "mo_Path (mc_opts (app_mgate cfg)) = ac_MGatePath (cfg_Agent cfg)"
  "mo_CapabilitiesTimeout (mc_opts (app_mgate cfg)) = 2 * Second" "mo_SnapshotTimeout (mc_opts (app_mgate cfg)) = 2 * Second"
  by (simp_all add: app_mgate_def NewClient_def Let_def)

text \<open>
  What Run has put together when it starts to wait. The last part says what it did outside the machine
  until then.
\<close>

definition agent_ok :: "golib \<Rightarrow> (transport_error \<Rightarrow> string) \<Rightarrow> agent \<Rightarrow> bool" where
  "agent_ok L etext a \<longleftrightarrow>
     config_ok L (ag_config a) \<and> credentials_ok L (ag_credentials a) \<and>
     handler_offline (ag_handler a) \<and> h_registry (ag_handler a) = Some default_registry \<and>
     h_mgatePath (ag_handler a) = ac_MGatePath (cfg_Agent (ag_config a)) \<and>
     h_allowActions (ag_handler a) = sc_AllowActions (cfg_Security (ag_config a)) \<and>
     set (h_allowActions (ag_handler a)) \<subseteq> spec_Name ` set DefaultSpecs \<and>
     (\<forall>ws. WSTask ws \<in> set (ag_tasks a) \<longrightarrow> cc_WSEnabled (cfg_Cloud (ag_config a)) \<and> ws_client_ok L a ws) \<and>
     (\<forall>c. PullTask c \<in> set (ag_tasks a) \<longrightarrow> cc_PullEnabled (cfg_Cloud (ag_config a)) \<and> pull_client_ok L a c \<and>
        pull_dispatcher L etext (pc_opts c) (ag_dispatcher a))"

lemma app_Run_ok:
  assumes "app_Run L yaml etext goos path w = (Inr a, w')"
  shows "agent_ok L etext a"
    and "\<exists>procs. net w' = (w_execs w @ procs, w_requests w) \<and>
      set procs \<subseteq> {mgate_proc (app_mgate (ag_config a)) ''capabilities-json'' (2 * Second)}"
proof -
  obtain cfg cred w1 d h w2 where a: "ag_config a = cfg" "ag_credentials a = cred" "ag_handler a = h"
    and load: "loadRuntime L yaml goos path w = (Inr (cfg, cred, default_registry), w1)"
    and objs: "app_objects L cfg default_registry w1 = (Inr (d, h), w2)" and w': "net w' = net w2"
    and tasks: "\<not> cc_WSEnabled (cfg_Cloud cfg) \<and> \<not> cc_PullEnabled (cfg_Cloud cfg) \<and> ag_tasks a = [] \<and> ag_dispatcher a = d \<or>
      (\<exists>w3. manager_start L etext \<lparr>mgr_opts = app_manager_options L cfg cred, mgr_wsHealthy = False\<rparr> (d, w2) =
         (None, ag_tasks a, ag_dispatcher a, w3))"
    by (rule app_Run_Inr [OF assms])
  note l = loadRuntime_Inr [OF load] and ob = app_objects_Inr [OF objs]
  have "WSTask ws \<in> set (ag_tasks a) \<Longrightarrow> cc_WSEnabled (cfg_Cloud cfg) \<and> ws_client_ok L a ws" for ws
    using tasks manager_start_app(1) [OF l(1) _ a(1,2) ob(5,6)] by auto
  moreover have "PullTask c \<in> set (ag_tasks a) \<Longrightarrow> cc_PullEnabled (cfg_Cloud cfg) \<and> pull_client_ok L a c \<and>
      pull_dispatcher L etext (pc_opts c) (ag_dispatcher a)" for c
    using tasks manager_start_app(2) [OF l(1) _ a(1,2) ob(5,6)] by auto
  ultimately show "agent_ok L etext a" using l(1,2) ob(1-4) allowed_are_built_in [OF l(4)] by (simp add: agent_ok_def a)
  show "\<exists>procs. net w' = (w_execs w @ procs, w_requests w) \<and>
      set procs \<subseteq> {mgate_proc (app_mgate (ag_config a)) ''capabilities-json'' (2 * Second)}"
    using Capabilities_net [of L "app_mgate cfg" w1] w' ob(7) l(5) by (simp add: a app_mgate_opts(2) net_def)
qed

section \<open>An agent that starts\<close>

definition app_world :: world where
  "app_world = sample_world\<lparr>w_fs := [((True, []), FDir),
     ((True, [''etc'', ''mgate-agent'', ''agent.yaml'']), FFile 420 []),
     ((True, [''var'', ''lib'', ''mgate-agent'', ''credentials.json'']), FFile 384 (enc_json (JObj credentials_doc)))]\<rparr>"

definition sample_yaml :: yaml_decoder where
  "sample_yaml known r = Inr DefaultConfig"

lemma app_paths: "config_file [] = (True, [''etc'', ''mgate-agent'', ''agent.yaml''])"
  "clean_path (sc_CredentialsFile (cfg_Security DefaultConfig)) = (True, [''var'', ''lib'', ''mgate-agent'', ''credentials.json''])"
  "filepath_Join (ac_WorkDir (cfg_Agent DefaultConfig)) ''outbox'' = ''/var/lib/mgate-agent/outbox''"
  "clean_path ''/var/lib/mgate-agent/outbox'' = (True, [''var'', ''lib'', ''mgate-agent'', ''outbox''])"
  by (code_simp+)

lemma app_files: "map_of (w_fs app_world) (True, [''etc'', ''mgate-agent'', ''agent.yaml'']) = Some (FFile 420 [])"
  "map_of (w_fs app_world) (True, [''var'', ''lib'', ''mgate-agent'', ''credentials.json'']) = Some (FFile 384 (enc_json (JObj credentials_doc)))"
  "w_fault app_world = (\<lambda>_. None)"
  by (simp_all add: app_world_def sample_world_def del: enc_json.simps)

lemma sample_loads:
  "\<exists>w. loadRuntime sample_lib sample_yaml ''linux'' [] app_world = (Inr (DefaultConfig, sample_credentials, default_registry), w) \<and>
     w_fs w = w_fs app_world \<and> w_fault w = w_fault app_world"
proof -
  have accepted: "DecodeYAML sample_lib sample_yaml r = Inr DefaultConfig"
    "ValidateAllowedActions (Some default_registry) (sc_AllowActions (cfg_Security DefaultConfig)) = None" for r
    using default_config_built [of sample_lib] by (auto simp: sample_lib_def sample_url_parse_def sample_yaml_def)
  have "fst (os_Open (config_file []) app_world) = None"
    by (simp add: os_Open_def sys_call_def app_paths(1) app_files)
  then have "fst (config_Load sample_lib sample_yaml [] app_world) = Inr DefaultConfig"
    using accepted(1) DecodeYAML_Inr by (simp add: config_Load_Inr)
  then obtain w1 where c: "config_Load sample_lib sample_yaml [] app_world = (Inr DefaultConfig, w1)" by (metis prod.collapse)
  have w1: "w_fs w1 = w_fs app_world" "w_fault w1 = w_fault app_world"
    using config_Load_frame(1,2) [of sample_lib sample_yaml "[]" app_world] c by simp_all
  have ok: "credentials_ok sample_lib sample_credentials"
    by (simp add: credentials_ok_def sample_credentials_def TrimSpace_starts space_seqs_def time_IsZero_def)
  have "fst (identity_Load sample_lib ''linux'' (sc_CredentialsFile (cfg_Security DefaultConfig)) w1) = Inr sample_credentials"
    unfolding identity_Load_Inr app_paths(2) w1 app_files using ok decode_sample_credentials(2) by simp
  then obtain w2 where i: "identity_Load sample_lib ''linux'' (sc_CredentialsFile (cfg_Security DefaultConfig)) w1 = (Inr sample_credentials, w2)"
    by (metis prod.collapse)
  show ?thesis
    using c i accepted(2) w1 identity_Load_frame(1,2) [of sample_lib "''linux''" "sc_CredentialsFile (cfg_Security DefaultConfig)" w1]
    by (simp add: loadRuntime_def default_registry_built)
qed

lemma sample_objects:
  assumes "w_fs w = w_fs app_world" and "w_fault w = w_fault app_world"
  shows "\<exists>d h w'. app_objects sample_lib DefaultConfig default_registry w = (Inr (d, h), w')"
proof -
  let ?w = "snd (Capabilities sample_lib (app_mgate DefaultConfig) w)"
  have w: "w_fs ?w = w_fs app_world" "w_fault ?w = (\<lambda>_. None)"
    using assms app_files(3) by (simp_all add: Capabilities_def runJSON_frame(1) runJSON_fault)
  obtain fs where fs: "mkdirs True [] [''var'', ''lib'', ''mgate-agent'', ''outbox''] (w_fs app_world) = Some fs"
    "map_of fs (True, [''var'', ''lib'', ''mgate-agent'', ''outbox'']) = Some FDir"
    by (simp add: app_world_def del: enc_json.simps)
  have dir: "TrimSpace ''/var/lib/mgate-agent/outbox'' \<noteq> []" by (rule TrimSpace_rooted) simp
  obtain w1 where mk: "os_MkdirAll (True, [''var'', ''lib'', ''mgate-agent'', ''outbox'']) ?w = (None, w1)" "w_fs w1 = fs" "w_fault w1 = (\<lambda>_. None)"
    using fs(1) w by (simp add: os_MkdirAll_def sys_call_def del: mkdirs.simps)
  obtain es w2 where rd: "os_ReadDir (True, [''var'', ''lib'', ''mgate-agent'', ''outbox'']) w1 = (Inr es, w2)"
    using fs(2) mk by (simp add: os_ReadDir_def sys_call_def)
  have "\<exists>store w'. NewStore sample_lib (app_store_options DefaultConfig) ?w = (Inr store, w')"
    using dir mk(1) rd by (simp add: NewStore_def app_store_options_def app_paths Load_def Let_def)
  moreover have "\<exists>h. NewHandler sample_lib (app_handler_options DefaultConfig default_registry) = Inr h"
    using default_config_built [of sample_lib]
    by (auto simp: NewHandler_def app_handler_options_def sample_lib_def sample_url_parse_def ValidateAllowedActions_def split: if_splits)
  ultimately show ?thesis by (auto simp: app_objects_def split_beta Let_def NewResultDispatcher_def)
qed

lemma sample_runs:
  "\<exists>a w. app_Run sample_lib sample_yaml (\<lambda>_. []) ''linux'' [] app_world = (Inr a, w) \<and> ag_config a = DefaultConfig \<and>
     (\<exists>c. PullTask c \<in> set (ag_tasks a)) \<and> (\<exists>ws. WSTask ws \<in> set (ag_tasks a))"
proof -
  obtain w where load: "loadRuntime sample_lib sample_yaml ''linux'' [] app_world = (Inr (DefaultConfig, sample_credentials, default_registry), w)"
    "w_fs w = w_fs app_world" "w_fault w = w_fault app_world" using sample_loads by blast
  obtain d h w2 where objs: "app_objects sample_lib DefaultConfig default_registry w = (Inr (d, h), w2)"
    using sample_objects [OF load(2,3)] by blast
  have cfg: "config_ok sample_lib DefaultConfig" using loadRuntime_Inr(1) [OF load(1)] .
  have on: "cc_WSEnabled (cfg_Cloud DefaultConfig)" "cc_PullEnabled (cfg_Cloud DefaultConfig)" by (simp_all add: DefaultConfig_def)
  let ?m = "\<lparr>mgr_opts = app_manager_options sample_lib DefaultConfig sample_credentials, mgr_wsHealthy = False\<rparr>"
  have m: "NewManager (app_manager_options sample_lib DefaultConfig sample_credentials) = Inr ?m"
    by (simp add: NewManager_def app_manager_options_def on)
  obtain ws c d' w3 where start: "manager_start sample_lib (\<lambda>_. []) ?m (d, w2) = (None, [DispatcherTask, WSTask ws, PullTask c, HealthTask], d', w3)"
    using app_ws_client [OF cfg, of sample_credentials False w2] app_pull_client [OF cfg, of "\<lambda>_. []" sample_credentials False d] on
    by (auto simp: manager_start_def Let_def)
  show ?thesis using load(1) objs m start on by (auto simp: app_Run_def)
qed

section \<open>Properties\<close>



end
