(* ===== verification/Diagnostics.thy ===== *)
theory Diagnostics
  imports App
begin

text \<open>
  internal/app/diagnostics.go and the dispatch of cmd/mgate-agent: the check and doctor commands. A message
  of the report is a constructor with the values it shows; the texts themselves are left out. The lemmas
  relate a passed check to what the run command needs.
\<close>

unbundle bit_operations_syntax

section \<open>The report\<close>

datatype checkStatus = statusOK | statusWarn | statusFail

datatype check_message =
    ConfigUnreadable string os_error | ConfigIsDir string | ConfigReadable string
  | ConfigInvalid config_error | ConfigParsed | ConfigValid
  | WSURLInvalid transport_error | WSURLValid string string | WSDisabled
  | PullURLInvalid transport_error | PullURLValid string string
  | ResultURLInvalid transport_error | ResultURLValid string string
  | NoTransportEnabled | PullDisabled | OnlyPull | BothTransports
  | RegistryInvalid spec_error | AllowActionsInvalid registry_error | AllowActionsValid
  | CredentialsUnreadable string os_error | CredentialsIsDir string | CredentialsReadable string
  | CredentialsModeBad nat | CredentialsModeGood nat
  | CredentialsInvalid credentials_error | CredentialsParsed string string
  | MGateNotAbsolute string | MGateMissing string os_error | MGateIsDir string | MGateNotExecutable string | MGateExecutable string
  | DirNotWritable string string "os_error option" | DirWritable string string

type_synonym checkItem = "checkStatus \<times> check_message"
type_synonym checkReport = "checkItem list"

definition report_ok :: "check_message \<Rightarrow> checkReport \<Rightarrow> checkReport" where
  "report_ok m r = r @ [(statusOK, m)]"

definition report_warn :: "check_message \<Rightarrow> checkReport \<Rightarrow> checkReport" where
  "report_warn m r = r @ [(statusWarn, m)]"

definition report_fail :: "check_message \<Rightarrow> checkReport \<Rightarrow> checkReport" where
  "report_fail m r = r @ [(statusFail, m)]"

fun report_failed :: "checkReport \<Rightarrow> bool" where
  "report_failed [] = False"
| "report_failed ((status, m) # items) = (if status = statusFail then True else report_failed items)"

record diagnosticsResult =
  dr_report :: checkReport
  dr_cfg :: "Config option"
  dr_cred :: "Credentials option"
  dr_registry :: "Registry option"

section \<open>Checks\<close>

text \<open>filepath.Dir: what stands before the last slash, cleaned.\<close>

definition filepath_Dir :: "string \<Rightarrow> string" where
  "filepath_Dir s = path_string (clean_path (rev (dropWhile (\<lambda>c. c \<noteq> CHR ''/'') (rev s))))"

definition credentialPermissionStatus :: "nat \<Rightarrow> string \<Rightarrow> nat \<times> bool" where
  "credentialPermissionStatus mode goos =
     (if goos \<noteq> ''linux'' then (mode, True) else if mode \<noteq> 384 then (mode, False) else (384, True))"

definition checkCredentials ::
  "golib \<Rightarrow> string \<Rightarrow> string \<Rightarrow> diagnosticsResult \<Rightarrow> world \<Rightarrow> diagnosticsResult \<times> world" where
  "checkCredentials L goos path r w =
     (case os_Stat (clean_path path) w of
        (Inl e, w) \<Rightarrow> (r\<lparr>dr_report := report_fail (CredentialsUnreadable path e) (dr_report r)\<rparr>, w)
      | (Inr FDir, w) \<Rightarrow> (r\<lparr>dr_report := report_fail (CredentialsIsDir path) (dr_report r)\<rparr>, w)
      | (Inr (FFile mode content), w) \<Rightarrow>
          (let rep = report_ok (CredentialsReadable path) (dr_report r);
               (msg, safe) = credentialPermissionStatus mode goos;
               rep = (if \<not> safe then report_fail (CredentialsModeBad msg) rep else report_ok (CredentialsModeGood msg) rep)
           in (case identity_Load L goos path w of
                 (Inl e, w) \<Rightarrow> (r\<lparr>dr_report := report_fail (CredentialsInvalid e) rep\<rparr>, w)
               | (Inr cred, w) \<Rightarrow>
                   (r\<lparr>dr_cred := Some cred,
                      dr_report := report_ok (CredentialsParsed (cr_DeviceID cred) (cr_TenantID cred)) rep\<rparr>, w))))"

definition checkMGate :: "string \<Rightarrow> string \<Rightarrow> checkReport \<Rightarrow> world \<Rightarrow> checkReport \<times> world" where
  "checkMGate goos path rep w =
     (if \<not> filepath_IsAbs path \<and> \<not> HasPrefix path ''/'' then (report_fail (MGateNotAbsolute path) rep, w)
      else (case os_Stat (clean_path path) w of
              (Inl e, w) \<Rightarrow> (report_fail (MGateMissing path e) rep, w)
            | (Inr FDir, w) \<Rightarrow> (report_fail (MGateIsDir path) rep, w)
            | (Inr (FFile mode content), w) \<Rightarrow>
                (if goos \<noteq> ''windows'' \<and> mode AND 73 = 0 then (report_fail (MGateNotExecutable path) rep, w)
                 else (report_ok (MGateExecutable path) rep, w))))"

text \<open>os.WriteFile opens, writes and closes; the first error is its result.\<close>

definition os_WriteFile :: "path \<Rightarrow> string \<Rightarrow> nat \<Rightarrow> world \<Rightarrow> os_error option \<times> world" where
  "os_WriteFile p data mode w =
     (case os_OpenTrunc p mode w of
        (Some e, w) \<Rightarrow> (Some e, w)
      | (None, w) \<Rightarrow>
          (let (e, w) = file_Write p data w; (e', w) = sys_unit w in (case e of Some x \<Rightarrow> Some x | None \<Rightarrow> e', w)))"

text \<open>Inl: the path is empty.\<close>

definition ensureWritableDir :: "string \<Rightarrow> world \<Rightarrow> os_error option option \<times> world" where
  "ensureWritableDir dir w =
     (if TrimSpace dir = [] then (Some None, w)
      else (case os_MkdirAll (clean_path dir) w of
              (Some e, w) \<Rightarrow> (Some (Some e), w)
            | (None, w) \<Rightarrow>
                (let probe = path_join dir ''.mgate-agent-write-test''
                 in (case os_WriteFile probe ''ok'' 384 w of
                       (Some e, w) \<Rightarrow> (Some (Some e), w)
                     | (None, w) \<Rightarrow> (let (e, w) = os_Remove probe w in (map_option Some e, w))))))"

definition checkWritableDir :: "string \<Rightarrow> string \<Rightarrow> checkReport \<Rightarrow> world \<Rightarrow> checkReport \<times> world" where
  "checkWritableDir label dir rep w =
     (case ensureWritableDir dir w of
        (Some e, w) \<Rightarrow> (report_fail (DirNotWritable label dir e) rep, w)
      | (None, w) \<Rightarrow> (report_ok (DirWritable label dir) rep, w))"

text \<open>The checks that need the configuration only.\<close>

definition check_urls :: "golib \<Rightarrow> CloudConfig \<Rightarrow> checkReport \<Rightarrow> checkReport" where
  "check_urls L c rep =
     (let rep = (if cc_WSEnabled c
                 then (case BuildWebSocketURL L (cc_BaseURL c) (cc_WSPath c) of
                         Inl e \<Rightarrow> report_fail (WSURLInvalid e) rep
                       | Inr _ \<Rightarrow> report_ok (WSURLValid (cc_BaseURL c) (cc_WSPath c)) rep)
                 else report_warn WSDisabled rep);
          rep = (case BuildHTTPURL L (cc_BaseURL c) (cc_PullPath c) of
                   Inl e \<Rightarrow> report_fail (PullURLInvalid e) rep
                 | Inr _ \<Rightarrow> report_ok (PullURLValid (cc_BaseURL c) (cc_PullPath c)) rep);
          rep = (case BuildHTTPURL L (cc_BaseURL c) (cc_ResultPath c) of
                   Inl e \<Rightarrow> report_fail (ResultURLInvalid e) rep
                 | Inr _ \<Rightarrow> report_ok (ResultURLValid (cc_BaseURL c) (cc_ResultPath c)) rep)
      in if \<not> cc_WSEnabled c \<and> \<not> cc_PullEnabled c then report_fail NoTransportEnabled rep
         else if \<not> cc_PullEnabled c then report_warn PullDisabled rep
         else if \<not> cc_WSEnabled c then report_warn OnlyPull rep
         else report_ok BothTransports rep)"

definition check_registry :: "SecurityConfig \<Rightarrow> checkReport \<Rightarrow> checkReport \<times> Registry option" where
  "check_registry c rep =
     (case NewDefaultRegistry of
        Inl e \<Rightarrow> (report_fail (RegistryInvalid e) rep, None)
      | Inr registry \<Rightarrow>
          (case ValidateAllowedActions (Some registry) (sc_AllowActions c) of
             Some e \<Rightarrow> (report_fail (AllowActionsInvalid e) rep, None)
           | None \<Rightarrow> (report_ok AllowActionsValid rep, Some registry)))"

definition check_dirs :: "Config \<Rightarrow> checkReport \<Rightarrow> world \<Rightarrow> checkReport \<times> world" where
  "check_dirs cfg rep w =
     (let (rep, w) = checkWritableDir ''work_dir'' (ac_WorkDir (cfg_Agent cfg)) rep w;
          (rep, w) = checkWritableDir ''audit'' (filepath_Dir (lc_AuditFile (cfg_Logging cfg))) rep w
      in checkWritableDir ''outbox'' (filepath_Join (ac_WorkDir (cfg_Agent cfg)) ''outbox'') rep w)"

definition no_result :: diagnosticsResult where
  "no_result = \<lparr>dr_report = [], dr_cfg = None, dr_cred = None, dr_registry = None\<rparr>"

definition runDiagnostics :: "golib \<Rightarrow> yaml_decoder \<Rightarrow> string \<Rightarrow> string \<Rightarrow> world \<Rightarrow> diagnosticsResult \<times> world" where
  "runDiagnostics L yaml goos configPath w =
     (let configPath = (if TrimSpace configPath = [] then DefaultPath else configPath)
      in (case os_Stat (clean_path configPath) w of
            (Inl e, w) \<Rightarrow> (no_result\<lparr>dr_report := report_fail (ConfigUnreadable configPath e) []\<rparr>, w)
          | (Inr FDir, w) \<Rightarrow> (no_result\<lparr>dr_report := report_fail (ConfigIsDir configPath) []\<rparr>, w)
          | (Inr (FFile mode content), w) \<Rightarrow>
              (let rep = report_ok (ConfigReadable configPath) []
               in (case config_Load L yaml configPath w of
                     (Inl e, w) \<Rightarrow> (no_result\<lparr>dr_report := report_fail (ConfigInvalid e) rep\<rparr>, w)
                   | (Inr cfg, w) \<Rightarrow>
                       (let rep = report_ok ConfigValid (report_ok ConfigParsed rep);
                            rep = check_urls L (cfg_Cloud cfg) rep;
                            (rep, registry) = check_registry (cfg_Security cfg) rep;
                            r = \<lparr>dr_report = rep, dr_cfg = Some cfg, dr_cred = None, dr_registry = registry\<rparr>;
                            (r, w) = checkCredentials L goos (sc_CredentialsFile (cfg_Security cfg)) r w;
                            (rep, w) = checkMGate goos (ac_MGatePath (cfg_Agent cfg)) (dr_report r) w;
                            (rep, w) = check_dirs cfg rep w
                        in (r\<lparr>dr_report := rep\<rparr>, w))))))"

section \<open>Output\<close>

datatype out_line =
    Title string | Item checkStatus check_message | Verdict bool | VersionLine string string
  | Field string string | PendingLine int | AllowedAction string
  | ProbeSkipped | ProbeFailed string | ProbeReached int

definition writeReport :: "string \<Rightarrow> checkReport \<Rightarrow> out_line list" where
  "writeReport title rep = Title title # map (\<lambda>(status, m). Item status m) rep @ [Verdict (\<not> report_failed rep)]"

definition enabledText :: "bool \<Rightarrow> string" where
  "enabledText enabled = (if enabled then ''enabled'' else ''disabled'')"

definition outboxPendingCount :: "golib \<Rightarrow> string \<Rightarrow> world \<Rightarrow> int \<times> world" where
  "outboxPendingCount L workDir w =
     (case NewStore L \<lparr>so_Dir = filepath_Join workDir ''outbox'', so_MaxRecords = 0, so_MaxBytes = 0, so_Audit = None\<rparr> w of
        (Inl e, w) \<Rightarrow> (0, w)
      | (Inr store, w) \<Rightarrow> PendingCount L store w)"

text \<open>sort.Strings of a copy of the list.\<close>

definition writeSafeConfigSummary :: "golib \<Rightarrow> Config \<Rightarrow> Credentials option \<Rightarrow> world \<Rightarrow> out_line list \<times> world" where
  "writeSafeConfigSummary L cfg cred w =
     (let (pending, w) = outboxPendingCount L (ac_WorkDir (cfg_Agent cfg)) w
      in ([Field ''device_name'' (ac_DeviceName (cfg_Agent cfg))] @
          (case cred of None \<Rightarrow> [] | Some c \<Rightarrow> [Field ''device_id'' (cr_DeviceID c), Field ''tenant_id'' (cr_TenantID c)]) @
          [Field ''cloud.base_url'' (cc_BaseURL (cfg_Cloud cfg)),
           Field ''websocket'' (enabledText (cc_WSEnabled (cfg_Cloud cfg)) @ '' ('' @ cc_WSPath (cfg_Cloud cfg) @ '')''),
           Field ''pull'' (enabledText (cc_PullEnabled (cfg_Cloud cfg)) @ '' ('' @ cc_PullPath (cfg_Cloud cfg) @ '')''),
           Field ''result_path'' (cc_ResultPath (cfg_Cloud cfg)),
           Field ''work_dir'' (ac_WorkDir (cfg_Agent cfg)),
           Field ''audit_file'' (lc_AuditFile (cfg_Logging cfg)),
           Field ''outbox_dir'' (filepath_Join (ac_WorkDir (cfg_Agent cfg)) ''outbox''),
           Field ''credentials_file'' (sc_CredentialsFile (cfg_Security cfg)),
           Field ''credentials.device_secret'' ''***REDACTED***'',
           PendingLine pending] @
          map AllowedAction (sort (sc_AllowActions (cfg_Security cfg))), w))"

definition doNetworkProbe :: "golib \<Rightarrow> string \<Rightarrow> world \<Rightarrow> out_line list \<times> world" where
  "doNetworkProbe L baseURL w =
     (case lib_url_parse L baseURL of
        None \<Rightarrow> ([ProbeSkipped], w)
      | Some u \<Rightarrow>
          (case http_Do \<lparr>hr_Method = ''HEAD'', hr_URL = baseURL, hr_Header = [], hr_Body = [], hr_timeout = 3 * Second\<rparr> w of
             (Inl msg, w) \<Rightarrow> ([ProbeFailed msg], w)
           | (Inr resp, w) \<Rightarrow> ([ProbeReached (hs_StatusCode resp)], w)))"

definition writeDoctor :: "golib \<Rightarrow> yaml_decoder \<Rightarrow> string \<Rightarrow> string \<Rightarrow> world \<Rightarrow> app_error option \<times> out_line list \<times> world" where
  "writeDoctor L yaml goos configPath w =
     (let (r, w) = runDiagnostics L yaml goos configPath w;
          lines = writeReport ''MGate Agent Doctor'' (dr_report r) @ [VersionLine app_Name app_Version];
          (more, w) =
            (case dr_cfg r of
               None \<Rightarrow> ([], w)
             | Some cfg \<Rightarrow>
                 (let (summary, w) = writeSafeConfigSummary L cfg (dr_cred r) w;
                      (probe, w) = doNetworkProbe L (cc_BaseURL (cfg_Cloud cfg)) w
                  in (summary @ probe, w)))
      in ((if report_failed (dr_report r) then Some ErrCheckFailed else None), lines @ more, w))"

definition app_Check :: "golib \<Rightarrow> yaml_decoder \<Rightarrow> string \<Rightarrow> string \<Rightarrow> world \<Rightarrow> app_error option \<times> out_line list \<times> world" where
  "app_Check L yaml goos configPath w =
     (let (r, w) = runDiagnostics L yaml goos configPath w
      in ((if report_failed (dr_report r) then Some ErrCheckFailed else None), writeReport ''MGate Agent'' (dr_report r), w))"

definition app_Doctor :: "golib \<Rightarrow> yaml_decoder \<Rightarrow> string \<Rightarrow> string \<Rightarrow> world \<Rightarrow> app_error option \<times> out_line list \<times> world" where
  "app_Doctor L yaml goos configPath w = writeDoctor L yaml goos configPath w"

section \<open>What a passed check says\<close>

text \<open>Without faults the outcome of a load depends on the files only, not on the calls before it.\<close>

lemma os_Open_quiet: "no_faults w \<Longrightarrow> fst (os_Open p w) = None \<longleftrightarrow> map_of (w_fs w) p \<noteq> None"
  by (auto simp: no_faults_def os_Open_def sys_call_def split: option.split)

lemma os_ReadFile_quiet:
  "no_faults w \<Longrightarrow> fst (os_ReadFile p w) =
     (case map_of (w_fs w) p of None \<Rightarrow> Inl ErrNotExist | Some FDir \<Rightarrow> Inl ErrIO | Some (FFile m b) \<Rightarrow> Inr b)"
  by (auto simp: no_faults_def os_ReadFile_def sys_call_def split: option.split node.split)

lemma config_Load_quiet:
  assumes "no_faults w" and "no_faults v" and "w_fs v = w_fs w" and "fst (config_Load L yaml path v) = Inr cfg"
  shows "fst (config_Load L yaml path w) = Inr cfg"
proof -
  have "no_faults (snd (os_Open p u))" if "no_faults u" for p u using that os_Open_frame(2) [of p u] by (simp add: no_faults_def)
  then show ?thesis
    using assms by (simp add: config_Load_Inr os_Open_quiet os_ReadFile_quiet os_Open_frame(1))
qed

lemma identity_Load_quiet:
  assumes "no_faults w" and "no_faults v" and "w_fs v = w_fs w" and "fst (identity_Load L goos path v) = Inr cred"
  shows "fst (identity_Load L goos path w) = Inr cred"
  using assms by (simp add: identity_Load_Inr no_faults_def)

lemma report_failed_append [simp]: "report_failed (r @ r') \<longleftrightarrow> report_failed r \<or> report_failed r'"
  by (induction r rule: report_failed.induct) auto

lemmas report_defs = report_ok_def report_warn_def report_fail_def

lemma checkWritableDir_keeps: "report_failed rep \<Longrightarrow> report_failed (fst (checkWritableDir label dir rep w))"
  by (auto simp: checkWritableDir_def report_defs split: prod.splits option.splits)

lemma check_dirs_keeps: "report_failed rep \<Longrightarrow> report_failed (fst (check_dirs cfg rep w))"
  by (simp add: check_dirs_def split_beta Let_def checkWritableDir_keeps)

lemma checkMGate_passed:
  assumes "\<not> report_failed (fst (checkMGate goos path rep w))"
  shows "\<not> report_failed rep \<and>
    (\<exists>mode content. map_of (w_fs w) (clean_path path) = Some (FFile mode content) \<and> (goos = ''windows'' \<or> mode AND 73 \<noteq> 0))"
proof -
  obtain info v where st: "os_Stat (clean_path path) w = (info, v)" by fastforce
  obtain mode content where info: "info = Inr (FFile mode content)" and ok: "\<not> report_failed rep" "goos = ''windows'' \<or> mode AND 73 \<noteq> 0"
    using assms st by (auto simp: checkMGate_def report_defs split: if_splits sum.splits node.splits)
  have "map_of (w_fs w) (clean_path path) = Some (FFile mode content)"
    using st info by (auto simp: os_Stat_def sys_call_def split: option.splits)
  then show ?thesis using ok by blast
qed

lemma checkCredentials_passed:
  assumes "\<not> report_failed (dr_report (fst (checkCredentials L goos path r w)))"
  shows "\<not> report_failed (dr_report r) \<and> (\<exists>cred. fst (identity_Load L goos path (snd (os_Stat (clean_path path) w))) = Inr cred) \<and>
    w_fs (snd (checkCredentials L goos path r w)) = w_fs w"
proof -
  obtain info v where st: "os_Stat (clean_path path) w = (info, v)" by fastforce
  obtain mode content where info: "info = Inr (FFile mode content)"
    using assms st by (auto simp: checkCredentials_def report_defs split: sum.splits node.splits)
  obtain x u where id: "identity_Load L goos path v = (x, u)" by fastforce
  have fs: "w_fs u = w_fs w"
    using sys_reads_frame(3) [of "clean_path path" w] identity_Load_frame(1) [of L goos path v] st id by simp
  show ?thesis
    using assms st info id fs
    by (cases x) (auto simp: checkCredentials_def report_defs split_beta Let_def split: if_splits)
qed

lemma check_registry_passed:
  "\<not> report_failed (fst (check_registry c rep)) \<Longrightarrow>
   \<not> report_failed rep \<and> ValidateAllowedActions (Some default_registry) (sc_AllowActions c) = None"
  by (auto simp: check_registry_def report_defs default_registry_built split: option.splits)

lemma check_urls_passed:
  assumes "\<not> report_failed (check_urls L c rep)"
  shows "(cc_WSEnabled c \<longrightarrow> is_ok (BuildWebSocketURL L (cc_BaseURL c) (cc_WSPath c))) \<and>
    is_ok (BuildHTTPURL L (cc_BaseURL c) (cc_PullPath c)) \<and> is_ok (BuildHTTPURL L (cc_BaseURL c) (cc_ResultPath c)) \<and>
    (cc_WSEnabled c \<or> cc_PullEnabled c)"
  using assms
  by (cases "BuildWebSocketURL L (cc_BaseURL c) (cc_WSPath c)"; cases "BuildHTTPURL L (cc_BaseURL c) (cc_PullPath c)";
      cases "BuildHTTPURL L (cc_BaseURL c) (cc_ResultPath c)")
     (auto simp: check_urls_def report_defs Let_def is_ok_iff split: if_splits)

definition config_report :: "golib \<Rightarrow> Config \<Rightarrow> string \<Rightarrow> checkReport" where
  "config_report L cfg path = check_urls L (cfg_Cloud cfg) (report_ok ConfigValid (report_ok ConfigParsed (report_ok (ConfigReadable path) [])))"

lemma runDiagnostics_passed:
  assumes diag: "runDiagnostics L yaml goos path w = (r, v)" and passed: "\<not> report_failed (dr_report r)"
    and blank: "path = [] \<or> TrimSpace path \<noteq> []"
  obtains cfg w2 p r1 r2 w3 where "config_Load L yaml path (snd (os_Stat (clean_path p) w)) = (Inr cfg, w2)"
    and "dr_report r1 = fst (check_registry (cfg_Security cfg) (config_report L cfg p))"
    and "checkCredentials L goos (sc_CredentialsFile (cfg_Security cfg)) r1 w2 = (r2, w3)"
    and "\<not> report_failed (fst (checkMGate goos (ac_MGatePath (cfg_Agent cfg)) (dr_report r2) w3))"
proof -
  let ?path = "if TrimSpace path = [] then DefaultPath else path"
  have "TrimSpace [] = []" by code_simp
  moreover have "DefaultPath \<noteq> []" by (simp add: DefaultPath_def)
  ultimately have same: "config_Load L yaml ?path v = config_Load L yaml path v" for v using blank by (auto simp: config_Load_def)
  obtain info w1 where st: "os_Stat (clean_path ?path) w = (info, w1)" by fastforce
  obtain mode content where info: "info = Inr (FFile mode content)"
    using passed diag st by (auto simp: runDiagnostics_def no_result_def report_defs Let_def split: sum.splits node.splits)
  obtain x w2 where load: "config_Load L yaml ?path w1 = (x, w2)" by fastforce
  obtain cfg where cfg: "x = Inr cfg"
    using passed diag st info load by (cases x) (auto simp: runDiagnostics_def no_result_def report_defs Let_def)
  define r1 where "r1 = \<lparr>dr_report = fst (check_registry (cfg_Security cfg) (config_report L cfg ?path)), dr_cfg = Some cfg, dr_cred = None,
    dr_registry = snd (check_registry (cfg_Security cfg) (config_report L cfg ?path))\<rparr>"
  obtain r2 w3 where cr: "checkCredentials L goos (sc_CredentialsFile (cfg_Security cfg)) r1 w2 = (r2, w3)" by fastforce
  obtain rep2 w4 where mg: "checkMGate goos (ac_MGatePath (cfg_Agent cfg)) (dr_report r2) w3 = (rep2, w4)" by fastforce
  have "dr_report r = fst (check_dirs cfg rep2 w4)"
    using diag st info load cfg cr mg unfolding runDiagnostics_def Let_def config_report_def r1_def by (auto simp: split_beta)
  then have "\<not> report_failed rep2" using passed check_dirs_keeps by metis
  then show thesis using that [of ?path cfg w2 r1 r2 w3] load cfg same [of w1] st cr mg by (simp add: r1_def)
qed

text \<open>A directory can be written when no component of its path is a file and nothing is in the way of the probe.\<close>

definition no_file :: "world \<Rightarrow> bool \<Rightarrow> string list \<Rightarrow> bool" where
  "no_file w r cs \<longleftrightarrow> (\<forall>ds. prefix ds cs \<longrightarrow> map_of (w_fs w) (r, ds) = None \<or> map_of (w_fs w) (r, ds) = Some FDir)"

lemma mkdirs_ok:
  "(\<forall>ds. prefix ds cs \<longrightarrow> map_of fs (r, done @ ds) = None \<or> map_of fs (r, done @ ds) = Some FDir) \<Longrightarrow>
   \<exists>fs'. mkdirs r done cs fs = Some fs' \<and>
     (\<forall>q. map_of fs' q = (if \<exists>ds. prefix ds cs \<and> q = (r, done @ ds) then Some FDir else map_of fs q))"
proof (induction cs arbitrary: "done" fs)
  case Nil
  then show ?case by (cases "map_of fs (r, done)") auto
next
  case (Cons c cs)
  let ?fs = "if map_of fs (r, done) = None then map_put (r, done) FDir fs else fs"
  have dir: "map_of fs (r, done) = None \<or> map_of fs (r, done) = Some FDir" using Cons.prems [rule_format, of "[]"] by simp
  have step: "mkdirs r done (c # cs) fs = mkdirs r (done @ [c]) cs ?fs" and m: "map_of ?fs = (map_of fs)((r, done) \<mapsto> FDir)"
    using dir by (auto simp: fun_upd_idem)
  have "map_of ?fs (r, (done @ [c]) @ ds) = None \<or> map_of ?fs (r, (done @ [c]) @ ds) = Some FDir" if "prefix ds cs" for ds
    using Cons.prems [rule_format, of "c # ds"] that unfolding m by simp
  then obtain fs' where fs': "mkdirs r (done @ [c]) cs ?fs = Some fs'"
    "\<forall>q. map_of fs' q = (if \<exists>ds. prefix ds cs \<and> q = (r, (done @ [c]) @ ds) then Some FDir else map_of ?fs q)"
    using Cons.IH [of ?fs "done @ [c]"] by blast
  have "(\<exists>ds. prefix ds (c # cs) \<and> q = (r, done @ ds)) \<longleftrightarrow> q = (r, done) \<or> (\<exists>ds. prefix ds cs \<and> q = (r, (done @ [c]) @ ds))" for q
    by (auto simp: prefix_Cons)
  then show ?case unfolding step using fs' unfolding m by (intro exI [of _ fs']) auto
qed

lemma ensureWritableDir_ok:
  assumes "no_faults w" and "TrimSpace dir \<noteq> []" and "clean_path dir = (r, cs)" and "no_file w r cs"
    and probe: "path_join dir ''.mgate-agent-write-test'' = (r, cs @ [name])" and free: "map_of (w_fs w) (r, cs @ [name]) = None"
  shows "\<exists>w'. ensureWritableDir dir w = (None, w') \<and> no_faults w' \<and>
    map_of (w_fs w') = (\<lambda>q. if fst q = r \<and> prefix (snd q) cs then Some FDir else map_of (w_fs w) q)"
proof -
  obtain fs where fs: "mkdirs r [] cs (w_fs w) = Some fs"
    "\<forall>q. map_of fs q = (if \<exists>ds. prefix ds cs \<and> q = (r, ds) then Some FDir else map_of (w_fs w) q)"
    using mkdirs_ok [of cs "w_fs w" r "[]"] assms(4) by (auto simp: no_file_def)
  have at: "map_of fs (r, cs @ [name]) = None" "map_of fs (r, cs) = Some FDir" using fs(2) free by (auto simp: prefix_def)
  have "map_of fs = (\<lambda>q. if fst q = r \<and> prefix (snd q) cs then Some FDir else map_of (w_fs w) q)"
    using fs(2) by (auto simp: fun_eq_iff)
  then show ?thesis
    using assms(1-3) probe at fs(1)
    by (auto simp: ensureWritableDir_def os_MkdirAll_def os_WriteFile_def os_OpenTrunc_def file_Write_def sys_unit_def os_Remove_def
        sys_call_def no_faults_def Let_def path_parent_def fun_upd_idem simp del: mkdirs.simps)
qed

definition check_world :: world where
  "check_world = app_world\<lparr>w_fs := w_fs app_world @ [((True, [''usr'', ''local'', ''bin'', ''mgate.sh'']), FFile 493 [])]\<rparr>"

section \<open>Properties\<close>

text \<open>
  C37: when the check command passes and no system call failed, the run command would load on the same
  files: configuration and credentials are accepted, every allowed action is built in, at least one
  transport is enabled, the URLs of pull, result and of an enabled WebSocket can be built, and the mgate
  script is a file that, but on Windows, is executable. A blank path other than the empty one is left
  out: the check replaces it by the default and run does not.
\<close>

theorem check_passed_runs:
  assumes "no_faults w" and path: "path = [] \<or> TrimSpace path \<noteq> []"
    and "app_Check L yaml goos path w = (None, lines, w')"
  shows "\<exists>cfg cred. fst (loadRuntime L yaml goos path w) = Inr (cfg, cred, default_registry) \<and>
    (cc_WSEnabled (cfg_Cloud cfg) \<or> cc_PullEnabled (cfg_Cloud cfg)) \<and>
    (cc_WSEnabled (cfg_Cloud cfg) \<longrightarrow> is_ok (BuildWebSocketURL L (cc_BaseURL (cfg_Cloud cfg)) (cc_WSPath (cfg_Cloud cfg)))) \<and>
    is_ok (BuildHTTPURL L (cc_BaseURL (cfg_Cloud cfg)) (cc_PullPath (cfg_Cloud cfg))) \<and>
    is_ok (BuildHTTPURL L (cc_BaseURL (cfg_Cloud cfg)) (cc_ResultPath (cfg_Cloud cfg))) \<and>
    (\<exists>mode content. map_of (w_fs w) (clean_path (ac_MGatePath (cfg_Agent cfg))) = Some (FFile mode content) \<and>
       (goos = ''windows'' \<or> mode AND 73 \<noteq> 0))"
proof -
  obtain r v where diag: "runDiagnostics L yaml goos path w = (r, v)" by fastforce
  have passed: "\<not> report_failed (dr_report r)" using assms(3) diag by (auto simp: app_Check_def Let_def split: if_splits)
  obtain cfg w2 p r1 r2 w3 where load: "config_Load L yaml path (snd (os_Stat (clean_path p) w)) = (Inr cfg, w2)"
    and r1: "dr_report r1 = fst (check_registry (cfg_Security cfg) (config_report L cfg p))"
    and cr: "checkCredentials L goos (sc_CredentialsFile (cfg_Security cfg)) r1 w2 = (r2, w3)"
    and mg: "\<not> report_failed (fst (checkMGate goos (ac_MGatePath (cfg_Agent cfg)) (dr_report r2) w3))"
    by (rule runDiagnostics_passed [OF diag passed path])
  let ?w1 = "snd (os_Stat (clean_path p) w)" and ?st = "snd (os_Stat (clean_path (sc_CredentialsFile (cfg_Security cfg))) w2)"
  have w1: "w_fs ?w1 = w_fs w" "no_faults ?w1" using assms(1) by (simp_all add: no_faults_def frame_simps)
  have w2: "w_fs w2 = w_fs w" "no_faults w2"
    using config_Load_frame(1,2) [of L yaml path ?w1] load w1 by (simp_all add: no_faults_def)
  have st: "w_fs ?st = w_fs w" "no_faults ?st" using w2 by (simp_all add: no_faults_def frame_simps)
  note mgate = checkMGate_passed [OF mg]
  obtain cred where cred: "\<not> report_failed (dr_report r1)" "fst (identity_Load L goos (sc_CredentialsFile (cfg_Security cfg)) ?st) = Inr cred"
    "w_fs w3 = w_fs w"
    using checkCredentials_passed [of L goos "sc_CredentialsFile (cfg_Security cfg)" r1 w2] mgate cr w2(1) by auto
  have reg: "\<not> report_failed (config_report L cfg p)" "ValidateAllowedActions (Some default_registry) (sc_AllowActions (cfg_Security cfg)) = None"
    using check_registry_passed [of "cfg_Security cfg" "config_report L cfg p"] cred(1) by (simp_all add: r1)
  have c: "fst (config_Load L yaml path w) = Inr cfg"
    using config_Load_quiet [OF assms(1) w1(2,1)] load by simp
  have frame: "w_fs (snd (config_Load L yaml path w)) = w_fs w" "no_faults (snd (config_Load L yaml path w))"
    using assms(1) by (simp_all add: no_faults_def frame_simps)
  have i: "fst (identity_Load L goos (sc_CredentialsFile (cfg_Security cfg)) (snd (config_Load L yaml path w))) = Inr cred"
    using identity_Load_quiet [OF frame(2) st(2)] st(1) frame(1) cred(2) by simp
  have "fst (loadRuntime L yaml goos path w) = Inr (cfg, cred, default_registry)"
    using c i reg(2) by (cases "config_Load L yaml path w") (auto simp: loadRuntime_def default_registry_built split: prod.split)
  then show ?thesis using check_urls_passed [of L "cfg_Cloud cfg"] reg(1) mgate cred(3) unfolding config_report_def by metis
qed

lemma check_paths: "clean_path ''/var/lib/mgate-agent'' = (True, [''var'', ''lib'', ''mgate-agent''])"
  "filepath_Dir ''/var/log/mgate-agent/audit.jsonl'' = ''/var/log/mgate-agent''"
  "clean_path ''/var/log/mgate-agent'' = (True, [''var'', ''log'', ''mgate-agent''])"
  "path_join ''/var/lib/mgate-agent'' ''.mgate-agent-write-test'' = (True, [''var'', ''lib'', ''mgate-agent'', ''.mgate-agent-write-test''])"
  "path_join ''/var/log/mgate-agent'' ''.mgate-agent-write-test'' = (True, [''var'', ''log'', ''mgate-agent'', ''.mgate-agent-write-test''])"
  "path_join ''/var/lib/mgate-agent/outbox'' ''.mgate-agent-write-test'' = (True, [''var'', ''lib'', ''mgate-agent'', ''outbox'', ''.mgate-agent-write-test''])"
  "clean_path ''/usr/local/bin/mgate.sh'' = (True, [''usr'', ''local'', ''bin'', ''mgate.sh''])"
  "clean_path DefaultPath = (True, [''etc'', ''mgate-agent'', ''agent.yaml''])"
  by (code_simp+)

lemma sample_files: "map_of (w_fs check_world) (r, ds) \<noteq> None \<Longrightarrow>
    ds \<in> {[], [''etc'', ''mgate-agent'', ''agent.yaml''], [''var'', ''lib'', ''mgate-agent'', ''credentials.json''], [''usr'', ''local'', ''bin'', ''mgate.sh'']}"
  by (auto simp: check_world_def app_world_def sample_world_def map_add_def split: if_splits simp del: enc_json.simps)

lemma no_file_more:
  "no_file w r cs \<Longrightarrow> map_of (w_fs v) = (\<lambda>q. if fst q = r' \<and> prefix (snd q) cs' then Some FDir else map_of (w_fs w) q) \<Longrightarrow> no_file v r cs"
  by (auto simp: no_file_def)

lemma sample_dirs:
  assumes "no_faults w" and fs: "map_of (w_fs w) = map_of (w_fs check_world)" and "\<not> report_failed rep"
  shows "\<not> report_failed (fst (check_dirs DefaultConfig rep w))"
proof -
  have t: "TrimSpace (CHR ''/'' # d) \<noteq> []" for d by (rule TrimSpace_rooted) simp
  have root: "map_of (w_fs check_world) (True, []) = Some FDir" by (simp add: check_world_def app_world_def)
  have "no_file w True [''var'', ''lib'', ''mgate-agent'', ''outbox'']" "no_file w True [''var'', ''log'', ''mgate-agent'']"
    using sample_files [of True] root by (force simp: no_file_def fs)+
  then have n: "no_file w True [''var'', ''lib'', ''mgate-agent'']" "no_file w True [''var'', ''log'', ''mgate-agent'']"
    "no_file w True [''var'', ''lib'', ''mgate-agent'', ''outbox'']"
    by (auto simp: no_file_def prefix_Cons)
  have free: "map_of (w_fs w) (True, cs @ [''.mgate-agent-write-test'']) = None" for cs
  proof (rule ccontr)
    assume "map_of (w_fs w) (True, cs @ [''.mgate-agent-write-test'']) \<noteq> None"
    then have "map_of (w_fs check_world) (True, cs @ [''.mgate-agent-write-test'']) \<noteq> None" by (simp add: fs)
    from sample_files [OF this] show False by (auto simp: Cons_eq_append_conv append_eq_Cons_conv)
  qed
  obtain w1 where w1: "ensureWritableDir ''/var/lib/mgate-agent'' w = (None, w1)" "no_faults w1"
    "map_of (w_fs w1) = (\<lambda>q. if fst q = True \<and> prefix (snd q) [''var'', ''lib'', ''mgate-agent''] then Some FDir else map_of (w_fs w) q)"
    using ensureWritableDir_ok [OF assms(1) t check_paths(1) n(1), of "''.mgate-agent-write-test''"] check_paths(4) free
      [of "[''var'', ''lib'', ''mgate-agent'']"] by auto
  obtain w2 where w2: "ensureWritableDir ''/var/log/mgate-agent'' w1 = (None, w2)" "no_faults w2"
    "map_of (w_fs w2) = (\<lambda>q. if fst q = True \<and> prefix (snd q) [''var'', ''log'', ''mgate-agent''] then Some FDir else map_of (w_fs w1) q)"
    using ensureWritableDir_ok [OF w1(2) t check_paths(3) no_file_more [OF n(2) w1(3)], of "''.mgate-agent-write-test''"] check_paths(5)
      free [of "[''var'', ''log'', ''mgate-agent'']"] w1(3) by auto
  obtain w3 where w3: "ensureWritableDir ''/var/lib/mgate-agent/outbox'' w2 = (None, w3)"
    using ensureWritableDir_ok [OF w2(2) t app_paths(4) no_file_more [OF no_file_more [OF n(3) w1(3)] w2(3)], of "''.mgate-agent-write-test''"]
      check_paths(6) free [of "[''var'', ''lib'', ''mgate-agent'', ''outbox'']"] w1(3) w2(3) by auto
  have cfg: "ac_WorkDir (cfg_Agent DefaultConfig) = ''/var/lib/mgate-agent''" "lc_AuditFile (cfg_Logging DefaultConfig) = ''/var/log/mgate-agent/audit.jsonl''"
    by (simp_all add: DefaultConfig_def)
  show ?thesis
    using assms(3) w1(1) w2(1) w3 app_paths(3)
    by (simp add: check_dirs_def checkWritableDir_def cfg check_paths(2) report_defs)
qed

lemma check_files: "map_of (w_fs check_world) (True, [''etc'', ''mgate-agent'', ''agent.yaml'']) = Some (FFile 420 [])"
  "map_of (w_fs check_world) (True, [''var'', ''lib'', ''mgate-agent'', ''credentials.json'']) = Some (FFile 384 (enc_json (JObj credentials_doc)))"
  "map_of (w_fs check_world) (True, [''usr'', ''local'', ''bin'', ''mgate.sh'']) = Some (FFile 493 [])" "no_faults check_world"
  by (simp_all add: check_world_def app_world_def sample_world_def no_faults_def map_add_def del: enc_json.simps)

lemma sample_urls_passed: "\<not> report_failed (config_report sample_lib DefaultConfig p)"
  by (simp add: config_report_def check_urls_def report_defs DefaultConfig_def BuildWebSocketURL_def BuildHTTPURL_def with_path_def
      url_IsAbs_def sample_lib_def sample_url_parse_def)

lemma os_Stat_quiet: "no_faults w \<Longrightarrow> map_of (w_fs w) p = Some n \<Longrightarrow> \<exists>v. os_Stat p w = (Inr n, v) \<and> w_fs v = w_fs w \<and> no_faults v"
  by (simp add: os_Stat_def sys_call_def no_faults_def)

lemma sample_check: "\<exists>lines w'. app_Check sample_lib sample_yaml ''linux'' [] check_world = (None, lines, w')"
proof -
  have accepted: "DecodeYAML sample_lib sample_yaml r = Inr DefaultConfig"
    "ValidateAllowedActions (Some default_registry) (sc_AllowActions (cfg_Security DefaultConfig)) = None" for r
    using default_config_built [of sample_lib] by (auto simp: sample_lib_def sample_url_parse_def sample_yaml_def)
  have blank: "TrimSpace [] = []" by code_simp
  have cfile: "config_file DefaultPath = (True, [''etc'', ''mgate-agent'', ''agent.yaml''])" using app_paths(1) by (simp add: config_file_def)
  obtain w1 where st: "os_Stat (clean_path DefaultPath) check_world = (Inr (FFile 420 []), w1)" "w_fs w1 = w_fs check_world" "no_faults w1"
    using os_Stat_quiet [OF check_files(4,1)] check_paths(8) by auto
  have "fst (config_Load sample_lib sample_yaml DefaultPath w1) = Inr DefaultConfig"
    using accepted(1) DecodeYAML_Inr st(2,3) by (simp add: config_Load_Inr os_Open_quiet cfile check_files(1))
  then obtain w2 where load: "config_Load sample_lib sample_yaml DefaultPath w1 = (Inr DefaultConfig, w2)" by (metis prod.collapse)
  have w2: "w_fs w2 = w_fs check_world" "no_faults w2"
    using config_Load_frame(1,2) [of sample_lib sample_yaml DefaultPath w1] load st by (simp_all add: no_faults_def)
  let ?cred = "sc_CredentialsFile (cfg_Security DefaultConfig)"
  obtain w3 where cst: "os_Stat (clean_path ?cred) w2 = (Inr (FFile 384 (enc_json (JObj credentials_doc))), w3)"
    "w_fs w3 = w_fs check_world" "no_faults w3"
    using os_Stat_quiet [OF w2(2), of "clean_path ?cred"] w2(1) check_files(2) app_paths(2) by (auto simp del: enc_json.simps)
  have ok: "credentials_ok sample_lib sample_credentials"
    by (simp add: credentials_ok_def sample_credentials_def TrimSpace_starts space_seqs_def time_IsZero_def)
  have "fst (identity_Load sample_lib ''linux'' ?cred w3) = Inr sample_credentials"
    unfolding identity_Load_Inr app_paths(2) cst check_files using ok decode_sample_credentials(2) cst(3) by (simp add: no_faults_def)
  then obtain w4 where id: "identity_Load sample_lib ''linux'' ?cred w3 = (Inr sample_credentials, w4)" by (metis prod.collapse)
  have w4: "w_fs w4 = w_fs check_world" "no_faults w4"
    using identity_Load_frame(1,2) [of sample_lib "''linux''" ?cred w3] id cst by (simp_all add: no_faults_def)
  have mgate: "ac_MGatePath (cfg_Agent DefaultConfig) = ''/usr/local/bin/mgate.sh''" by (simp add: DefaultConfig_def)
  obtain w5 where mst: "os_Stat (True, [''usr'', ''local'', ''bin'', ''mgate.sh'']) w4 = (Inr (FFile 493 []), w5)" "w_fs w5 = w_fs check_world" "no_faults w5"
    using os_Stat_quiet [OF w4(2)] w4(1) check_files(3) by metis
  have "\<not> report_failed (fst (check_dirs DefaultConfig rep w5))" if "\<not> report_failed rep" for rep
    using sample_dirs [OF mst(3) _ that] mst(2) by simp
  moreover have "(493::nat) AND 73 \<noteq> 0" by simp
  ultimately have "\<not> report_failed (dr_report (fst (runDiagnostics sample_lib sample_yaml ''linux'' [] check_world)))"
    using st(1) load cst(1) id mst(1) accepted(2) sample_urls_passed [of DefaultPath]
    by (simp add: runDiagnostics_def blank Let_def split_beta check_registry_def default_registry_built checkCredentials_def
        credentialPermissionStatus_def checkMGate_def mgate check_paths(7) filepath_IsAbs_def report_defs config_report_def del: enc_json.simps)
  then show ?thesis by (simp add: app_Check_def split_beta Let_def)
qed

theorem check_passed_runs_witness:
  "\<exists>cfg cred. fst (loadRuntime sample_lib sample_yaml ''linux'' [] check_world) = Inr (cfg, cred, default_registry) \<and>
     (cc_WSEnabled (cfg_Cloud cfg) \<or> cc_PullEnabled (cfg_Cloud cfg))"
  using check_passed_runs [OF check_files(4)] sample_check by blast

end
