(* ===== verification/CLI.thy ===== *)
theory CLI
  imports Diagnostics
begin

text \<open>
  cmd/mgate-agent/main.go: the command line, and the exit status of the process. The lemmas show how
  arguments select a command.
\<close>

section \<open>Flags\<close>

text \<open>
  flag.FlagSet.Parse with the one string flag \<open>config\<close>: the value it has in the end, or \<^const>\<open>None\<close> for an error,
  the request for help included. The first argument that is no flag ends the parsing.
\<close>

definition split_flag :: "string \<Rightarrow> string \<times> string option" where
  "split_flag name =
     (let rest = dropWhile (\<lambda>c. c \<noteq> CHR ''='') (drop 1 name)
      in (take 1 name @ takeWhile (\<lambda>c. c \<noteq> CHR ''='') (drop 1 name), if rest = [] then None else Some (drop 1 rest)))"

fun flag_Parse :: "string \<Rightarrow> string list \<Rightarrow> string option" where
  "flag_Parse cur [] = Some cur"
| "flag_Parse cur (s # args) =
     (if length s < 2 \<or> hd s \<noteq> CHR ''-'' then Some cur
      else if s = ''--'' then Some cur
      else let name = (if s ! 1 = CHR ''-'' then drop 2 s else drop 1 s)
           in if name = [] \<or> hd name = CHR ''-'' \<or> hd name = CHR ''='' then None
              else case split_flag name of
                     (n, v) \<Rightarrow>
                       if n \<noteq> ''config'' then None
                       else (case v of
                               Some value \<Rightarrow> flag_Parse value args
                             | None \<Rightarrow> (case args of [] \<Rightarrow> None | value # args' \<Rightarrow> flag_Parse value args')))"

section \<open>Commands\<close>

datatype cli_command =
    PrintVersion | PrintDefaultConfig | CheckCommand string | DoctorCommand string | RunCommand string | UsageError

text \<open>The command that run dispatches to; an error of the flags is a usage error too.\<close>

definition cli_dispatch :: "string list \<Rightarrow> cli_command" where
  "cli_dispatch args =
     (let withConfig = (\<lambda>f. case flag_Parse DefaultPath (drop 1 args) of None \<Rightarrow> UsageError | Some path \<Rightarrow> f path)
      in case args of
           [] \<Rightarrow> UsageError
         | cmd # rest \<Rightarrow>
             if cmd = ''version'' then PrintVersion
             else if cmd = ''config'' then (if rest = [''default''] then PrintDefaultConfig else UsageError)
             else if cmd = ''check'' then withConfig CheckCommand
             else if cmd = ''doctor'' then withConfig DoctorCommand
             else if cmd = ''run'' then withConfig RunCommand
             else UsageError)"

text \<open>What main makes of the error.\<close>

definition exit_status :: "app_error option \<Rightarrow> int" where
  "exit_status err = (case err of None \<Rightarrow> 0 | Some e \<Rightarrow> if e = ErrUsage then 2 else 1)"

text \<open>The error of a command; a run that gets to its wait ends without one.\<close>

definition cli_run ::
  "golib \<Rightarrow> yaml_decoder \<Rightarrow> (transport_error \<Rightarrow> string) \<Rightarrow> string \<Rightarrow> string list \<Rightarrow> world \<Rightarrow> app_error option \<times> world" where
  "cli_run L yaml etext goos args w =
     (case cli_dispatch args of
        PrintVersion \<Rightarrow> (None, w)
      | PrintDefaultConfig \<Rightarrow> (None, w)
      | CheckCommand path \<Rightarrow> (let (e, lines, w) = app_Check L yaml goos path w in (e, w))
      | DoctorCommand path \<Rightarrow> (let (e, lines, w) = app_Doctor L yaml goos path w in (e, w))
      | RunCommand path \<Rightarrow>
          (case app_Run L yaml etext goos path w of (Inl e, w) \<Rightarrow> (Some e, w) | (Inr a, w) \<Rightarrow> (None, w))
      | UsageError \<Rightarrow> (Some ErrUsage, w))"

section \<open>Lemmas\<close>

lemma flag_Parse_forms:
  "flag_Parse d [] = Some d" "flag_Parse d [''--config'', p] = Some p" "flag_Parse d [''-config'', p] = Some p"
  "flag_Parse d [''--config=x''] = Some ''x''" "flag_Parse d [''--config''] = None" "flag_Parse d [''--verbose''] = None"
  by (simp_all add: split_flag_def Let_def)

text \<open>Only the commands of the agent itself reach its errors: the status is 2 exactly for a wrong command line.\<close>

lemma app_Check_error: "fst (app_Check L yaml goos path w) \<in> {None, Some ErrCheckFailed}"
  by (simp add: app_Check_def split_beta Let_def)

lemma app_Doctor_error: "fst (app_Doctor L yaml goos path w) \<in> {None, Some ErrCheckFailed}"
  by (simp add: app_Doctor_def writeDoctor_def split_beta Let_def)

lemma app_Run_error: "fst (app_Run L yaml etext goos path w) = Inl e \<Longrightarrow> e \<noteq> ErrUsage"
proof -
  have load: "fst (loadRuntime L yaml goos path w) = Inl e \<Longrightarrow> e \<noteq> ErrUsage" for e
    by (simp add: loadRuntime_def split: prod.split_asm sum.split_asm option.split_asm) blast+
  have objs: "fst (app_objects L cfg reg w) = Inl e \<Longrightarrow> e \<noteq> ErrUsage" for cfg reg w e
    by (simp add: app_objects_def split_beta Let_def split: sum.split_asm) blast+
  assume run: "fst (app_Run L yaml etext goos path w) = Inl e"
  obtain r w1 where l: "loadRuntime L yaml goos path w = (r, w1)" by fastforce
  show ?thesis
  proof (cases r)
    case (Inl x)
    then show ?thesis using run l load [of x] by (simp add: app_Run_def)
  next
    case (Inr y)
    obtain cfg cred reg where y: "y = (cfg, cred, reg)" by (metis prod_cases3)
    obtain ob w2 where ob: "app_objects L cfg reg w1 = (ob, w2)" by fastforce
    show ?thesis
    proof (cases ob)
      case (Inl x)
      then show ?thesis using run l Inr y ob objs [of cfg reg w1 x] by (simp add: app_Run_def)
    next
      case dh: (Inr z)
      then show ?thesis using run l Inr y ob
        by (simp add: app_Run_def split: prod.split_asm if_split_asm sum.split_asm option.split_asm) blast+
    qed
  qed
qed

text \<open>
  The exit status is 2 exactly when the command line is wrong; no failure of the commands themselves
  is taken for one.
\<close>

theorem exit_status_usage:
  "exit_status (fst (cli_run L yaml etext goos args w)) = 2 \<longleftrightarrow> cli_dispatch args = UsageError"
proof (cases "cli_dispatch args")
  case (CheckCommand path)
  then show ?thesis using app_Check_error [of L yaml goos path w] by (auto simp: cli_run_def exit_status_def split_beta Let_def)
next
  case (DoctorCommand path)
  then show ?thesis using app_Doctor_error [of L yaml goos path w] by (auto simp: cli_run_def exit_status_def split_beta Let_def)
next
  case (RunCommand path)
  then show ?thesis
    using app_Run_error [of L yaml etext goos path w]
    by (cases "app_Run L yaml etext goos path w"; cases "fst (app_Run L yaml etext goos path w)") (auto simp: cli_run_def exit_status_def)
qed (simp_all add: cli_run_def exit_status_def)

end
