(* ===== verification/Spec2Isabelle.thy ===== *)
theory Spec2Isabelle
  imports Command_Properties Delivery_Properties WS_Outbound CLI
begin

text \<open>
  mgate-agent runs on a device and executes, on behalf of a cloud service, the actions of a fixed
  whitelist by calling one local script, mgate.sh. It receives commands over a WebSocket or, as a
  fallback, by HTTP polling, keeps every result in a directory of files (the outbox) until the cloud
  has accepted it, and writes an audit log.

  How the parts interact. A transport (pull_client.go, ws_client.go) decodes an envelope and hands its
  command to the one handler (commands/handler.go), which passes it through its gates in order: id
  format, deduplication, registry, local allow list, arguments, timeout. An accepted command becomes
  the argument vector of a built-in action (actions/) and is run with a deadline and bounded output
  (runner/). The result goes into the outbox (outbox/), from where the dispatcher
  (transport/result_dispatcher.go) sends it through whichever transport is there and deletes it once
  the sender has accepted it. The manager (transport/manager.go) starts the transports and lets the
  pull client poll while the WebSocket is not healthy; app/app.go assembles all this from the
  configuration (config/) and the credentials (identity/).

  \<^bold>\<open>Theories and sources\<close> (under src/internal unless said otherwise).
  \<^item> Go_Prelude, Go_Json: Go's integers, strings, maps and JSON values, the parameter record of the
    standard library, the struct decoding of encoding/json.
  \<^item> Agent_World: the world: clock, file system, processes, HTTP, audit file, and the system calls
    that read and change it. Offline: which operations leave processes and requests alone.
  \<^item> Protocol, Messages: protocol/*.go, transport/ws_message.go, transport/pull_message.go.
  \<^item> Redact, Audit_Log: audit/redact.go, audit/audit.go.
  \<^item> Actions: actions/*.go. Dedupe: commands/dedupe.go. Runner: runner/*.go. Handler: commands/handler.go.
  \<^item> Outbox_Record: outbox/record.go. Outbox: the operations of outbox/store.go; Outbox_Files,
    Outbox_Limits and Outbox_Store hold their lemmas. Dispatcher: transport/result_dispatcher.go.
  \<^item> Auth: auth/hmac.go. Http_Auth: transport/http_auth.go, the option records of transport/client.go,
    URL and handshake header of ws_client.go. Backoff: transport/backoff.go. MGate_Client: mgate/client.go.
  \<^item> Pull_Client: transport/pull_client.go; Pull_Properties its theorems.
  \<^item> WS_Outbound: the channel and the writer goroutine of transport/ws_client.go. WS_Client: its other
    functions. WS_Session: the goroutines of a connection interleaved. WS_Properties their theorems.
  \<^item> Manager: transport/manager.go. Config: config/*.go. Identity: identity/credentials.go.
    App: app/app.go, app/version.go, logx/slog.go. Diagnostics: app/diagnostics.go.
    CLI: src/cmd/mgate-agent/main.go.
  \<^item> Command_Properties and Delivery_Properties: the theorems on the path of a command and on that of
    its result. Samples: one library record and one world at which theorems are applied.
  \<^item> this theory: what the assembled agent can do at all.

  \<^bold>\<open>How code becomes definitions.\<close> A struct is a record, a Go function a definition that takes and
  returns the world (and the objects it changes). An error is a value: an option or a sum. Every
  reading of the clock and every system call has a number, and the world answers it by a function of
  that number, so the theorems cover every clock and every pattern of failing calls. What runs
  concurrently is an inductive step relation over the state the goroutines share (the outbound
  channel, the session of a connection, the health channel); the operations under a mutex (dedupe,
  outbox) are single steps. A type int or time.Duration has 64 bits, with \<^verbatim>\<open>wrap64\<close> where an operation can
  leave them. A map is an association list with distinct keys in the order of iteration; sort.Slice is
  taken to keep the order of equal elements.

  \<^bold>\<open>Loops.\<close> The limit loop of the outbox may run forever and is a partial function; C18 proves that it
  returns when each record lies in the file of its id, C19 that it does not return otherwise. PollOnce
  and what calls it are options for that reason: None stands for this loop only. The Run loops of the
  dispatcher, the pull client and the WebSocket client take the number of rounds or the inputs of the
  rounds, since they end only with the context; nothing is cut off within a round. All other loops are
  structural or have a termination proof.

  \<^bold>\<open>What is shown.\<close>
  \<^item> The agent as a whole (C1, App, Config, Identity, Diagnostics, Manager): which processes and requests an
    agent can cause under any input, which configurations and credentials are accepted, what a passed
    check guarantees, when the fallback polls.
  \<^item> Commands (Handler, Command_Properties): only whitelisted argument vectors run, each id at most
    once within the bounds of the table, the gates decide exactly as written, the log and the outbox
    do not carry what stood under a sensitive key, output is the cut of the whole output.
  \<^item> Results (Delivery_Properties, Pull_Properties, WS_Outbound): a write is atomic under every failure,
    the outbox refines a map from ids to records, a record leaves only when a sender accepted it, and
    a sender accepts only what the cloud acknowledged or what was written to the connection.
  \<^item> Connections (WS_Properties, WS_Outbound): bounded queue and workers, every accepted command
    acknowledged and handed to the handler once, no sender left waiting.

  The interfaces are locales: the registry, the audit sink, the reservation of ids, the runner, the
  command handler and the store of results; each is interpreted on the model of the code.

  \<^bold>\<open>Parameters.\<close> The record \<^typ>\<open>golib\<close> holds the functions of the standard library that the code calls and
  that are not written out: text of numbers and times, the JSON text codec, regular expressions, SHA-256
  and HMAC, URL parsing, case mapping outside ASCII. The decoder of gopkg.in/yaml.v3 is a parameter of loading,
  the rounding of float64 one of the backoff, the WebSocket connection one of a session. The behaviour
  of a process and of the cloud are functions in the world.

  \<^bold>\<open>Not modelled.\<close> The text of log lines, of the banner, of the usage message and of the messages of check and
  doctor (their kinds and values are modelled); signals; sleeping (sleepContext); the wait of the
  manager for its goroutines; protocol.StatusPayload, which nothing uses. A session starts with no
  worker of an earlier connection running, and a worker handles a command in one step. The target is
  Linux on a 64-bit machine. A JSON array that is decoded twice into one slice is taken anew.
\<close>

section \<open>The assembled agent\<close>

text \<open>A process that the configuration of an agent permits, and a request that it signs.\<close>

definition agent_process :: "Config \<Rightarrow> proc \<Rightarrow> bool" where
  "agent_process cfg p \<longleftrightarrow> p_path p = ac_MGatePath (cfg_Agent cfg) \<and> 0 < p_timeout p \<and> p_timeout p \<le> 180 * Second \<and>
     (p_argv p = [''capabilities-json''] \<or> p_argv p = [''agent-snapshot''] \<or>
      (\<exists>action \<in> set (sc_AllowActions (cfg_Security cfg)). argv_allowed action (p_argv p)))"

definition agent_post :: "golib \<Rightarrow> agent \<Rightarrow> http_request \<Rightarrow> bool" where
  "agent_post L a req \<longleftrightarrow> hr_Method req = ''POST'' \<and>
     (\<exists>path \<in> {cc_PullPath (cfg_Cloud (ag_config a)), cc_ResultPath (cfg_Cloud (ag_config a))}.
        BuildHTTPURL L (cc_BaseURL (cfg_Cloud (ag_config a))) path = Inr (hr_URL req) \<and>
        signed_by L (cr_DeviceSecret (ag_credentials a)) path req)"

lemma allowed_agent_process:
  assumes "agent_ok L etext a" and "process_allowed (ag_handler a) cmd p"
  shows "agent_process (ag_config a) p"
  using assms by (auto simp: agent_ok_def process_allowed_def agent_process_def)

lemma status_agent_process:
  "agent_process cfg (mgate_proc (app_mgate cfg) ''agent-snapshot'' (mo_SnapshotTimeout (mc_opts (app_mgate cfg))))"
  by (simp add: agent_process_def app_mgate_opts)

lemma started_processes:
  assumes "app_Run L yaml etext goos path w0 = (Inr a, w)"
  obtains procs where "w_execs w = w_execs w0 @ procs" "w_requests w = w_requests w0" "\<forall>p \<in> set procs. agent_process (ag_config a) p"
  using app_Run_ok(2) [OF assms] that by (fastforce simp: net_def agent_process_def app_mgate_opts)



end
